theory Spec2Isabelle
  imports Complex_Main "HOL-Library.Log_Nat" "HOL-Library.List_Lexorder"
    "HOL-Library.Code_Target_Nat"
begin

chapter \<open>A chat front end: routing, attachments, JSON tools and the channel download\<close>

text \<open>
  The development embeds the decision logic of the React components \<^verbatim>\<open>Chat\<close>
  (\<^verbatim>\<open>handleSend\<close>, \<^verbatim>\<open>handleDrop\<close>, \<^verbatim>\<open>handleFileSelect\<close>, \<^verbatim>\<open>parseCSV\<close>),
  \<^verbatim>\<open>YoutubeDownload\<close> (\<^verbatim>\<open>clampInt\<close>, \<^verbatim>\<open>handleDownload\<close>) and of the service
  \<^verbatim>\<open>jsonTools.js\<close> (\<^verbatim>\<open>computeStatsJsonTool\<close>, \<^verbatim>\<open>plotMetricVsTimeTool\<close>).
\<close>

section \<open>Strings\<close>

text \<open>
  A JavaScript string is a sequence of UTF-16 code units: here a list of numbers, each the
  value of one code unit. \<open>js\<close> turns a literal of this text into such a string.
\<close>

type_synonym ustr = "nat list"

definition js :: "string \<Rightarrow> ustr" where
  "js s = map of_char s"

text \<open>White space and line terminators, as \<^verbatim>\<open>String.prototype.trim\<close>, \<^verbatim>\<open>\s\<close> and
  \<^verbatim>\<open>parseInt\<close> read them.\<close>

definition is_space :: "nat \<Rightarrow> bool" where
  "is_space n = ((9 \<le> n \<and> n \<le> 13) \<or> n = 32 \<or> n = 160 \<or> n = 5760 \<or> (8192 \<le> n \<and> n \<le> 8202)
     \<or> n = 8232 \<or> n = 8233 \<or> n = 8239 \<or> n = 8287 \<or> n = 12288 \<or> n = 65279)"

definition is_digit :: "nat \<Rightarrow> bool" where
  "is_digit n = (48 \<le> n \<and> n \<le> 57)"

definition digit_val :: "nat \<Rightarrow> nat" where
  "digit_val n = n - 48"

text \<open>The word characters of \<^verbatim>\<open>\w\<close> and \<^verbatim>\<open>\b\<close>: letters, digits and the underscore.\<close>

definition is_word :: "nat \<Rightarrow> bool" where
  "is_word n = ((48 \<le> n \<and> n \<le> 57) \<or> (65 \<le> n \<and> n \<le> 90) \<or> n = 95 \<or> (97 \<le> n \<and> n \<le> 122))"

text \<open>Case folding of the \<^verbatim>\<open>i\<close> flag. Every pattern of the source is ASCII, and without the
  \<^verbatim>\<open>u\<close> flag no code unit outside ASCII folds onto an ASCII letter.\<close>

definition lower :: "nat \<Rightarrow> nat" where
  "lower n = (if 65 \<le> n \<and> n \<le> 90 then n + 32 else n)"

definition trim :: "ustr \<Rightarrow> ustr" where
  "trim s = rev (dropWhile is_space (rev (dropWhile is_space s)))"

fun starts_with :: "ustr \<Rightarrow> ustr \<Rightarrow> bool" where
  "starts_with s [] = True"
| "starts_with [] (p # ps) = False"
| "starts_with (c # cs) (p # ps) = (c = p \<and> starts_with cs ps)"

definition ends_with :: "ustr \<Rightarrow> ustr \<Rightarrow> bool" where
  "ends_with s p = starts_with (rev s) (rev p)"

text \<open>\<^verbatim>\<open>s.split(sep)\<close> for a separator of one code unit: never an empty list.\<close>

fun split_on :: "nat \<Rightarrow> ustr \<Rightarrow> ustr list" where
  "split_on sep [] = [[]]"
| "split_on sep (c # cs) =
     (if c = sep then [] # split_on sep cs
      else (case split_on sep cs of
              [] \<Rightarrow> [[c]]
            | w # ws \<Rightarrow> (c # w) # ws))"

text \<open>\<^verbatim>\<open>parts.join(sep)\<close>.\<close>

fun join :: "ustr \<Rightarrow> ustr list \<Rightarrow> ustr" where
  "join sep [] = []"
| "join sep [x] = x"
| "join sep (x # y # ys) = x @ sep @ join sep (y # ys)"

text \<open>Decimal rendering of an integer, as a template literal prints one.\<close>

fun show_nat :: "nat \<Rightarrow> ustr" where
  "show_nat n = (if n < 10 then [48 + n] else show_nat (n div 10) @ [48 + n mod 10])"

declare show_nat.simps [simp del]

definition show_int :: "int \<Rightarrow> ustr" where
  "show_int i = (if i < 0 then 45 # show_nat (nat (- i)) else show_nat (nat i))"

section \<open>Regular expressions\<close>

text \<open>
  The patterns of the source use literals, alternation, \<^verbatim>\<open>?\<close>, \<^verbatim>\<open>.*\<close>, \<^verbatim>\<open>\s*\<close>,
  \<^verbatim>\<open>.\<close>, \<^verbatim>\<open>\b\<close> and \<^verbatim>\<open>^\<close>, all under the \<^verbatim>\<open>i\<close> flag. A position is the
  code unit before it (none at the start of the input) and the rest of the input. The
  matcher returns the positions a match can end at, in the order a backtracking matcher
  tries them.
\<close>

datatype cls = AnyC | SpaceC

datatype rx =
    Lit string
  | One cls
  | Star cls
  | Bound
  | Start
  | Seq rx rx
  | Alt rx rx
  | Opt rx

type_synonym pos = "nat option \<times> ustr"

fun cls_ok :: "cls \<Rightarrow> nat \<Rightarrow> bool" where
  "cls_ok AnyC c = (c \<noteq> 10 \<and> c \<noteq> 13 \<and> c \<noteq> 8232 \<and> c \<noteq> 8233)"
| "cls_ok SpaceC c = is_space c"

fun lit_match :: "string \<Rightarrow> pos \<Rightarrow> pos list" where
  "lit_match [] p = [p]"
| "lit_match (a # as) (p, []) = []"
| "lit_match (a # as) (p, c # cs) =
     (if lower (of_char a) = lower c then lit_match as (Some c, cs) else [])"

fun star_match :: "cls \<Rightarrow> pos \<Rightarrow> pos list" where
  "star_match k (p, []) = [(p, [])]"
| "star_match k (p, c # cs) =
     (if cls_ok k c then star_match k (Some c, cs) @ [(p, c # cs)] else [(p, c # cs)])"

definition word_before :: "pos \<Rightarrow> bool" where
  "word_before p = (case fst p of None \<Rightarrow> False | Some c \<Rightarrow> is_word c)"

definition word_after :: "pos \<Rightarrow> bool" where
  "word_after p = (case snd p of [] \<Rightarrow> False | c # cs \<Rightarrow> is_word c)"

primrec rx_match :: "rx \<Rightarrow> pos \<Rightarrow> pos list" where
  "rx_match (Lit w) p = lit_match w p"
| "rx_match (One k) p =
     (case snd p of [] \<Rightarrow> [] | c # cs \<Rightarrow> if cls_ok k c then [(Some c, cs)] else [])"
| "rx_match (Star k) p = star_match k p"
| "rx_match Bound p = (if word_before p \<noteq> word_after p then [p] else [])"
| "rx_match Start p = (if fst p = None then [p] else [])"
| "rx_match (Seq r1 r2) p = concat (map (rx_match r2) (rx_match r1 p))"
| "rx_match (Alt r1 r2) p = rx_match r1 p @ rx_match r2 p"
| "rx_match (Opt r) p = rx_match r p @ [p]"

text \<open>\<^verbatim>\<open>re.test(s)\<close>: a match starting at some position of the input.\<close>

fun rx_search :: "rx \<Rightarrow> pos \<Rightarrow> bool" where
  "rx_search r (p, []) = (rx_match r (p, []) \<noteq> [])"
| "rx_search r (p, c # cs) = (rx_match r (p, c # cs) \<noteq> [] \<or> rx_search r (Some c, cs))"

definition rx_test :: "rx \<Rightarrow> ustr \<Rightarrow> bool" where
  "rx_test r s = rx_search r (None, s)"

text \<open>An alternation, a sequence, and a word-bounded group \<^verbatim>\<open>\b(a|b|...)\b\<close>.\<close>

fun alts :: "rx list \<Rightarrow> rx" where
  "alts [] = Lit []"
| "alts [r] = r"
| "alts (r # r' # rs) = Alt r (alts (r' # rs))"

fun seqs :: "rx list \<Rightarrow> rx" where
  "seqs [] = Lit []"
| "seqs [r] = r"
| "seqs (r # r' # rs) = Seq r (seqs (r' # rs))"

definition bounded :: "rx list \<Rightarrow> rx" where
  "bounded rs = seqs [Bound, alts rs, Bound]"

text \<open>\<^verbatim>\<open>views?\<close>: a literal with an optional \<^verbatim>\<open>s\<close>.\<close>

definition plural :: "string \<Rightarrow> rx" where
  "plural w = Seq (Lit w) (Opt (Lit ''s''))"

text \<open>\<^verbatim>\<open>box.?plot\<close>: two literals with at most one character between them.\<close>

definition gap :: "string \<Rightarrow> string \<Rightarrow> rx" where
  "gap a b = seqs [Lit a, Opt (One AnyC), Lit b]"

section \<open>Numbers and JSON values\<close>

text \<open>
  A JavaScript number is an IEEE 754 double: not-a-number, an infinity, or a finite
  rational (the sign of zero is not modelled: no operation below tells the two zeros
  apart). Arithmetic rounds; the rounding function is defined further down.
\<close>

datatype jsnum = NaN | NInf | Fin rat | PInf

text \<open>What \<^verbatim>\<open>JSON.parse\<close> returns. An object is the list of its members in the order
  of the text; a repeated key reads as its last member.\<close>

datatype json =
    JNull
  | JBool bool
  | JNum jsnum
  | JStr ustr
  | JArr "json list"
  | JObj "(ustr \<times> json) list"

datatype js_error = TypeError

text \<open>Truthiness, as \<^verbatim>\<open>||\<close>, \<^verbatim>\<open>!\<close> and \<^verbatim>\<open>filter(Boolean)\<close> read a value;
  \<^term>\<open>None\<close> is \<^verbatim>\<open>undefined\<close>.\<close>

fun truthy :: "json \<Rightarrow> bool" where
  "truthy JNull = False"
| "truthy (JBool b) = b"
| "truthy (JNum n) = (n \<noteq> NaN \<and> n \<noteq> Fin 0)"
| "truthy (JStr s) = (s \<noteq> [])"
| "truthy (JArr xs) = True"
| "truthy (JObj kvs) = True"

definition truthy_opt :: "json option \<Rightarrow> bool" where
  "truthy_opt v = (case v of None \<Rightarrow> False | Some j \<Rightarrow> truthy j)"

text \<open>\<^verbatim>\<open>a || b\<close> and \<^verbatim>\<open>a ?? b\<close> on values that may be undefined.\<close>

definition or_else :: "json option \<Rightarrow> json option \<Rightarrow> json option" where
  "or_else a b = (if truthy_opt a then a else b)"

definition nullish :: "json option \<Rightarrow> bool" where
  "nullish v = (v = None \<or> v = Some JNull)"

definition coalesce :: "json option \<Rightarrow> json option \<Rightarrow> json option" where
  "coalesce a b = (if nullish a then b else a)"

text \<open>An array index as a property name: a decimal numeral without a leading zero.\<close>

definition digits_val :: "ustr \<Rightarrow> nat" where
  "digits_val ds = foldl (\<lambda>a c. 10 * a + digit_val c) 0 ds"

definition index_of_key :: "ustr \<Rightarrow> nat option" where
  "index_of_key k =
     (if k \<noteq> [] \<and> list_all is_digit k \<and> (k = [48] \<or> hd k \<noteq> 48)
      then Some (digits_val k) else None)"

text \<open>
  Reading a property \<^verbatim>\<open>v[k]\<close> of a value that is not null: an own member of an object,
  the length or an element of an array or a string, and undefined otherwise. Names the
  built-in prototypes supply (\<^verbatim>\<open>toString\<close>, \<^verbatim>\<open>constructor\<close>, ...) are not
  modelled: a key ranges over data properties.
\<close>

fun jprop :: "json \<Rightarrow> ustr \<Rightarrow> json option" where
  "jprop (JObj kvs) k = map_of (rev kvs) k"
| "jprop (JArr xs) k =
     (if k = js ''length'' then Some (JNum (Fin (of_nat (length xs))))
      else (case index_of_key k of
              None \<Rightarrow> None
            | Some i \<Rightarrow> if i < length xs then Some (xs ! i) else None))"
| "jprop (JStr s) k =
     (if k = js ''length'' then Some (JNum (Fin (of_nat (length s))))
      else (case index_of_key k of
              None \<Rightarrow> None
            | Some i \<Rightarrow> if i < length s then Some (JStr [s ! i]) else None))"
| "jprop v k = None"

text \<open>\<^verbatim>\<open>v.k\<close>: a TypeError when \<^verbatim>\<open>v\<close> is null.\<close>

definition get_prop :: "json \<Rightarrow> ustr \<Rightarrow> js_error + json option" where
  "get_prop v k = (if v = JNull then Inl TypeError else Inr (jprop v k))"

text \<open>\<^verbatim>\<open>v?.k\<close> and \<^verbatim>\<open>v?.[k]\<close>: undefined when \<^verbatim>\<open>v\<close> is null or undefined.\<close>

definition opt_prop :: "json option \<Rightarrow> ustr \<Rightarrow> json option" where
  "opt_prop v k = (case v of None \<Rightarrow> None | Some j \<Rightarrow> jprop j k)"

section \<open>The channel download (\<^verbatim>\<open>YoutubeDownload\<close>)\<close>

text \<open>\<^verbatim>\<open>Number.parseInt(s, 10)\<close>: leading white space, a sign, then the longest run of
  digits; \<^term>\<open>None\<close> is NaN.

  The result is an unbounded integer here. The source rounds a long run of digits to a
  double, and \<^verbatim>\<open>clampInt\<close> then clamps it between two small integers: rounding is
  monotone and keeps small integers, so the clamped result is the same.\<close>

definition parseInt10 :: "ustr \<Rightarrow> int option" where
  "parseInt10 s =
     (let t = dropWhile is_space s;
          neg = (t \<noteq> [] \<and> hd t = 45);
          u = (if t \<noteq> [] \<and> (hd t = 45 \<or> hd t = 43) then tl t else t);
          ds = takeWhile is_digit u
      in if ds = [] then None
         else Some ((if neg then - 1 else 1) * int (digits_val ds)))"

text \<open>The value of the \<^verbatim>\<open>maxVideos\<close> state: the number the component stores, or the
  text of the input element.\<close>

datatype input_val = NumV int | StrV ustr

text \<open>\<^verbatim>\<open>String(v || '')\<close>.\<close>

fun string_or_empty :: "input_val \<Rightarrow> ustr" where
  "string_or_empty (NumV n) = (if n = 0 then [] else show_int n)"
| "string_or_empty (StrV s) = s"

definition clampInt :: "input_val \<Rightarrow> int \<Rightarrow> int \<Rightarrow> int" where
  "clampInt v lo hi =
     (case parseInt10 (string_or_empty v) of
        None \<Rightarrow> lo
      | Some n \<Rightarrow> max lo (min hi n))"

record payload =
  channel_handle :: ustr
  channel_url :: ustr
  channel_title :: json
  downloaded_at :: ustr
  max_videos_requested :: int
  videos :: "json list"

record yt_state =
  url :: ustr
  maxVideos :: input_val
  downloading :: bool
  progress :: nat
  error_msg :: ustr
  data :: "payload option"
  timerRef :: bool

text \<open>What the fetch of the bundled sample does: it rejects, answers with a status that
  is not ok, answers with a body that is not JSON, or answers with a JSON value.\<close>

datatype fetch_result =
    FetchRejects ustr
  | FetchStatus nat
  | BodyRejects ustr
  | FetchOk json

record yt_env =
  fetch_sample :: fetch_result
  now_iso :: ustr
  type_error_message :: ustr

definition isVeritasium :: "ustr \<Rightarrow> bool" where
  "isVeritasium u = rx_test (Seq (Lit ''youtube.com/@veritasium'') Bound) (trim u)"

text \<open>The body of the \<^verbatim>\<open>try\<close> block: the payload, or the message of what was thrown.\<close>

definition build_payload :: "yt_env \<Rightarrow> ustr \<Rightarrow> int \<Rightarrow> ustr + payload" where
  "build_payload env u targetMax =
     (if \<not> isVeritasium u
      then Inl (js ''This demo is wired for https://www.youtube.com/@veritasium (sample download).'')
      else (case fetch_sample env of
              FetchRejects m \<Rightarrow> Inl m
            | FetchStatus n \<Rightarrow>
                Inl (js ''Failed to load sample channel JSON ('' @ show_nat n @ js '')'')
            | BodyRejects m \<Rightarrow> Inl m
            | FetchOk raw \<Rightarrow>
                (case get_prop raw (js ''videos'') of
                   Inl e \<Rightarrow> Inl (type_error_message env)
                 | Inr vs \<Rightarrow>
                     Inr \<lparr> channel_handle = js ''veritasium'',
                           channel_url = js ''https://www.youtube.com/@veritasium'',
                           channel_title =
                             (case or_else (opt_prop (jprop raw (js ''channel'')) (js ''title''))
                                     (Some (JStr (js ''Veritasium''))) of
                                None \<Rightarrow> JStr (js ''Veritasium'') | Some t \<Rightarrow> t),
                           downloaded_at = now_iso env,
                           max_videos_requested = targetMax,
                           videos = (case vs of
                                       Some (JArr xs) \<Rightarrow> take (nat targetMax) xs
                                     | _ \<Rightarrow> []) \<rparr>)))"

text \<open>\<^verbatim>\<open>handleDownload\<close>. The interval timer only ramps the progress bar while the fetch
  is pending; the handler overwrites the progress and clears the timer before it ends.\<close>

definition handleDownload :: "yt_env \<Rightarrow> yt_state \<Rightarrow> yt_state" where
  "handleDownload env st =
     (let targetMax = clampInt (maxVideos st) 1 100;
          st1 = st\<lparr> error_msg := [], data := None, progress := 0, downloading := True,
                    maxVideos := NumV targetMax, timerRef := True \<rparr>;
          st2 = (case build_payload env (url st) targetMax of
                   Inr p \<Rightarrow> st1\<lparr> data := Some p, progress := 100 \<rparr>
                 | Inl m \<Rightarrow> st1\<lparr> error_msg := (if m = [] then js ''Download failed'' else m),
                                 progress := 0 \<rparr>)
      in st2\<lparr> timerRef := False, downloading := False \<rparr>)"

section \<open>The chat component: attachments\<close>

text \<open>\<^verbatim>\<open>new TextEncoder().encode(str)\<close>: the UTF-8 bytes of a string; a surrogate without
  its partner encodes as U+FFFD.\<close>

fun utf8_encode :: "ustr \<Rightarrow> nat list" where
  "utf8_encode [] = []"
| "utf8_encode (u # us) =
     (if u < 128 then u # utf8_encode us
      else if u < 2048 then (192 + u div 64) # (128 + u mod 64) # utf8_encode us
      else if 55296 \<le> u \<and> u < 56320 then
        (case us of
           [] \<Rightarrow> [239, 191, 189]
         | l # us' \<Rightarrow>
             if 56320 \<le> l \<and> l < 57344 then
               (let cp = 65536 + (u - 55296) * 1024 + (l - 56320)
                in (240 + cp div 262144) # (128 + (cp div 4096) mod 64)
                   # (128 + (cp div 64) mod 64) # (128 + cp mod 64) # utf8_encode us')
             else 239 # 191 # 189 # utf8_encode us)
      else if 56320 \<le> u \<and> u < 57344 then 239 # 191 # 189 # utf8_encode us
      else (224 + u div 4096) # (128 + (u div 64) mod 64) # (128 + u mod 64) # utf8_encode us)"

text \<open>\<^verbatim>\<open>btoa\<close>: base64 with padding.\<close>

definition b64_digit :: "nat \<Rightarrow> nat" where
  "b64_digit i =
     (if i < 26 then 65 + i else if i < 52 then 97 + (i - 26)
      else if i < 62 then 48 + (i - 52) else if i = 62 then 43 else 47)"

fun btoa :: "nat list \<Rightarrow> ustr" where
  "btoa [] = []"
| "btoa [a] = [b64_digit (a div 4), b64_digit ((a mod 4) * 16), 61, 61]"
| "btoa [a, b] =
     [b64_digit (a div 4), b64_digit ((a mod 4) * 16 + b div 16), b64_digit ((b mod 16) * 4), 61]"
| "btoa (a # b # c # bs) =
     b64_digit (a div 4) # b64_digit ((a mod 4) * 16 + b div 16)
       # b64_digit ((b mod 16) * 4 + c div 64) # b64_digit (c mod 64) # btoa bs"

definition toBase64 :: "ustr \<Rightarrow> ustr" where
  "toBase64 s = btoa (utf8_encode s)"

record csv_ctx =
  csv_name :: ustr
  headers :: "ustr list"
  rowCount :: nat
  preview :: ustr
  base64 :: ustr
  truncated :: bool

text \<open>\<^verbatim>\<open>h.trim().replace(/^"|"$/g, '')\<close>: one double quote off each end.\<close>

definition strip_quotes :: "ustr \<Rightarrow> ustr" where
  "strip_quotes h =
     (let h1 = (if h \<noteq> [] \<and> hd h = 34 then tl h else h)
      in if h1 \<noteq> [] \<and> last h1 = 34 then butlast h1 else h1)"

text \<open>\<^verbatim>\<open>parseCSV\<close>, with the file name the two callers add to its result. The base64 of the
  text (cut at 500000 code units) is built here, for every CSV that has a line.\<close>

definition parseCSV :: "ustr \<Rightarrow> ustr \<Rightarrow> csv_ctx option" where
  "parseCSV fname txt =
     (let lines = filter (\<lambda>l. trim l \<noteq> []) (split_on 10 txt)
      in if lines = [] then None
         else Some \<lparr> csv_name = fname,
                     headers = map (\<lambda>h. strip_quotes (trim h)) (split_on 44 (hd lines)),
                     rowCount = length lines - 1,
                     preview = join [10] (take 6 lines),
                     base64 = toBase64 (if length txt > 500000 then take 500000 txt else txt),
                     truncated = (length txt > 500000) \<rparr>)"

record json_ctx =
  json_name :: ustr
  bytes :: nat

record image =
  img_data :: ustr
  mimeType :: ustr
  img_name :: ustr

record attached_file =
  file_name :: ustr
  file_type :: ustr
  file_text :: ustr
  file_base64 :: ustr

datatype part = TextPart ustr | OtherPart

record message =
  msg_id :: "ustr option"
  role :: ustr
  content :: ustr
  timestamp :: ustr
  msg_images :: "image list option"
  csvName :: "ustr option"
  charts :: "json list option"
  toolCalls :: "json list option"
  parts :: "part list option"
  grounding :: "json option"

record session =
  session_id :: ustr
  agent :: ustr
  title :: ustr
  createdAt :: ustr
  messageCount :: nat

text \<open>The state of the \<^verbatim>\<open>Chat\<close> component that the handlers read and write: the
  \<^verbatim>\<open>useState\<close> cells and the two refs.\<close>

record chat_state =
  sessions :: "session list"
  activeSessionId :: "ustr option"
  messages :: "message list"
  input :: ustr
  images :: "image list"
  csvContext :: "csv_ctx option"
  jsonContext :: "json_ctx option"
  channelJson :: "json option"
  channelJsonSummary :: ustr
  jsonError :: ustr
  sessionCsvRows :: "json list option"
  sessionCsvHeaders :: "ustr list option"
  csvDataSummary :: "ustr option"
  sessionSlimCsv :: "ustr option"
  streaming :: bool
  dragOver :: bool
  abortRef :: bool
  justCreatedSessionRef :: bool

text \<open>What the generator \<^verbatim>\<open>streamChat\<close> yields, and what happens while one send is
  streaming: a chunk arrives, the user presses Stop (\<^verbatim>\<open>handleStop\<close> sets the abort
  flag), or the generator throws.\<close>

datatype chunk = TextChunk ustr | FullResponse "part list" | Grounding json | OtherChunk

datatype stream_event = Chunk chunk | StopPressed | StreamThrows ustr

datatype json_tool = MetricPlot | StatsJson | PlayVideo

text \<open>The calls a handler makes, in order.\<close>

datatype call =
    CreateSession ustr ustr ustr
  | SaveMessage ustr ustr ustr "image list option" "json list option" "json list option"
  | GenerateImage ustr "(ustr \<times> ustr) option"
  | JsonTool json_tool ustr json
  | ChatWithCsvTools "(ustr \<times> ustr) list" ustr "ustr list option"
  | StreamChat "(ustr \<times> ustr) list" ustr "(ustr \<times> ustr) list" bool

text \<open>
  The collaborators of the component, as functions of what they are given: the props, the
  built-ins \<^verbatim>\<open>JSON.parse\<close> and the clock, the module \<^verbatim>\<open>csvTools\<close>, the persistence and
  model services. \<^verbatim>\<open>createSession\<close> and \<^verbatim>\<open>saveMessage\<close> are taken to resolve. Two
  parts of the source are taken as functions too: the text \<^verbatim>\<open>summarizeChannelJson\<close>
  renders, and the reply of the JSON tool branch of \<^verbatim>\<open>handleSend\<close> (the key it reads from
  the text, the tool of \<^verbatim>\<open>jsonTools.js\<close> it runs and the text it renders from the result),
  which is the thrown message or the content, the charts and the tool calls.
\<close>

record chat_env =
  username :: ustr
  firstName :: ustr
  lastName :: ustr
  json_parse :: "ustr \<Rightarrow> ustr + json"
  summarizeChannelJson :: "json \<Rightarrow> ustr"
  parseCsvToRows :: "ustr \<Rightarrow> json list \<times> ustr list"
  enrichWithEngagement :: "json list \<Rightarrow> ustr list \<Rightarrow> json list \<times> ustr list"
  computeDatasetSummary :: "json list \<Rightarrow> ustr list \<Rightarrow> ustr"
  buildSlimCsv :: "json list \<Rightarrow> ustr list \<Rightarrow> ustr"
  chatTitle :: ustr
  createSession :: "ustr \<Rightarrow> ustr \<Rightarrow> ustr \<Rightarrow> ustr"
  iso_session :: ustr
  clock_user :: nat
  iso_user :: ustr
  clock_assistant :: nat
  iso_assistant :: ustr
  generateImageTool :: "ustr \<Rightarrow> (ustr \<times> ustr) option \<Rightarrow> ustr + ustr \<times> ustr"
  json_tool_reply :: "json_tool \<Rightarrow> ustr \<Rightarrow> json \<Rightarrow> ustr + ustr \<times> json list \<times> json list"
  chatWithCsvTools ::
    "(ustr \<times> ustr) list \<Rightarrow> ustr \<Rightarrow> ustr list option \<Rightarrow> json list
       \<Rightarrow> ustr + ustr \<times> json list \<times> json list"
  streamChat :: "(ustr \<times> ustr) list \<Rightarrow> ustr \<Rightarrow> (ustr \<times> ustr) list \<Rightarrow> bool \<Rightarrow> stream_event list"

definition is_csv_file :: "attached_file \<Rightarrow> bool" where
  "is_csv_file f = (ends_with (file_name f) (js ''.csv'') \<or> file_type f = js ''text/csv'')"

definition is_json_file :: "attached_file \<Rightarrow> bool" where
  "is_json_file f = (ends_with (file_name f) (js ''.json'') \<or> file_type f = js ''application/json'')"

definition is_image_file :: "attached_file \<Rightarrow> bool" where
  "is_image_file f = starts_with (file_type f) (js ''image/'')"

definition image_of_file :: "attached_file \<Rightarrow> image" where
  "image_of_file f = \<lparr> img_data = file_base64 f, mimeType = file_type f, img_name = file_name f \<rparr>"

text \<open>The CSV part of both handlers: the first CSV file, when \<^verbatim>\<open>parseCSV\<close> returns a
  context for it.\<close>

definition attach_csv :: "chat_env \<Rightarrow> attached_file list \<Rightarrow> chat_state \<Rightarrow> chat_state" where
  "attach_csv env csvFiles st =
     (case csvFiles of
        [] \<Rightarrow> st
      | file # others \<Rightarrow>
          (case parseCSV (file_name file) (file_text file) of
             None \<Rightarrow> st
           | Some parsed \<Rightarrow>
               (let raw = parseCsvToRows env (file_text file);
                    enriched = enrichWithEngagement env (fst raw) (snd raw)
                in st\<lparr> csvContext := Some parsed,
                        jsonContext := None,
                        channelJson := None,
                        channelJsonSummary := [],
                        jsonError := [],
                        sessionCsvHeaders := Some (snd enriched),
                        sessionCsvRows := Some (fst enriched),
                        csvDataSummary := Some (computeDatasetSummary env (fst enriched) (snd enriched)),
                        sessionSlimCsv := Some (buildSlimCsv env (fst enriched) (snd enriched)) \<rparr>)))"

text \<open>The JSON part of both handlers: the first JSON file. The \<^verbatim>\<open>try\<close> branch clears the
  CSV state; the \<^verbatim>\<open>catch\<close> branch sets the JSON context and the error and leaves the CSV
  state as it is.\<close>

definition attach_json :: "chat_env \<Rightarrow> attached_file list \<Rightarrow> chat_state \<Rightarrow> chat_state" where
  "attach_json env jsonFiles st =
     (case jsonFiles of
        [] \<Rightarrow> st
      | file # others \<Rightarrow>
          (case json_parse env (file_text file) of
             Inr obj \<Rightarrow>
               st\<lparr> jsonContext := Some \<lparr> json_name = file_name file, bytes = length (file_text file) \<rparr>,
                    channelJson := Some obj,
                    channelJsonSummary := summarizeChannelJson env obj,
                    jsonError := [],
                    csvContext := None,
                    sessionCsvRows := None,
                    sessionCsvHeaders := None,
                    csvDataSummary := None,
                    sessionSlimCsv := None \<rparr>
           | Inl msg \<Rightarrow>
               st\<lparr> jsonContext := Some \<lparr> json_name = file_name file, bytes = length (file_text file) \<rparr>,
                    channelJson := None,
                    channelJsonSummary := [],
                    jsonError := js ''Invalid JSON: '' @ (if msg = [] then js ''parse failed'' else msg) \<rparr>))"

definition attach_images :: "attached_file list \<Rightarrow> chat_state \<Rightarrow> chat_state" where
  "attach_images imageFiles st =
     (if imageFiles = [] then st
      else st\<lparr> images := images st @ map image_of_file imageFiles \<rparr>)"

text \<open>\<^verbatim>\<open>handleDrop\<close>: the files of the drop event.\<close>

definition handleDrop :: "chat_env \<Rightarrow> attached_file list \<Rightarrow> chat_state \<Rightarrow> chat_state" where
  "handleDrop env files st =
     (let csvFiles = filter is_csv_file files;
          jsonFiles = filter is_json_file files;
          imageFiles = filter is_image_file files
      in attach_images imageFiles
           (attach_json env jsonFiles
              (attach_csv env csvFiles (st\<lparr> dragOver := False \<rparr>))))"

text \<open>\<^verbatim>\<open>handleFileSelect\<close>: the files of the file picker, handled as the drop handles them;
  it does not touch the drag flag.\<close>

definition handleFileSelect :: "chat_env \<Rightarrow> attached_file list \<Rightarrow> chat_state \<Rightarrow> chat_state" where
  "handleFileSelect env files st =
     (let csvFiles = filter is_csv_file files;
          jsonFiles = filter is_json_file files;
          imageFiles = filter is_image_file files
      in attach_images imageFiles
           (attach_json env jsonFiles
              (attach_csv env csvFiles st)))"

section \<open>The chat component: sending a message\<close>

subsection \<open>The patterns that read the intent of the text\<close>

definition wantsGenerateImage :: "ustr \<Rightarrow> bool" where
  "wantsGenerateImage t =
     (rx_test (bounded [Lit ''generateimage'']) t \<or>
      rx_test (seqs [Start, Star SpaceC, Lit ''generateimage'', Star SpaceC, Lit '':'']) t \<or>
      rx_test (bounded [Lit ''generate an image'', Lit ''make an image'', Lit ''create an image'',
                        Lit ''image generation'']) t)"

definition wantsMetricPlot :: "ustr \<Rightarrow> bool" where
  "wantsMetricPlot t =
     (rx_test (bounded [Lit ''plot_metric_vs_time'']) t \<or>
      rx_test (seqs [bounded [Lit ''plot'', Lit ''graph''], Star AnyC,
                     bounded [plural ''view'', plural ''like'', plural ''comment''], Star AnyC,
                     bounded [Lit ''time'']]) t)"

definition wantsStatsJson :: "ustr \<Rightarrow> bool" where
  "wantsStatsJson t =
     (rx_test (bounded [Lit ''compute_stats_json'']) t \<or>
      rx_test (seqs [bounded [plural ''stat'', plural ''statistic'', Lit ''average'', Lit ''mean'',
                              Lit ''median'', Lit ''distribution''], Star AnyC,
                     bounded [plural ''view'', plural ''like'', plural ''comment'',
                              Lit ''duration'']]) t)"

definition wantsPlayVideo :: "ustr \<Rightarrow> bool" where
  "wantsPlayVideo t =
     (rx_test (bounded [Lit ''play_video'']) t \<or>
      rx_test (seqs [bounded [Lit ''play'', Lit ''open''], Star AnyC, bounded [Lit ''video'']]) t)"

definition PYTHON_ONLY_KEYWORDS :: rx where
  "PYTHON_ONLY_KEYWORDS =
     bounded [Lit ''regression'', Lit ''scatter'', Lit ''histogram'', Lit ''seaborn'',
              Lit ''matplotlib'', Lit ''numpy'', gap ''time'' ''series'', Lit ''heatmap'',
              gap ''box'' ''plot'', Lit ''violin'', Lit ''distribut'', gap ''linear'' ''model'',
              Lit ''logistic'', Lit ''forecast'', gap ''trend'' ''line'']"

definition CODE_KEYWORDS :: rx where
  "CODE_KEYWORDS =
     bounded [Lit ''plot'', Lit ''chart'', Lit ''graph'', Lit ''analyz'', Lit ''statistic'',
              Lit ''regression'', Lit ''correlat'', Lit ''histogram'', Lit ''visualiz'',
              Lit ''calculat'', Lit ''compute'', Lit ''run code'', Lit ''write code'',
              Lit ''execute'', Lit ''pandas'', Lit ''numpy'', Lit ''matplotlib'', Lit ''csv'',
              Lit ''data'']"

subsection \<open>The routing flags\<close>

definition wantPythonOnly :: "ustr \<Rightarrow> bool" where
  "wantPythonOnly t = rx_test PYTHON_ONLY_KEYWORDS t"

definition wantCode :: "chat_state \<Rightarrow> ustr \<Rightarrow> bool" where
  "wantCode st t = (rx_test CODE_KEYWORDS t \<and> sessionCsvRows st = None)"

definition needsBase64 :: "chat_state \<Rightarrow> ustr \<Rightarrow> bool" where
  "needsBase64 st t = (csvContext st \<noteq> None \<and> wantPythonOnly t)"

definition useTools :: "chat_state \<Rightarrow> ustr \<Rightarrow> bool" where
  "useTools st t =
     (sessionCsvRows st \<noteq> None \<and> \<not> wantPythonOnly t \<and> \<not> wantCode st t \<and> csvContext st = None)"

definition useCodeExecution :: "chat_state \<Rightarrow> ustr \<Rightarrow> bool" where
  "useCodeExecution st t = (wantPythonOnly t \<or> wantCode st t)"

subsection \<open>The prompt\<close>

definition sessionSummary :: "chat_state \<Rightarrow> ustr" where
  "sessionSummary st = (case csvDataSummary st of None \<Rightarrow> [] | Some s \<Rightarrow> s)"

definition slimCsvBlock :: "chat_state \<Rightarrow> ustr" where
  "slimCsvBlock st =
     (case sessionSlimCsv st of
        None \<Rightarrow> []
      | Some s \<Rightarrow>
          if s = [] then []
          else [10, 10] @ js ''Full dataset (key columns):'' @ [10, 96, 96, 96] @ js ''csv'' @ [10]
               @ s @ [10, 96, 96, 96])"

definition csv_heading :: "csv_ctx \<Rightarrow> ustr" where
  "csv_heading c =
     js ''[CSV File: '' @ [34] @ csv_name c @ [34] @ js '' | '' @ show_nat (rowCount c)
       @ js '' rows | Columns: '' @ join (js '', '') (headers c) @ js '']''"

text \<open>The lines of the Python path around the base64 text; the dash after IMPORTANT is
  U+2014.\<close>

definition python_hint :: "ustr \<Rightarrow> ustr" where
  "python_hint b64 =
     js ''IMPORTANT '' @ [8212] @ js '' to load the full data in Python use this exact pattern:''
       @ [10, 96, 96, 96] @ js ''python'' @ [10]
       @ js ''import pandas as pd, io, base64'' @ [10]
       @ js ''df = pd.read_csv(io.BytesIO(base64.b64decode('' @ [34] @ b64 @ [34] @ js '')))''
       @ [10, 96, 96, 96]"

definition csvPrefix :: "chat_state \<Rightarrow> ustr \<Rightarrow> ustr" where
  "csvPrefix st t =
     (case csvContext st of
        Some capturedCsv \<Rightarrow>
          if needsBase64 st t
          then csv_heading capturedCsv @ [10, 10] @ sessionSummary st @ slimCsvBlock st @ [10, 10]
               @ python_hint (base64 capturedCsv) @ [10, 10] @ js ''---'' @ [10, 10]
          else csv_heading capturedCsv @ [10, 10] @ sessionSummary st @ slimCsvBlock st @ [10, 10]
               @ js ''---'' @ [10, 10]
      | None \<Rightarrow>
          if sessionSummary st \<noteq> []
          then js ''[CSV columns: ''
               @ (case sessionCsvHeaders st of None \<Rightarrow> js ''undefined'' | Some hs \<Rightarrow> join (js '', '') hs)
               @ js '']'' @ [10, 10] @ sessionSummary st @ [10, 10] @ js ''---'' @ [10, 10]
          else [])"

definition video_count_text :: "json option \<Rightarrow> ustr" where
  "video_count_text cj =
     (case opt_prop cj (js ''videos'') of
        Some (JArr xs) \<Rightarrow> show_nat (length xs)
      | _ \<Rightarrow> (case opt_prop cj (js ''items'') of
                Some (JArr ys) \<Rightarrow> show_nat (length ys)
              | _ \<Rightarrow> js ''unknown''))"

definition jsonPrefix :: "chat_state \<Rightarrow> ustr" where
  "jsonPrefix st =
     (case jsonContext st of
        None \<Rightarrow> []
      | Some capturedJson \<Rightarrow>
          if truthy_opt (channelJson st)
          then js ''[YouTube Channel JSON: '' @ [34] @ json_name capturedJson @ [34] @ js '' | ''
               @ video_count_text (channelJson st) @ js '' videos]'' @ [10, 10]
               @ channelJsonSummary st @ [10, 10] @ js ''---'' @ [10, 10]
          else if jsonError st \<noteq> []
          then js ''[YouTube Channel JSON: '' @ [34] @ json_name capturedJson @ [34] @ js '']''
               @ [10, 10] @ jsonError st @ [10, 10] @ js ''---'' @ [10, 10]
          else [])"

text \<open>\<^verbatim>\<open>userContent\<close> is what the bubble shows and what is stored; \<^verbatim>\<open>promptForGemini\<close> is
  what the model is sent.\<close>

definition userContent :: "chat_state \<Rightarrow> ustr \<Rightarrow> ustr" where
  "userContent st t =
     (if t \<noteq> [] then t
      else if images st \<noteq> [] then js ''(Image)''
      else if csvContext st \<noteq> None then js ''(CSV attached)''
      else js ''(JSON attached)'')"

definition promptForGemini :: "chat_state \<Rightarrow> ustr \<Rightarrow> ustr" where
  "promptForGemini st t =
     jsonPrefix st @ csvPrefix st t @
     (if t \<noteq> [] then t
      else if images st \<noteq> [] then js ''What do you see in this image?''
      else if jsonContext st \<noteq> None then js ''Please analyze this YouTube channel JSON.''
      else js ''Please analyze this CSV data.'')"

subsection \<open>The handler\<close>

text \<open>The guard of \<^verbatim>\<open>handleSend\<close>: nothing to send, a send in flight, or no session.\<close>

definition send_blocked :: "chat_state \<Rightarrow> bool" where
  "send_blocked st =
     ((trim (input st) = [] \<and> images st = [] \<and> csvContext st = None \<and> jsonContext st = None)
      \<or> streaming st \<or> activeSessionId st = None \<or> activeSessionId st = Some [])"

text \<open>\<^verbatim>\<open>m.map((msg) => (msg.id === assistantId ? f(msg) : msg))\<close>.\<close>

definition update_msgs :: "ustr \<Rightarrow> (message \<Rightarrow> message) \<Rightarrow> message list \<Rightarrow> message list" where
  "update_msgs aid f ms = map (\<lambda>m. if msg_id m = Some aid then f m else m) ms"

definition blank_reply :: "ustr \<Rightarrow> ustr \<Rightarrow> message" where
  "blank_reply aid ts =
     \<lparr> msg_id = Some aid, role = js ''model'', content = [], timestamp = ts, msg_images = None,
       csvName = None, charts = None, toolCalls = None, parts = None, grounding = None \<rparr>"

definition some_if_any :: "'a list \<Rightarrow> 'a list option" where
  "some_if_any xs = (if xs = [] then None else Some xs)"

text \<open>The text parts of a structured response, joined by line feeds.\<close>

fun text_parts :: "part list \<Rightarrow> ustr list" where
  "text_parts [] = []"
| "text_parts (TextPart t # ps) = t # text_parts ps"
| "text_parts (OtherPart # ps) = text_parts ps"

definition messageText :: "message \<Rightarrow> ustr" where
  "messageText m = (case parts m of Some ps \<Rightarrow> join [10] (text_parts ps) | None \<Rightarrow> content m)"

definition history_of :: "message list \<Rightarrow> (ustr \<times> ustr) list" where
  "history_of ms =
     map (\<lambda>m. (role m, if content m \<noteq> [] then content m else messageText m))
       (filter (\<lambda>m. role m = js ''user'' \<or> role m = js ''model'') ms)"

definition userHeader :: "chat_env \<Rightarrow> ustr" where
  "userHeader env =
     (let fullName = trim (trim (firstName env) @ js '' '' @ trim (lastName env))
      in if fullName \<noteq> [] then js ''User: '' @ fullName @ js '' (@'' @ username env @ js '')''
         else js ''User: @'' @ username env)"

text \<open>The variables of the streaming loop, with the message list it rewrites.\<close>

record loop_state =
  fullContent :: ustr
  groundingData :: "json option"
  structuredParts :: "part list option"
  shown :: "message list"
  aborted :: bool
  thrown :: "ustr option"

fun process_chunk :: "ustr \<Rightarrow> chunk \<Rightarrow> loop_state \<Rightarrow> loop_state" where
  "process_chunk aid (TextChunk t) s =
     s\<lparr> fullContent := fullContent s @ t,
        shown := update_msgs aid (\<lambda>m. m\<lparr> content := fullContent s @ t \<rparr>) (shown s) \<rparr>"
| "process_chunk aid (FullResponse ps) s =
     s\<lparr> structuredParts := Some ps,
        shown := update_msgs aid (\<lambda>m. m\<lparr> content := [], parts := Some ps \<rparr>) (shown s) \<rparr>"
| "process_chunk aid (Grounding d) s = s\<lparr> groundingData := Some d \<rparr>"
| "process_chunk aid OtherChunk s = s"

text \<open>\<^verbatim>\<open>for await (const chunk of streamChat(...)) { if (abortRef.current) break; ... }\<close>:
  the flag is read when a chunk arrives; a failure of the generator leaves the loop for the
  \<^verbatim>\<open>catch\<close> block.\<close>

fun stream_loop :: "ustr \<Rightarrow> stream_event list \<Rightarrow> loop_state \<Rightarrow> loop_state" where
  "stream_loop aid [] s = s"
| "stream_loop aid (StopPressed # es) s = stream_loop aid es (s\<lparr> aborted := True \<rparr>)"
| "stream_loop aid (StreamThrows m # es) s = s\<lparr> thrown := Some m \<rparr>"
| "stream_loop aid (Chunk c # es) s =
     (if aborted s then s else stream_loop aid es (process_chunk aid c s))"

text \<open>\<^verbatim>\<open>text.replace(/^\s*generateimage\s*:/i, '')\<close>.\<close>

definition strip_generateimage :: "ustr \<Rightarrow> ustr" where
  "strip_generateimage t =
     (case rx_match (seqs [Start, Star SpaceC, Lit ''generateimage'', Star SpaceC, Lit '':''])
             (None, t) of
        [] \<Rightarrow> t
      | p # ps \<Rightarrow> snd p)"

text \<open>The branch of the \<^verbatim>\<open>generateImage\<close> tool.\<close>

definition send_image ::
  "chat_env \<Rightarrow> ustr \<Rightarrow> ustr \<Rightarrow> image list \<Rightarrow> chat_state \<Rightarrow> chat_state \<times> call list" where
  "send_image env sessionId t capturedImages st =
     (let assistantId = js ''a-'' @ show_nat (clock_assistant env);
          ms = messages st @ [blank_reply assistantId (iso_assistant env)];
          prompt = (let p = trim (strip_generateimage t)
                    in if p = [] then js ''Generate an image.'' else p);
          anchor = (case capturedImages of [] \<Rightarrow> None | i # is \<Rightarrow> Some (img_data i, mimeType i))
      in case generateImageTool env prompt anchor of
           Inr out \<Rightarrow>
             (let modelImages = [\<lparr> img_data = snd out, mimeType = fst out,
                                   img_name = js ''generated-image'' \<rparr>];
                  reply = js ''Generated image for: '' @ [34] @ prompt @ [34]
              in (st\<lparr> messages := update_msgs assistantId
                                     (\<lambda>m. m\<lparr> content := reply, msg_images := Some modelImages \<rparr>) ms,
                      streaming := False \<rparr>,
                  [GenerateImage prompt anchor,
                   SaveMessage sessionId (js ''model'') reply (Some modelImages) None None]))
         | Inl msg \<Rightarrow>
             (let errText = js ''Error: '' @ (if msg = [] then js ''Image generation failed'' else msg)
              in (st\<lparr> messages := update_msgs assistantId (\<lambda>m. m\<lparr> content := errText \<rparr>) ms,
                      streaming := False \<rparr>,
                  [GenerateImage prompt anchor,
                   SaveMessage sessionId (js ''model'') errText None None None])))"

text \<open>The branch of the JSON tools on the loaded channel JSON.\<close>

definition send_json_tool ::
  "chat_env \<Rightarrow> ustr \<Rightarrow> ustr \<Rightarrow> json \<Rightarrow> chat_state \<Rightarrow> chat_state \<times> call list" where
  "send_json_tool env sessionId t cj st =
     (let assistantId = js ''a-'' @ show_nat (clock_assistant env);
          ms = messages st @ [blank_reply assistantId (iso_assistant env)];
          tool = (if wantsMetricPlot t then MetricPlot
                  else if wantsStatsJson t then StatsJson else PlayVideo)
      in case json_tool_reply env tool t cj of
           Inr reply \<Rightarrow>
             (let contentText = fst reply;
                  cs = some_if_any (fst (snd reply));
                  tcs = some_if_any (snd (snd reply))
              in (st\<lparr> messages := update_msgs assistantId
                                     (\<lambda>m. m\<lparr> content := contentText, charts := cs, toolCalls := tcs \<rparr>) ms,
                      streaming := False \<rparr>,
                  [JsonTool tool t cj,
                   SaveMessage sessionId (js ''model'') contentText None cs tcs]))
         | Inl msg \<Rightarrow>
             (let errText = js ''Error: '' @ (if msg = [] then js ''Tool failed'' else msg)
              in (st\<lparr> messages := update_msgs assistantId (\<lambda>m. m\<lparr> content := errText \<rparr>) ms,
                      streaming := False \<rparr>,
                  [JsonTool tool t cj,
                   SaveMessage sessionId (js ''model'') errText None None None])))"

text \<open>The end of the last branch, after the \<^verbatim>\<open>try\<close> block: the \<^verbatim>\<open>catch\<close> block when
  something was thrown, the grounding, the text to persist, and the final state.\<close>

definition settle_reply ::
  "ustr \<Rightarrow> ustr \<Rightarrow> chat_state \<Rightarrow> call \<Rightarrow> json list \<Rightarrow> json list \<Rightarrow> loop_state
     \<Rightarrow> chat_state \<times> call list" where
  "settle_reply sessionId assistantId st request toolCharts toolCallLog outcome =
     (let caught =
            (case thrown outcome of
               None \<Rightarrow> outcome
             | Some msg \<Rightarrow>
                 outcome\<lparr> fullContent := js ''Error: '' @ msg,
                      shown := update_msgs assistantId
                                 (\<lambda>m. m\<lparr> content := js ''Error: '' @ msg \<rparr>) (shown outcome) \<rparr>);
          grounded =
            (if truthy_opt (groundingData caught)
             then update_msgs assistantId (\<lambda>m. m\<lparr> grounding := groundingData caught \<rparr>) (shown caught)
             else shown caught);
          savedContent =
            (case structuredParts caught of
               Some ps \<Rightarrow> join [10] (text_parts ps)
             | None \<Rightarrow> fullContent caught)
      in (st\<lparr> messages := grounded,
              abortRef := aborted caught,
              sessions := map (\<lambda>s. if session_id s = sessionId
                                     then s\<lparr> messageCount := messageCount s + 2 \<rparr> else s)
                            (sessions st),
              streaming := False \<rparr>,
          [request,
           SaveMessage sessionId (js ''model'') savedContent None
             (some_if_any toolCharts) (some_if_any toolCallLog)]))"

text \<open>The last branch: the model call, with the client tools or as a stream. \<open>st0\<close> is
  the state the handler was called in (its flags choose the mode, its messages are the
  history), \<open>st\<close> the state with the user message added.\<close>

definition send_model ::
  "chat_env \<Rightarrow> ustr \<Rightarrow> ustr \<Rightarrow> image list \<Rightarrow> chat_state \<Rightarrow> chat_state \<Rightarrow> chat_state \<times> call list" where
  "send_model env sessionId t capturedImages st0 st =
     (let imageParts = map (\<lambda>i. (mimeType i, img_data i)) capturedImages;
          hist = (js ''user'', userHeader env) # history_of (messages st0);
          prompt = promptForGemini st0 t;
          assistantId = js ''a-'' @ show_nat (clock_assistant env);
          ms = messages st @ [blank_reply assistantId (iso_assistant env)];
          start = \<lparr> fullContent = [], groundingData = None, structuredParts = None, shown = ms,
                    aborted = False, thrown = None \<rparr>
      in if useTools st0 t
         then (case chatWithCsvTools env hist prompt (sessionCsvHeaders st0)
                      (case sessionCsvRows st0 of None \<Rightarrow> [] | Some rows \<Rightarrow> rows) of
                 Inr r \<Rightarrow>
                   settle_reply sessionId assistantId st
                     (ChatWithCsvTools hist prompt (sessionCsvHeaders st0))
                     (fst (snd r)) (snd (snd r))
                     (start\<lparr> fullContent := fst r,
                             shown := update_msgs assistantId
                                        (\<lambda>m. m\<lparr> content := fst r,
                                                 charts := some_if_any (fst (snd r)),
                                                 toolCalls := some_if_any (snd (snd r)) \<rparr>) ms \<rparr>)
               | Inl msg \<Rightarrow>
                   settle_reply sessionId assistantId st
                     (ChatWithCsvTools hist prompt (sessionCsvHeaders st0)) [] []
                     (start\<lparr> thrown := Some msg \<rparr>))
         else settle_reply sessionId assistantId st
                (StreamChat hist prompt imageParts (useCodeExecution st0 t)) [] []
                (stream_loop assistantId
                   (streamChat env hist prompt imageParts (useCodeExecution st0 t)) start))"

text \<open>\<^verbatim>\<open>handleSend\<close>: the new state and the calls made, in order.\<close>

definition handleSend :: "chat_env \<Rightarrow> chat_state \<Rightarrow> chat_state \<times> call list" where
  "handleSend env st =
     (let t = trim (input st)
      in if send_blocked st then (st, [])
         else
           (let isNew = (activeSessionId st = Some (js ''new''));
                sessionId =
                  (if isNew then createSession env (username env) (js ''lisa'') (chatTitle env)
                   else (case activeSessionId st of None \<Rightarrow> [] | Some sid \<Rightarrow> sid));
                st1 =
                  (if isNew
                   then st\<lparr> justCreatedSessionRef := True,
                            activeSessionId := Some sessionId,
                            sessions := \<lparr> session_id = sessionId, agent = js ''lisa'',
                                          title = chatTitle env, createdAt = iso_session env,
                                          messageCount = 0 \<rparr> # sessions st \<rparr>
                   else st);
                created =
                  (if isNew then [CreateSession (username env) (js ''lisa'') (chatTitle env)] else []);
                capturedImages = images st;
                userMsg =
                  \<lparr> msg_id = Some (js ''u-'' @ show_nat (clock_user env)), role = js ''user'',
                    content = userContent st t, timestamp = iso_user env,
                    msg_images = Some capturedImages,
                    csvName = (case csvContext st of
                                 None \<Rightarrow> None
                               | Some c \<Rightarrow> if csv_name c = [] then None else Some (csv_name c)),
                    charts = None, toolCalls = None, parts = None, grounding = None \<rparr>;
                st2 = st1\<lparr> messages := messages st1 @ [userMsg], input := [], images := [],
                           csvContext := None, jsonContext := None, streaming := True \<rparr>;
                saved = [SaveMessage sessionId (js ''user'') (userContent st t)
                           (some_if_any capturedImages) None None];
                branch =
                  (if wantsGenerateImage t then send_image env sessionId t capturedImages st2
                   else if truthy_opt (channelJson st)
                           \<and> (wantsMetricPlot t \<or> wantsStatsJson t \<or> wantsPlayVideo t)
                   then send_json_tool env sessionId t
                          (case channelJson st of None \<Rightarrow> JNull | Some cj \<Rightarrow> cj) st2
                   else send_model env sessionId t capturedImages st st2)
            in (fst branch, created @ saved @ snd branch)))"

text \<open>The parts of \<^verbatim>\<open>handleSend\<close> before its branches, by name: the session the message
  goes to, the state with the user message added, and the calls made so far.\<close>

definition send_session :: "chat_env \<Rightarrow> chat_state \<Rightarrow> ustr" where
  "send_session env st =
     (if activeSessionId st = Some (js ''new'')
      then createSession env (username env) (js ''lisa'') (chatTitle env)
      else (case activeSessionId st of None \<Rightarrow> [] | Some sid \<Rightarrow> sid))"

definition opening_calls :: "chat_env \<Rightarrow> chat_state \<Rightarrow> call list" where
  "opening_calls env st =
     (if activeSessionId st = Some (js ''new'')
      then [CreateSession (username env) (js ''lisa'') (chatTitle env)] else [])
     @ [SaveMessage (send_session env st) (js ''user'') (userContent st (trim (input st)))
          (some_if_any (images st)) None None]"

definition with_user_message :: "chat_env \<Rightarrow> chat_state \<Rightarrow> chat_state" where
  "with_user_message env st =
     (let st1 =
            (if activeSessionId st = Some (js ''new'')
             then st\<lparr> justCreatedSessionRef := True,
                      activeSessionId := Some (send_session env st),
                      sessions := \<lparr> session_id = send_session env st, agent = js ''lisa'',
                                    title = chatTitle env, createdAt = iso_session env,
                                    messageCount = 0 \<rparr> # sessions st \<rparr>
             else st)
      in st1\<lparr> messages := messages st1 @
                 [\<lparr> msg_id = Some (js ''u-'' @ show_nat (clock_user env)), role = js ''user'',
                    content = userContent st (trim (input st)), timestamp = iso_user env,
                    msg_images = Some (images st),
                    csvName = (case csvContext st of
                                 None \<Rightarrow> None
                               | Some c \<Rightarrow> if csv_name c = [] then None else Some (csv_name c)),
                    charts = None, toolCalls = None, parts = None, grounding = None \<rparr>],
              input := [], images := [], csvContext := None, jsonContext := None,
              streaming := True \<rparr>)"

text \<open>The calls that ask a tool or the model for the reply (all but the persistence
  calls), and the persistence calls of the user message.\<close>

fun is_request :: "call \<Rightarrow> bool" where
  "is_request (CreateSession u a t) = False"
| "is_request (SaveMessage s r t i c tc) = False"
| "is_request (GenerateImage p a) = True"
| "is_request (JsonTool k t cj) = True"
| "is_request (ChatWithCsvTools h p hs) = True"
| "is_request (StreamChat h p i c) = True"


section \<open>Sample inputs\<close>

text \<open>Collaborators for the examples: a parser that reads the two texts \<^verbatim>\<open>[]\<close> and
  \<^verbatim>\<open>{}\<close> and rejects every other text (as \<^verbatim>\<open>JSON.parse\<close> rejects \<^verbatim>\<open>{\<close>), and a model that
  streams \<^verbatim>\<open>Hel\<close> and \<^verbatim>\<open>lo\<close> with a press of Stop between the two chunks.\<close>

definition sample_env :: chat_env where
  "sample_env =
     \<lparr> username = js ''ada'', firstName = js ''Ada'', lastName = [],
       json_parse = (\<lambda>t. if t = js ''[]'' then Inr (JArr [])
                          else if t = js ''{}'' then Inr (JObj [])
                          else Inl (js ''Unexpected end of JSON input'')),
       summarizeChannelJson = (\<lambda>j. js ''**YouTube channel JSON loaded**''),
       parseCsvToRows = (\<lambda>t. ([], [])),
       enrichWithEngagement = (\<lambda>rows hs. (rows, hs)),
       computeDatasetSummary = (\<lambda>rows hs. js ''2 columns''),
       buildSlimCsv = (\<lambda>rows hs. []),
       chatTitle = js ''Chat'',
       createSession = (\<lambda>u a t. js ''s1''),
       iso_session = js ''2024-01-01T00:00:00.000Z'',
       clock_user = 1000,
       iso_user = js ''2024-01-01T00:00:01.000Z'',
       clock_assistant = 1001,
       iso_assistant = js ''2024-01-01T00:00:01.001Z'',
       generateImageTool = (\<lambda>p a. Inl (js ''No image was returned by the model.'')),
       json_tool_reply = (\<lambda>k t cj. Inl []),
       chatWithCsvTools = (\<lambda>h p hs rows. Inr ([], [], [])),
       streamChat = (\<lambda>h p i c. [Chunk (TextChunk (js ''Hel'')), StopPressed,
                                  Chunk (TextChunk (js ''lo''))]) \<rparr>"

definition idle_state :: chat_state where
  "idle_state =
     \<lparr> sessions = [], activeSessionId = Some (js ''s0''), messages = [], input = [],
       images = [], csvContext = None, jsonContext = None, channelJson = None,
       channelJsonSummary = [], jsonError = [], sessionCsvRows = None,
       sessionCsvHeaders = None, csvDataSummary = None, sessionSlimCsv = None,
       streaming = False, dragOver = False, abortRef = False,
       justCreatedSessionRef = False \<rparr>"

definition sample_csv :: attached_file where
  "sample_csv =
     \<lparr> file_name = js ''a.csv'', file_type = js ''text/csv'',
       file_text = js ''a,b'' @ [10] @ js ''1,2'', file_base64 = js ''YSxiCjEsMg=='' \<rparr>"

definition broken_json :: attached_file where
  "broken_json =
     \<lparr> file_name = js ''bad.json'', file_type = js ''application/json'',
       file_text = js ''{'', file_base64 = js ''ew=='' \<rparr>"

text \<open>The state with another text in the base64 field of its CSV context.\<close>

definition with_base64 :: "ustr \<Rightarrow> chat_state \<Rightarrow> chat_state" where
  "with_base64 b st = st\<lparr> csvContext := map_option (\<lambda>c. c\<lparr> base64 := b \<rparr>) (csvContext st) \<rparr>"


definition stream_events :: "chat_env \<Rightarrow> chat_state \<Rightarrow> stream_event list" where
  "stream_events env st =
     streamChat env ((js ''user'', userHeader env) # history_of (messages st))
       (promptForGemini st (trim (input st)))
       (map (\<lambda>i. (mimeType i, img_data i)) (images st))
       (useCodeExecution st (trim (input st)))"



text \<open>The parts of the streaming send, by name: the id of the reply, the request, and the
  variables of the loop when it starts.\<close>

definition assistantId_of :: "chat_env \<Rightarrow> ustr" where
  "assistantId_of env = js ''a-'' @ show_nat (clock_assistant env)"

definition stream_request :: "chat_env \<Rightarrow> chat_state \<Rightarrow> call" where
  "stream_request env st =
     StreamChat ((js ''user'', userHeader env) # history_of (messages st))
       (promptForGemini st (trim (input st)))
       (map (\<lambda>i. (mimeType i, img_data i)) (images st))
       (useCodeExecution st (trim (input st)))"

definition stream_start :: "chat_env \<Rightarrow> chat_state \<Rightarrow> loop_state" where
  "stream_start env st =
     \<lparr> fullContent = [], groundingData = None, structuredParts = None,
       shown = messages (with_user_message env st)
                 @ [blank_reply (assistantId_of env) (iso_assistant env)],
       aborted = False, thrown = None \<rparr>"



section \<open>Double arithmetic\<close>

text \<open>
  The finite doubles are the rationals \<open>m * 2 ^ e\<close> with a mantissa \<open>m\<close> of at most 53
  bits and an exponent \<open>e\<close> from \<open>-1074\<close> to \<open>971\<close>.
\<close>

definition is_double :: "rat \<Rightarrow> bool" where
  "is_double x = (\<exists>m e. x = of_int m * 2 powi e \<and> \<bar>m\<bar> < 2 ^ 53 \<and> - 1074 \<le> e \<and> e \<le> 971)"

text \<open>A number is a double: a special value, or a finite double.\<close>

fun num_ok :: "jsnum \<Rightarrow> bool" where
  "num_ok (Fin x) = is_double x"
| "num_ok n = True"

text \<open>The binary exponent of a positive rational: the largest \<open>k\<close> with \<open>2 ^ k\<close> at
  most \<open>x\<close>.\<close>

definition ilog2 :: "rat \<Rightarrow> int" where
  "ilog2 x =
     (let k = bitlen (fst (quotient_of x)) - bitlen (snd (quotient_of x))
      in if 2 powi k \<le> x then k else k - 1)"

text \<open>Rounding to the nearest integer, a tie to the even one.\<close>

definition round_half_even :: "rat \<Rightarrow> int" where
  "round_half_even q =
     (let f = \<lfloor>q\<rfloor>; d = q - of_int f
      in if d < 1 / 2 then f
         else if 1 / 2 < d then f + 1
         else if even f then f else f + 1)"

text \<open>
  Rounding a rational to a double, to nearest with ties to even: the spacing of the
  doubles around \<open>x\<close> is \<open>2 ^ e\<close> for \<open>e\<close> the exponent of \<open>x\<close> less 52, and no finer than
  \<open>2 ^ - 1074\<close>; a result of magnitude \<open>2 ^ 1024\<close> or more is an infinity.
\<close>

definition rnd :: "rat \<Rightarrow> jsnum" where
  "rnd x =
     (if x = 0 then Fin 0
      else (let e = max (ilog2 \<bar>x\<bar> - 52) (- 1074);
                y = of_int (round_half_even (x / 2 powi e)) * 2 powi e
            in if 2 ^ 1024 \<le> y then PInf
               else if y \<le> - (2 ^ 1024) then NInf
               else Fin y))"

text \<open>The order of \<^verbatim>\<open><\<close> and \<^verbatim>\<open><=\<close> on numbers: every comparison with NaN is false.\<close>

fun num_le :: "jsnum \<Rightarrow> jsnum \<Rightarrow> bool" where
  "num_le NaN b = False"
| "num_le a NaN = False"
| "num_le NInf b = True"
| "num_le a PInf = True"
| "num_le (Fin x) (Fin y) = (x \<le> y)"
| "num_le a b = False"

fun num_less :: "jsnum \<Rightarrow> jsnum \<Rightarrow> bool" where
  "num_less NaN b = False"
| "num_less a NaN = False"
| "num_less NInf NInf = False"
| "num_less NInf b = True"
| "num_less PInf b = False"
| "num_less a PInf = True"
| "num_less (Fin x) (Fin y) = (x < y)"
| "num_less a NInf = False"

text \<open>Addition, subtraction and division. A division by zero takes the zero as positive;
  the functions below divide by a count of at least one and by two.\<close>

fun fadd :: "jsnum \<Rightarrow> jsnum \<Rightarrow> jsnum" where
  "fadd NaN b = NaN"
| "fadd a NaN = NaN"
| "fadd PInf NInf = NaN"
| "fadd NInf PInf = NaN"
| "fadd PInf b = PInf"
| "fadd NInf b = NInf"
| "fadd a PInf = PInf"
| "fadd a NInf = NInf"
| "fadd (Fin x) (Fin y) = rnd (x + y)"

fun fneg :: "jsnum \<Rightarrow> jsnum" where
  "fneg NaN = NaN"
| "fneg PInf = NInf"
| "fneg NInf = PInf"
| "fneg (Fin x) = Fin (- x)"

definition fsub :: "jsnum \<Rightarrow> jsnum \<Rightarrow> jsnum" where
  "fsub a b = fadd a (fneg b)"

fun fdiv :: "jsnum \<Rightarrow> jsnum \<Rightarrow> jsnum" where
  "fdiv NaN b = NaN"
| "fdiv a NaN = NaN"
| "fdiv (Fin x) (Fin y) =
     (if y = 0 then (if x = 0 then NaN else if 0 < x then PInf else NInf) else rnd (x / y))"
| "fdiv (Fin x) b = Fin 0"
| "fdiv PInf (Fin y) = (if 0 \<le> y then PInf else NInf)"
| "fdiv NInf (Fin y) = (if 0 \<le> y then NInf else PInf)"
| "fdiv a b = NaN"

section \<open>The JSON tools (\<^verbatim>\<open>jsonTools.js\<close>)\<close>

text \<open>
  The built-ins the tools call, as functions: the conversion of a string to a number
  (the result for NaN is \<^term>\<open>NaN\<close>), the operators \<^verbatim>\<open>x ** 2\<close> and \<^verbatim>\<open>Math.sqrt\<close>, which
  the language leaves to the implementation to approximate, the time value of
  \<^verbatim>\<open>new Date(v)\<close> for a value that converts to a primitive (\<^term>\<open>None\<close> for an invalid
  date), the text of \<^verbatim>\<open>toISOString\<close>, and the members a value inherits from its
  prototype. An inherited member is a function, or the prototype itself under
  \<^verbatim>\<open>__proto__\<close>: it is never null or undefined and \<^verbatim>\<open>Number\<close> converts it without a
  throw, so the model keeps the number \<^verbatim>\<open>Number\<close> makes of it (\<^term>\<open>None\<close> when the
  value inherits no member of that name).
\<close>

record builtins =
  number_of_string :: "ustr \<Rightarrow> jsnum"
  square :: "jsnum \<Rightarrow> jsnum"
  sqrt_num :: "jsnum \<Rightarrow> jsnum"
  date_of :: "json \<Rightarrow> int option"
  iso_of :: "int \<Rightarrow> ustr"
  inherited :: "json \<Rightarrow> ustr \<Rightarrow> jsnum option"

text \<open>
  The conversion of a value to a primitive throws a TypeError when neither \<^verbatim>\<open>valueOf\<close>
  nor \<^verbatim>\<open>toString\<close> gives one. For a value of \<^verbatim>\<open>JSON.parse\<close>: an object throws when it
  has a member \<^verbatim>\<open>toString\<close> of its own (no member of such an object is a function, and
  the inherited \<^verbatim>\<open>valueOf\<close> returns the object); an array, whose text joins the texts of
  its elements, throws when an element does.
\<close>

fun unprintable :: "json \<Rightarrow> bool" where
  "unprintable (JObj kvs) = (jprop (JObj kvs) (js ''toString'') \<noteq> None)"
| "unprintable (JArr xs) = list_ex unprintable xs"
| "unprintable v = False"

text \<open>
  The number of a value that converts to a primitive. An array converts through its
  text: the empty array and the array of one null as the empty string, an array of one
  element as that element's text (a number reads back as itself), and an array of two or
  more elements, whose text has a comma, as NaN. An object converts as NaN.
\<close>

fun printed_number :: "builtins \<Rightarrow> json \<Rightarrow> jsnum" where
  "printed_number env JNull = Fin 0"
| "printed_number env (JBool b) = (if b then Fin 1 else Fin 0)"
| "printed_number env (JNum n) = n"
| "printed_number env (JStr s) = number_of_string env s"
| "printed_number env (JObj kvs) = NaN"
| "printed_number env (JArr []) = number_of_string env []"
| "printed_number env (JArr [JNull]) = number_of_string env []"
| "printed_number env (JArr [JBool b]) = NaN"
| "printed_number env (JArr [JNum n]) = n"
| "printed_number env (JArr [JStr s]) = number_of_string env s"
| "printed_number env (JArr [JObj kvs]) = NaN"
| "printed_number env (JArr [JArr xs]) = printed_number env (JArr xs)"
| "printed_number env (JArr (x # y # zs)) = NaN"

definition to_number :: "builtins \<Rightarrow> json \<Rightarrow> js_error + jsnum" where
  "to_number env j = (if unprintable j then Inl TypeError else Inr (printed_number env j))"

text \<open>What a read under a caller's key finds: a value of the JSON, or an inherited
  member, as the number \<^verbatim>\<open>Number\<close> makes of it.\<close>

datatype jsval = Value json | Inherited jsnum

text \<open>\<^verbatim>\<open>Number(raw)\<close>; \<^term>\<open>None\<close> is \<^verbatim>\<open>undefined\<close>.\<close>

definition Number :: "builtins \<Rightarrow> jsval option \<Rightarrow> js_error + jsnum" where
  "Number env raw =
     (case raw of
        None \<Rightarrow> Inr NaN
      | Some (Inherited n) \<Rightarrow> Inr n
      | Some (Value j) \<Rightarrow> to_number env j)"

text \<open>\<^verbatim>\<open>v[k]\<close> for a \<^verbatim>\<open>v\<close> that is not null: a member of its own, else an inherited one.\<close>

definition member :: "builtins \<Rightarrow> json \<Rightarrow> ustr \<Rightarrow> jsval option" where
  "member env v k =
     (case jprop v k of
        Some j \<Rightarrow> Some (Value j)
      | None \<Rightarrow> map_option Inherited (inherited env v k))"

text \<open>\<^verbatim>\<open>s?.[k]\<close>.\<close>

definition opt_member :: "builtins \<Rightarrow> json option \<Rightarrow> ustr \<Rightarrow> jsval option" where
  "opt_member env s k =
     (case s of None \<Rightarrow> None | Some j \<Rightarrow> if j = JNull then None else member env j k)"

text \<open>\<^verbatim>\<open>a ?? b\<close> on what a read finds.\<close>

definition coalesce_val :: "jsval option \<Rightarrow> jsval option \<Rightarrow> jsval option" where
  "coalesce_val a b = (if a = None \<or> a = Some (Value JNull) then b else a)"

text \<open>\<^verbatim>\<open>getVideos\<close>: the array under \<^verbatim>\<open>videos\<close>, else the array under \<^verbatim>\<open>items\<close>, else
  nothing.\<close>

definition getVideos :: "json option \<Rightarrow> json list" where
  "getVideos cj =
     (if \<not> truthy_opt cj then []
      else (case opt_prop cj (js ''videos'') of
              Some (JArr xs) \<Rightarrow> xs
            | _ \<Rightarrow> (case opt_prop cj (js ''items'') of
                      Some (JArr ys) \<Rightarrow> ys
                    | _ \<Rightarrow> [])))"

text \<open>
  The value both tools read from a video for a key; the first read throws when the entry
  is null. The reads under the caller's key find inherited members too; the reads under
  the names the tools fix (\<^verbatim>\<open>statistics\<close>, \<^verbatim>\<open>view_count\<close>, \<^verbatim>\<open>viewCount\<close>, and the
  names of the date and the title below) find the members of the JSON only, no prototype
  having a member of such a name.
\<close>

definition raw_value :: "builtins \<Rightarrow> json \<Rightarrow> ustr \<Rightarrow> js_error + jsval option" where
  "raw_value env v key =
     (if v = JNull then Inl TypeError
      else Inr (coalesce_val (member env v key)
                 (coalesce_val (member env v (key @ js ''_count''))
                   (coalesce_val (opt_member env (jprop v (js ''statistics'')) key)
                     (coalesce_val
                        (opt_member env (jprop v (js ''statistics'')) (key @ js ''_count''))
                        (if key = js ''view_count''
                         then map_option Value
                                (or_else (jprop v (js ''view_count''))
                                   (opt_prop (jprop v (js ''statistics'')) (js ''viewCount'')))
                         else None))))))"

text \<open>\<^verbatim>\<open>xs.map(f)\<close> for an \<^verbatim>\<open>f\<close> that can throw: the first throw ends the map.\<close>

fun map_throwing :: "('a \<Rightarrow> js_error + 'b) \<Rightarrow> 'a list \<Rightarrow> js_error + 'b list" where
  "map_throwing f [] = Inr []"
| "map_throwing f (x # xs) =
     (case f x of
        Inl e \<Rightarrow> Inl e
      | Inr y \<Rightarrow> (case map_throwing f xs of Inl e \<Rightarrow> Inl e | Inr ys \<Rightarrow> Inr (y # ys)))"

text \<open>\<^verbatim>\<open>xs.sort(cmp)\<close> for a consistent comparator: the stable insertion sort, an element
  going before the first one it does not compare greater than.\<close>

fun insert_by :: "('a \<Rightarrow> 'a \<Rightarrow> int) \<Rightarrow> 'a \<Rightarrow> 'a list \<Rightarrow> 'a list" where
  "insert_by cmp x [] = [x]"
| "insert_by cmp x (y # ys) = (if cmp x y \<le> 0 then x # y # ys else y # insert_by cmp x ys)"

definition sort_by :: "('a \<Rightarrow> 'a \<Rightarrow> int) \<Rightarrow> 'a list \<Rightarrow> 'a list" where
  "sort_by cmp xs = foldr (insert_by cmp) xs []"

text \<open>What a tool returns: the error marker \<^verbatim>\<open>{ error: message }\<close>, or its result.\<close>

datatype 'a tool_result = ToolError ustr | ToolOk 'a

text \<open>\<^verbatim>\<open>${field}\<close> in a message: the text of the argument, which may be undefined.\<close>

definition shown_arg :: "ustr option \<Rightarrow> ustr" where
  "shown_arg a = (case a of None \<Rightarrow> js ''undefined'' | Some s \<Rightarrow> s)"

definition key_of :: "ustr option \<Rightarrow> ustr" where
  "key_of a = (case a of None \<Rightarrow> js ''view_count'' | Some s \<Rightarrow> if s = [] then js ''view_count'' else s)"

subsection \<open>\<^verbatim>\<open>computeStatsJsonTool\<close>\<close>

text \<open>The comparator \<^verbatim>\<open>(a, b) => a - b\<close>, as the sort reads its result (NaN as zero).\<close>

definition num_cmp :: "jsnum \<Rightarrow> jsnum \<Rightarrow> int" where
  "num_cmp a b =
     (case fsub a b of
        NaN \<Rightarrow> 0
      | NInf \<Rightarrow> - 1
      | PInf \<Rightarrow> 1
      | Fin d \<Rightarrow> if d < 0 then - 1 else if 0 < d then 1 else 0)"

text \<open>The numeric value of one video: \<^term>\<open>None\<close> when \<^verbatim>\<open>Number(raw)\<close> is NaN.\<close>

definition numeric_value :: "builtins \<Rightarrow> ustr \<Rightarrow> json \<Rightarrow> js_error + jsnum option" where
  "numeric_value env key v =
     (case raw_value env v key of
        Inl e \<Rightarrow> Inl e
      | Inr raw \<Rightarrow>
          (case Number env raw of
             Inl e \<Rightarrow> Inl e
           | Inr n \<Rightarrow> Inr (if n = NaN then None else Some n)))"

fun somes :: "'a option list \<Rightarrow> 'a list" where
  "somes [] = []"
| "somes (None # xs) = somes xs"
| "somes (Some x # xs) = x # somes xs"

record stats =
  stat_field :: "ustr option"
  count :: nat
  mean :: jsnum
  median :: jsnum
  std :: jsnum
  minimum :: jsnum
  maximum :: jsnum

text \<open>The sum of the two middle values of the sorted list, for a list of even length.\<close>

definition middle_sum :: "jsnum list \<Rightarrow> jsnum" where
  "middle_sum vals =
     fadd (sort_by num_cmp vals ! (length vals div 2 - 1)) (sort_by num_cmp vals ! (length vals div 2))"

definition stats_of :: "builtins \<Rightarrow> ustr option \<Rightarrow> jsnum list \<Rightarrow> stats" where
  "stats_of env field vals =
     (let sorted_vals = sort_by num_cmp vals;
          n = length vals;
          total = foldl fadd (Fin 0) vals;
          avg = fdiv total (Fin (of_nat n));
          mid = (if n mod 2 = 0
                 then fdiv (middle_sum vals) (Fin 2)
                 else sorted_vals ! ((n - 1) div 2));
          variance = fdiv (foldl (\<lambda>a b. fadd a (square env (fsub b avg))) (Fin 0) vals)
                       (Fin (of_nat n))
      in \<lparr> stat_field = field, count = n, mean = avg, median = mid, std = sqrt_num env variance,
           minimum = sorted_vals ! 0, maximum = sorted_vals ! (length sorted_vals - 1) \<rparr>)"

definition computeStatsJsonTool ::
  "builtins \<Rightarrow> json option \<Rightarrow> ustr option \<Rightarrow> js_error + stats tool_result" where
  "computeStatsJsonTool env cj field =
     (let vids = getVideos cj
      in if vids = []
         then Inr (ToolError (js ''No videos loaded. Please attach a YouTube channel JSON file first.''))
         else (case map_throwing (numeric_value env (key_of field)) vids of
                 Inl e \<Rightarrow> Inl e
               | Inr ns \<Rightarrow>
                   if somes ns = []
                   then Inr (ToolError (js ''No numeric values found for field '' @ [34]
                                          @ shown_arg field @ [34] @ js ''.''))
                   else Inr (ToolOk (stats_of env field (somes ns)))))"

text \<open>The numeric values the tool collects for a field.\<close>

definition numeric_values :: "builtins \<Rightarrow> json option \<Rightarrow> ustr option \<Rightarrow> jsnum list" where
  "numeric_values env cj field =
     (case map_throwing (numeric_value env (key_of field)) (getVideos cj) of
        Inl e \<Rightarrow> []
      | Inr ns \<Rightarrow> somes ns)"

text \<open>
  Three properties of a video and a key. The value the tool reads converts to a number
  that is not NaN. The value the tool reads does not convert at all. The video holds a
  number under the key itself.
\<close>

definition has_metric :: "builtins \<Rightarrow> ustr \<Rightarrow> json \<Rightarrow> bool" where
  "has_metric env key v =
     (case raw_value env v key of
        Inl e \<Rightarrow> False
      | Inr raw \<Rightarrow> (case Number env raw of Inl e \<Rightarrow> False | Inr n \<Rightarrow> n \<noteq> NaN))"

definition unconvertible :: "builtins \<Rightarrow> ustr \<Rightarrow> json \<Rightarrow> bool" where
  "unconvertible env key v =
     (case raw_value env v key of
        Inr (Some (Value j)) \<Rightarrow> unprintable j
      | _ \<Rightarrow> False)"

definition holds_number :: "ustr \<Rightarrow> json \<Rightarrow> bool" where
  "holds_number key v = (case jprop v key of Some (JNum n) \<Rightarrow> n \<noteq> NaN | _ \<Rightarrow> False)"

fun is_fin :: "jsnum \<Rightarrow> bool" where
  "is_fin (Fin x) = True"
| "is_fin n = False"

text \<open>The sum of the values is exact: the values are finite, and no addition of the
  \<^verbatim>\<open>reduce\<close> rounds.\<close>

fun fin_val :: "jsnum \<Rightarrow> rat" where
  "fin_val (Fin x) = x"
| "fin_val n = 0"

definition exact_sum :: "jsnum list \<Rightarrow> bool" where
  "exact_sum vals =
     (list_all is_fin vals \<and> foldl fadd (Fin 0) vals = Fin (sum_list (map fin_val vals)))"

subsection \<open>\<^verbatim>\<open>plotMetricVsTimeTool\<close>\<close>

record point =
  date :: ustr
  label :: json
  metric_value :: jsnum

text \<open>\<^verbatim>\<open>title.slice(0, 60)\<close>: of a string or of an array; any other value has no
  \<^verbatim>\<open>slice\<close>, and the call throws.\<close>

fun slice60 :: "json \<Rightarrow> js_error + json" where
  "slice60 (JStr s) = Inr (JStr (take 60 s))"
| "slice60 (JArr xs) = Inr (JArr (take 60 xs))"
| "slice60 v = Inl TypeError"

text \<open>\<^verbatim>\<open>v.published_at || v.publishedAt || v.snippet?.publishedAt\<close>.\<close>

definition raw_date :: "json \<Rightarrow> json option" where
  "raw_date v =
     or_else (jprop v (js ''published_at''))
       (or_else (jprop v (js ''publishedAt''))
          (opt_prop (jprop v (js ''snippet'')) (js ''publishedAt'')))"

text \<open>\<^verbatim>\<open>v.title || v.snippet?.title || ''\<close>.\<close>

definition raw_title :: "json \<Rightarrow> json" where
  "raw_title v =
     (case or_else (jprop v (js ''title''))
             (or_else (opt_prop (jprop v (js ''snippet'')) (js ''title'')) (Some (JStr []))) of
        None \<Rightarrow> JStr []
      | Some t \<Rightarrow> t)"

text \<open>\<^verbatim>\<open>new Date(rawDate)\<close>: the conversion of the value to a primitive can throw.\<close>

definition new_Date :: "builtins \<Rightarrow> json \<Rightarrow> js_error + int option" where
  "new_Date env rawDate = (if unprintable rawDate then Inl TypeError else Inr (date_of env rawDate))"

text \<open>\<^verbatim>\<open>rawDate ? new Date(rawDate) : null\<close>, as its time value: \<^term>\<open>None\<close> for
  \<^verbatim>\<open>null\<close> and for an invalid date, which the test after it treats alike.\<close>

definition date_value :: "builtins \<Rightarrow> json \<Rightarrow> js_error + int option" where
  "date_value env v =
     (case raw_date v of
        None \<Rightarrow> Inr None
      | Some rawDate \<Rightarrow> if truthy rawDate then new_Date env rawDate else Inr None)"

text \<open>
  The callback of the \<^verbatim>\<open>map\<close>: the point of one video, nothing (\<^verbatim>\<open>null\<close>) for a video
  without a date that parses or without a numeric value, or a throw. The statements run
  in the order of the source: the reads of the date and the title, the read of the value,
  \<^verbatim>\<open>Number(value)\<close>, \<^verbatim>\<open>new Date(rawDate)\<close> for a truthy \<^verbatim>\<open>rawDate\<close>, the test that
  returns \<^verbatim>\<open>null\<close>, and the point with \<^verbatim>\<open>title.slice(0, 60)\<close>.
\<close>

definition point_of :: "builtins \<Rightarrow> ustr \<Rightarrow> json \<Rightarrow> js_error + point option" where
  "point_of env key v =
     (if v = JNull then Inl TypeError
      else (case raw_value env v key of
              Inl e \<Rightarrow> Inl e
            | Inr raw \<Rightarrow>
                (case Number env raw of
                   Inl e \<Rightarrow> Inl e
                 | Inr n \<Rightarrow>
                     (case date_value env v of
                        Inl e \<Rightarrow> Inl e
                      | Inr d \<Rightarrow>
                          (case d of
                             None \<Rightarrow> Inr None
                           | Some ms \<Rightarrow>
                               if n = NaN then Inr None
                               else (case slice60 (raw_title v) of
                                       Inl e \<Rightarrow> Inl e
                                     | Inr l \<Rightarrow>
                                         Inr (Some \<lparr> date = take 10 (iso_of env ms), label = l,
                                                     metric_value = n \<rparr>)))))))"

text \<open>A video has a date that parses; the value of its date does not convert at all.\<close>

definition has_date :: "builtins \<Rightarrow> json \<Rightarrow> bool" where
  "has_date env v =
     (case raw_date v of
        None \<Rightarrow> False
      | Some rawDate \<Rightarrow> truthy rawDate \<and> \<not> unprintable rawDate \<and> date_of env rawDate \<noteq> None)"

definition date_unconvertible :: "json \<Rightarrow> bool" where
  "date_unconvertible v =
     (case raw_date v of None \<Rightarrow> False | Some rawDate \<Rightarrow> truthy rawDate \<and> unprintable rawDate)"

text \<open>The comparator of the sort: the dates as strings, by code units.\<close>

definition date_cmp :: "point \<Rightarrow> point \<Rightarrow> int" where
  "date_cmp a b = (if date a < date b then - 1 else if date b < date a then 1 else 0)"

record chart =
  chartType :: ustr
  chart_metric :: "ustr option"
  chart_data :: "point list"

definition plotMetricVsTimeTool ::
  "builtins \<Rightarrow> json option \<Rightarrow> ustr option \<Rightarrow> js_error + chart tool_result" where
  "plotMetricVsTimeTool env cj metric =
     (let vids = getVideos cj
      in if vids = []
         then Inr (ToolError (js ''No videos loaded. Please attach a YouTube channel JSON file first.''))
         else (case map_throwing (point_of env (key_of metric)) vids of
                 Inl e \<Rightarrow> Inl e
               | Inr ps \<Rightarrow>
                   if somes ps = []
                   then Inr (ToolError (js ''Could not find numeric data for metric '' @ [34]
                                          @ shown_arg metric @ [34] @ js ''.''))
                   else Inr (ToolOk \<lparr> chartType = js ''metric_vs_time'', chart_metric = metric,
                                       chart_data = sort_by date_cmp (somes ps) \<rparr>)))"

section \<open>The engagement column\<close>

text \<open>
  Modelled from the spec: the module \<^verbatim>\<open>csvTools\<close>, which holds the engagement column, is
  not among the sources. The spec has: \<^verbatim>\<open>engagementRatio(row)\<close> is favoriteCount /
  viewCount when both are present and viewCount > 0, otherwise undefined; rows without the
  inputs are left unmodified, not dropped. A row maps column names to scalars; a column is
  present when the row holds a number for it. The two column names are parameters; the
  ratio goes to the column \<^verbatim>\<open>engagement\<close>.
\<close>

type_synonym row = "ustr \<rightharpoonup> json"

definition column_number :: "row \<Rightarrow> ustr \<Rightarrow> jsnum option" where
  "column_number r c = (case r c of Some (JNum n) \<Rightarrow> if n = NaN then None else Some n | _ \<Rightarrow> None)"

definition engagementRatio :: "ustr \<Rightarrow> ustr \<Rightarrow> row \<Rightarrow> jsnum option" where
  "engagementRatio fav views r =
     (case column_number r fav of
        None \<Rightarrow> None
      | Some f \<Rightarrow>
          (case column_number r views of
             None \<Rightarrow> None
           | Some v \<Rightarrow> if num_less (Fin 0) v then Some (fdiv f v) else None))"

definition enrich_rows :: "ustr \<Rightarrow> ustr \<Rightarrow> row list \<Rightarrow> row list" where
  "enrich_rows fav views rows =
     map (\<lambda>r. case engagementRatio fav views r of
                 None \<Rightarrow> r
               | Some e \<Rightarrow> r(js ''engagement'' \<mapsto> JNum e)) rows"

section \<open>Sample built-ins\<close>

text \<open>
  Built-ins for the examples. The conversion of strings reads what the examples hold: a
  run of digits (the empty string as zero), and no other text. The square is the rounded
  product, the square root the rounded root. A date is a string \<^verbatim>\<open>YYYY-MM-DD\<close>, read as
  midnight UTC of a day of the calendar, and is printed as \<^verbatim>\<open>toISOString\<close> prints a
  year of four digits. The values the examples read under a caller's key are objects.
\<close>

definition sample_number :: "ustr \<Rightarrow> jsnum" where
  "sample_number s = (if list_all is_digit s then Fin (of_nat (digits_val s)) else NaN)"

fun sample_square :: "jsnum \<Rightarrow> jsnum" where
  "sample_square NaN = NaN"
| "sample_square (Fin x) = rnd (x * x)"
| "sample_square n = PInf"

fun isqrt_bits :: "nat \<Rightarrow> int \<Rightarrow> int \<Rightarrow> int" where
  "isqrt_bits 0 n r = (if (r + 1) * (r + 1) \<le> n then r + 1 else r)"
| "isqrt_bits (Suc k) n r =
     isqrt_bits k n (if (r + 2 ^ Suc k) * (r + 2 ^ Suc k) \<le> n then r + 2 ^ Suc k else r)"

fun sample_sqrt :: "jsnum \<Rightarrow> jsnum" where
  "sample_sqrt (Fin x) =
     (if x < 0 then NaN
      else if x = 0 then Fin 0
      else (let u = ilog2 x div 2 - 52;
                q = x / 2 powi (2 * u);
                n = isqrt_bits 53 \<lfloor>q\<rfloor> 0;
                half = (of_int n + 1 / 2) * (of_int n + 1 / 2);
                r = (if q < half then n else if half < q then n + 1
                     else if even n then n else n + 1)
            in Fin (of_int r * 2 powi u)))"
| "sample_sqrt PInf = PInf"
| "sample_sqrt n = NaN"

definition days_from_civil :: "int \<Rightarrow> int \<Rightarrow> int \<Rightarrow> int" where
  "days_from_civil y m d =
     (let y' = (if m \<le> 2 then y - 1 else y);
          era = y' div 400;
          yoe = y' - era * 400;
          doy = (153 * (if 2 < m then m - 3 else m + 9) + 2) div 5 + d - 1;
          doe = yoe * 365 + yoe div 4 - yoe div 100 + doy
      in era * 146097 + doe - 719468)"

definition civil_from_days :: "int \<Rightarrow> int \<times> int \<times> int" where
  "civil_from_days z =
     (let z' = z + 719468;
          era = z' div 146097;
          doe = z' - era * 146097;
          yoe = (doe - doe div 1460 + doe div 36524 - doe div 146096) div 365;
          doy = doe - (365 * yoe + yoe div 4 - yoe div 100);
          mp = (5 * doy + 2) div 153;
          d = doy - (153 * mp + 2) div 5 + 1;
          m = (if mp < 10 then mp + 3 else mp - 9)
      in ((if m \<le> 2 then yoe + era * 400 + 1 else yoe + era * 400), m, d))"

definition days_in_month :: "int \<Rightarrow> int \<Rightarrow> int" where
  "days_in_month y m =
     (if m = 2 then (if y mod 4 = 0 \<and> (y mod 100 \<noteq> 0 \<or> y mod 400 = 0) then 29 else 28)
      else if m = 4 \<or> m = 6 \<or> m = 9 \<or> m = 11 then 30 else 31)"

definition sample_date :: "json \<Rightarrow> int option" where
  "sample_date v =
     (case v of
        JStr s \<Rightarrow>
          if length s = 10 \<and> list_all is_digit (take 4 s) \<and> s ! 4 = 45
             \<and> list_all is_digit (take 2 (drop 5 s)) \<and> s ! 7 = 45
             \<and> list_all is_digit (drop 8 s)
          then (let y = int (digits_val (take 4 s));
                    m = int (digits_val (take 2 (drop 5 s)));
                    d = int (digits_val (drop 8 s))
                in if 1 \<le> m \<and> m \<le> 12 \<and> 1 \<le> d \<and> d \<le> days_in_month y m
                   then Some (86400000 * days_from_civil y m d) else None)
          else None
      | _ \<Rightarrow> None)"

definition pad :: "nat \<Rightarrow> int \<Rightarrow> ustr" where
  "pad w n = replicate (w - length (show_nat (nat n))) 48 @ show_nat (nat n)"

definition sample_iso :: "int \<Rightarrow> ustr" where
  "sample_iso ms =
     (let day = ms div 86400000;
          t = ms mod 86400000;
          ymd = civil_from_days day
      in pad 4 (fst ymd) @ [45] @ pad 2 (fst (snd ymd)) @ [45] @ pad 2 (snd (snd ymd)) @ [84]
         @ pad 2 (t div 3600000) @ [58] @ pad 2 (t div 60000 mod 60) @ [58]
         @ pad 2 (t div 1000 mod 60) @ [46] @ pad 3 (t mod 1000) @ [90])"

text \<open>The members an object inherits; each of them converts to NaN.\<close>

definition object_members :: "ustr list" where
  "object_members =
     map js [''constructor'', ''hasOwnProperty'', ''isPrototypeOf'', ''propertyIsEnumerable'',
             ''toLocaleString'', ''toString'', ''valueOf'', ''__proto__'', ''__defineGetter__'',
             ''__defineSetter__'', ''__lookupGetter__'', ''__lookupSetter__'']"

definition sample_inherited :: "json \<Rightarrow> ustr \<Rightarrow> jsnum option" where
  "sample_inherited v k =
     (case v of
        JObj kvs \<Rightarrow> if k \<in> set object_members then Some NaN else None
      | _ \<Rightarrow> None)"

definition sample_builtins :: builtins where
  "sample_builtins =
     \<lparr> number_of_string = sample_number, square = sample_square, sqrt_num = sample_sqrt,
       date_of = sample_date, iso_of = sample_iso, inherited = sample_inherited \<rparr>"

text \<open>The double nearest to one tenth, which the numeral \<^verbatim>\<open>0.1\<close> denotes.\<close>

definition tenth :: jsnum where
  "tenth = Fin (3602879701896397 / 36028797018963968)"

definition video :: "(string \<times> json) list \<Rightarrow> json" where
  "video kvs = JObj (map (\<lambda>kv. (js (fst kv), snd kv)) kvs)"

definition channel :: "json list \<Rightarrow> json option" where
  "channel vs = Some (JObj [(js ''videos'', JArr vs)])"


text \<open>A channel of five videos: two with a date and a view count, one without a date, one
  whose view count is text, one whose date does not parse.\<close>

definition sample_channel :: "json option" where
  "sample_channel =
     channel
       [video [(''title'', JStr (js ''b'')), (''published_at'', JStr (js ''2021-05-01'')),
               (''view_count'', JNum (Fin 3))],
        video [(''title'', JStr (js ''a'')), (''published_at'', JStr (js ''2020-05-01'')),
               (''view_count'', JNum (Fin 10))],
        video [(''title'', JStr (js ''c'')), (''view_count'', JNum (Fin 4))],
        video [(''title'', JStr (js ''d'')), (''published_at'', JStr (js ''2022-01-01'')),
               (''view_count'', JStr (js ''many''))],
        video [(''title'', JStr (js ''e'')), (''published_at'', JStr (js ''soon'')),
               (''view_count'', JNum (Fin 7))]]"

text \<open>A channel of three videos with one tenth of a view each.\<close>

definition tenth_channel :: "json option" where
  "tenth_channel =
     channel (replicate 3 (video [(''view_count'', JNum tenth)]))"

text \<open>A channel of one video whose view count is \<^verbatim>\<open>true\<close>.\<close>

definition true_channel :: "json option" where
  "true_channel = channel [video [(''view_count'', JBool True)]]"

text \<open>The object \<^verbatim>\<open>{"toString": 1, "valueOf": 1}\<close>, and a channel of two videos: one with a
  date and a view count, one without a date whose view count is that object.\<close>

definition opaque :: json where
  "opaque = JObj [(js ''toString'', JNum (Fin 1)), (js ''valueOf'', JNum (Fin 1))]"

definition opaque_channel :: "json option" where
  "opaque_channel =
     channel
       [video [(''title'', JStr (js ''a'')), (''published_at'', JStr (js ''2020-05-01'')),
               (''view_count'', JNum (Fin 10))],
        video [(''title'', JStr (js ''b'')), (''view_count'', opaque)]]"

text \<open>A row of a table, from its columns.\<close>

definition row_of :: "(string \<times> json) list \<Rightarrow> row" where
  "row_of kvs = map_of (map (\<lambda>kv. (js (fst kv), snd kv)) kvs)"
section \<open>The channel download: the clamp and the payload\<close>

lemma build_payload_videos:
  "build_payload env u n = Inr p \<Longrightarrow>
     length (videos p) \<le> nat n \<and> max_videos_requested p = n"
  by (auto simp: build_payload_def split: if_splits fetch_result.splits sum.splits
        option.splits json.splits)

lemma handleDownload_data:
  "data (handleDownload env st) = Some p \<Longrightarrow>
     build_payload env (url st) (clampInt (maxVideos st) 1 100) = Inr p"
  by (auto simp: handleDownload_def Let_def split: sum.splits)

text \<open>
  C10. For every input (a string, or the number the component stored), \<^verbatim>\<open>clampInt\<close>
  returns an integer between \<^verbatim>\<open>min\<close> and \<^verbatim>\<open>max\<close> (for bounds with min at most max,
  as the interval presupposes), and \<^verbatim>\<open>min\<close> when the input does not start with a number.
  So every payload \<^verbatim>\<open>handleDownload\<close> stores has at most 100 videos and a
  \<^verbatim>\<open>max_videos_requested\<close> between 1 and 100.
\<close>

theorem clampInt_bounds_payload:
  "(lo \<le> hi \<longrightarrow> lo \<le> clampInt v lo hi \<and> clampInt v lo hi \<le> hi) \<and>
   (parseInt10 (string_or_empty v) = None \<longrightarrow> clampInt v lo hi = lo) \<and>
   (\<forall>p. data (handleDownload env st) = Some p \<longrightarrow>
        length (videos p) \<le> 100 \<and> 1 \<le> max_videos_requested p \<and> max_videos_requested p \<le> 100)"
proof (intro conjI allI impI)
  assume "lo \<le> hi"
  then show "lo \<le> clampInt v lo hi" "clampInt v lo hi \<le> hi"
    by (simp_all add: clampInt_def split: option.splits)
next
  assume "parseInt10 (string_or_empty v) = None"
  then show "clampInt v lo hi = lo"
    by (simp add: clampInt_def)
next
  fix p
  assume "data (handleDownload env st) = Some p"
  then have bp: "build_payload env (url st) (clampInt (maxVideos st) 1 100) = Inr p"
    by (rule handleDownload_data)
  have range: "1 \<le> clampInt (maxVideos st) 1 100 \<and> clampInt (maxVideos st) 1 100 \<le> 100"
    by (simp add: clampInt_def split: option.splits)
  from build_payload_videos [OF bp] range
  show "length (videos p) \<le> 100" "1 \<le> max_videos_requested p" "max_videos_requested p \<le> 100"
    by auto
qed

text \<open>The theorem at the inputs \<^verbatim>\<open>"250"\<close> and \<^verbatim>\<open>"abc"\<close>, and at a download of a sample of
  three entries with two requested.\<close>

theorem clampInt_bounds_payload_witness:
  "clampInt (StrV (js ''250'')) 1 100 = 100 \<and>
   clampInt (StrV (js ''abc'')) 1 100 = 1 \<and>
   (\<exists>p. data (handleDownload
            \<lparr> fetch_sample = FetchOk (JObj [(js ''videos'', JArr [JStr (js ''a''), JStr (js ''b''), JStr (js ''c'')])]),
              now_iso = js ''2024-01-01T00:00:00.000Z'',
              type_error_message = js ''TypeError'' \<rparr>
            \<lparr> url = js ''https://www.youtube.com/@veritasium'', maxVideos = StrV (js ''2''),
              downloading = False, progress = 0, error_msg = [], data = None,
              timerRef = False \<rparr>) = Some p \<and>
        videos p = [JStr (js ''a''), JStr (js ''b'')] \<and> max_videos_requested p = 2 \<and>
        length (videos p) \<le> 100)"
proof -
  let ?env = "\<lparr> fetch_sample = FetchOk (JObj [(js ''videos'', JArr [JStr (js ''a''), JStr (js ''b''), JStr (js ''c'')])]),
              now_iso = js ''2024-01-01T00:00:00.000Z'',
              type_error_message = js ''TypeError'' \<rparr>"
  let ?st = "\<lparr> url = js ''https://www.youtube.com/@veritasium'', maxVideos = StrV (js ''2''),
              downloading = False, progress = 0, error_msg = [], data = None,
              timerRef = False \<rparr>"
  have a: "clampInt (StrV (js ''250'')) 1 100 = 100" by code_simp
  have b: "clampInt (StrV (js ''abc'')) 1 100 = 1" by code_simp
  have v: "isVeritasium (js ''https://www.youtube.com/@veritasium'')" by code_simp
  have c: "clampInt (StrV (js ''2'')) 1 100 = 2" by code_simp
  have d: "\<exists>p. data (handleDownload ?env ?st) = Some p \<and>
        videos p = [JStr (js ''a''), JStr (js ''b'')] \<and> max_videos_requested p = 2"
    by (simp add: handleDownload_def build_payload_def v c get_prop_def or_else_def
          truthy_opt_def opt_prop_def)
  then obtain p where p: "data (handleDownload ?env ?st) = Some p"
      "videos p = [JStr (js ''a''), JStr (js ''b'')]" "max_videos_requested p = 2"
    by blast
  from clampInt_bounds_payload [of 1 100 "StrV (js ''250'')" ?env ?st] p(1)
  have "length (videos p) \<le> 100" by blast
  with a b p show ?thesis by blast
qed

section \<open>The send handler: guard and routing\<close>

lemma handleSend_blocked: "send_blocked st \<Longrightarrow> handleSend env st = (st, [])"
  by (simp add: handleSend_def)

lemma handleSend_unfold:
  "\<not> send_blocked st \<Longrightarrow>
     handleSend env st =
       (let t = trim (input st);
            branch =
              (if wantsGenerateImage t
               then send_image env (send_session env st) t (images st) (with_user_message env st)
               else if truthy_opt (channelJson st)
                       \<and> (wantsMetricPlot t \<or> wantsStatsJson t \<or> wantsPlayVideo t)
               then send_json_tool env (send_session env st) t
                      (case channelJson st of None \<Rightarrow> JNull | Some cj \<Rightarrow> cj)
                      (with_user_message env st)
               else send_model env (send_session env st) t (images st) st
                      (with_user_message env st))
        in (fst branch, opening_calls env st @ snd branch))"
  by (auto simp: handleSend_def send_session_def with_user_message_def opening_calls_def Let_def)

text \<open>
  C6. Called while a send is in flight (the streaming flag is set), or with nothing to
  send (no text after trimming, no image, no CSV context, no JSON context),
  \<^verbatim>\<open>handleSend\<close> returns at its guard: the state is the one it was called in, so the
  message list has the length it had, and no call is made.
\<close>

theorem handleSend_guard_noop:
  "streaming st \<or>
   (trim (input st) = [] \<and> images st = [] \<and> csvContext st = None \<and> jsonContext st = None) \<Longrightarrow>
     handleSend env st = (st, []) \<and>
     length (messages (fst (handleSend env st))) = length (messages st) \<and>
     snd (handleSend env st) = []"
proof -
  assume "streaming st \<or>
   (trim (input st) = [] \<and> images st = [] \<and> csvContext st = None \<and> jsonContext st = None)"
  then have "send_blocked st"
    by (auto simp: send_blocked_def)
  then have "handleSend env st = (st, [])"
    by (rule handleSend_blocked)
  then show ?thesis by simp
qed

text \<open>The theorem at a second send of \<^verbatim>\<open>hello\<close> while the first is streaming, and at a
  send of blanks with nothing attached.\<close>

theorem handleSend_guard_noop_witness:
  "handleSend sample_env (idle_state\<lparr> input := js ''hello'', streaming := True \<rparr>)
     = (idle_state\<lparr> input := js ''hello'', streaming := True \<rparr>, []) \<and>
   handleSend sample_env (idle_state\<lparr> input := js ''  '' \<rparr>) = (idle_state\<lparr> input := js ''  '' \<rparr>, [])"
proof -
  have a: "streaming (idle_state\<lparr> input := js ''hello'', streaming := True \<rparr>)"
    by simp
  have t: "trim (js ''  '') = []"
    by code_simp
  have b: "trim (input (idle_state\<lparr> input := js ''  '' \<rparr>)) = [] \<and>
           images (idle_state\<lparr> input := js ''  '' \<rparr>) = [] \<and>
           csvContext (idle_state\<lparr> input := js ''  '' \<rparr>) = None \<and>
           jsonContext (idle_state\<lparr> input := js ''  '' \<rparr>) = None"
    by (simp add: t idle_state_def)
  from handleSend_guard_noop [of "idle_state\<lparr> input := js ''hello'', streaming := True \<rparr>" sample_env] a
       handleSend_guard_noop [of "idle_state\<lparr> input := js ''  '' \<rparr>" sample_env] b
  show ?thesis by blast
qed

lemma js_not_empty [simp]: "js (c # cs) \<noteq> []"
  by (simp add: js_def)

lemma send_model_requests:
  "filter is_request (snd (send_model env sid t imgs st0 st)) =
     [if useTools st0 t
      then ChatWithCsvTools ((js ''user'', userHeader env) # history_of (messages st0))
             (promptForGemini st0 t) (sessionCsvHeaders st0)
      else StreamChat ((js ''user'', userHeader env) # history_of (messages st0))
             (promptForGemini st0 t) (map (\<lambda>i. (mimeType i, img_data i)) imgs)
             (useCodeExecution st0 t)]"
  by (simp add: send_model_def settle_reply_def Let_def split: sum.splits)

lemma opening_calls_no_request: "filter is_request (opening_calls env st) = []"
  by (simp add: opening_calls_def)

lemma average_likes_flags:
  "\<not> wantsGenerateImage (js ''average likes'')"
  "wantsStatsJson (js ''average likes'')"
  "\<not> wantPythonOnly (js ''average likes'')"
  "\<not> rx_test CODE_KEYWORDS (js ''average likes'')"
  by code_simp+

lemma average_likes_requests:
  assumes "trim (input st) = js ''average likes''"
    and "sessionCsvRows st = None" and "channelJson st = None"
    and "\<not> streaming st" and "activeSessionId st \<noteq> None" and "activeSessionId st \<noteq> Some []"
  shows "filter is_request (snd (handleSend env st)) =
     [StreamChat ((js ''user'', userHeader env) # history_of (messages st))
        (promptForGemini st (js ''average likes''))
        (map (\<lambda>i. (mimeType i, img_data i)) (images st)) False]"
proof -
  have open_: "\<not> send_blocked st"
    using assms by (simp add: send_blocked_def)
  have tools: "\<not> useTools st (js ''average likes'')"
    using assms(2) by (simp add: useTools_def)
  have code: "\<not> useCodeExecution st (js ''average likes'')"
    by (simp add: useCodeExecution_def wantCode_def average_likes_flags)
  show ?thesis
    using assms(1,3) tools code
    by (simp add: handleSend_unfold [OF open_] Let_def average_likes_flags truthy_opt_def
          send_model_requests opening_calls_no_request)
qed

text \<open>
  C1, as the code has it. For the text \<^verbatim>\<open>average likes\<close>, sent with no CSV rows and no
  channel JSON loaded, \<^verbatim>\<open>useCodeExecution\<close> is false: no keyword of \<^verbatim>\<open>CODE_KEYWORDS\<close>
  or \<^verbatim>\<open>PYTHON_ONLY_KEYWORDS\<close> occurs in the text. The handler takes neither the local
  stats tool path nor the code-execution strategy: its one request is \<^verbatim>\<open>streamChat\<close>
  with the code-execution flag off.
\<close>

theorem average_likes_plain_stream:
  assumes "trim (input st) = js ''average likes''"
    and "sessionCsvRows st = None" and "channelJson st = None"
    and "\<not> streaming st" and "activeSessionId st \<noteq> None" and "activeSessionId st \<noteq> Some []"
  shows "\<not> useCodeExecution st (js ''average likes'') \<and>
         \<not> useTools st (js ''average likes'') \<and>
         filter is_request (snd (handleSend env st)) =
           [StreamChat ((js ''user'', userHeader env) # history_of (messages st))
              (promptForGemini st (js ''average likes''))
              (map (\<lambda>i. (mimeType i, img_data i)) (images st)) False]"
proof (intro conjI)
  show "\<not> useCodeExecution st (js ''average likes'')"
    by (simp add: useCodeExecution_def wantCode_def average_likes_flags)
  show "\<not> useTools st (js ''average likes'')"
    using assms(2) by (simp add: useTools_def)
  show "filter is_request (snd (handleSend env st)) =
           [StreamChat ((js ''user'', userHeader env) # history_of (messages st))
              (promptForGemini st (js ''average likes''))
              (map (\<lambda>i. (mimeType i, img_data i)) (images st)) False]"
    using assms by (rule average_likes_requests)
qed

lemma sample_average_likes:
  "trim (input (idle_state\<lparr> input := js ''average likes'' \<rparr>)) = js ''average likes''"
  "sessionCsvRows (idle_state\<lparr> input := js ''average likes'' \<rparr>) = None"
  "channelJson (idle_state\<lparr> input := js ''average likes'' \<rparr>) = None"
  "\<not> streaming (idle_state\<lparr> input := js ''average likes'' \<rparr>)"
  "activeSessionId (idle_state\<lparr> input := js ''average likes'' \<rparr>) \<noteq> None"
  "activeSessionId (idle_state\<lparr> input := js ''average likes'' \<rparr>) \<noteq> Some []"
  by code_simp+

lemma sample_average_likes_prompt:
  "userHeader sample_env = js ''User: Ada (@ada)''"
  "history_of (messages (idle_state\<lparr> input := js ''average likes'' \<rparr>)) = []"
  "promptForGemini (idle_state\<lparr> input := js ''average likes'' \<rparr>) (js ''average likes'')
     = js ''average likes''"
  "images (idle_state\<lparr> input := js ''average likes'' \<rparr>) = []"
  "history_of (messages idle_state) = []"
  "trim (js ''average likes'') = js ''average likes''"
  by code_simp+

text \<open>The theorem at the idle state with the text typed in.\<close>

theorem average_likes_plain_stream_witness:
  "\<not> useCodeExecution (idle_state\<lparr> input := js ''average likes'' \<rparr>) (js ''average likes'') \<and>
   filter is_request (snd (handleSend sample_env (idle_state\<lparr> input := js ''average likes'' \<rparr>))) =
     [StreamChat [(js ''user'', js ''User: Ada (@ada)'')] (js ''average likes'') [] False]"
  using average_likes_plain_stream [OF sample_average_likes, of sample_env]
  by (simp add: sample_average_likes_prompt)

text \<open>
  C1 as stated fails: at the idle state (nothing loaded) with \<^verbatim>\<open>average likes\<close> typed in,
  \<^verbatim>\<open>useCodeExecution\<close> is false and the request of the send is \<^verbatim>\<open>streamChat\<close> with
  the flag off.
\<close>

theorem average_likes_not_code_execution:
  "useCodeExecution (idle_state\<lparr> input := js ''average likes'' \<rparr>)
     (trim (input (idle_state\<lparr> input := js ''average likes'' \<rparr>))) = False \<and>
   filter is_request (snd (handleSend sample_env (idle_state\<lparr> input := js ''average likes'' \<rparr>))) =
     [StreamChat [(js ''user'', js ''User: Ada (@ada)'')] (js ''average likes'') [] False]"
proof -
  have "useCodeExecution (idle_state\<lparr> input := js ''average likes'' \<rparr>) (js ''average likes'') = False"
    by (simp add: useCodeExecution_def wantCode_def average_likes_flags)
  then show ?thesis
    using average_likes_requests [OF sample_average_likes, of sample_env]
    by (simp add: sample_average_likes_prompt sample_average_likes(1))
qed

section \<open>Attachments: the CSV and the JSON context\<close>

lemma attach_exclusive_when_json_parses:
  assumes "csvContext st = None \<or> jsonContext st = None"
    and "\<forall>f \<in> set files. is_json_file f \<longrightarrow> (\<exists>obj. json_parse env (file_text f) = Inr obj)"
  shows "csvContext (handleDrop env files st) = None \<or> jsonContext (handleDrop env files st) = None"
proof (cases "filter is_json_file files")
  case Nil
  then show ?thesis
    using assms(1)
    by (auto simp: handleDrop_def attach_images_def attach_json_def attach_csv_def Let_def
          split: list.splits option.splits)
next
  case (Cons f fs)
  then have "f \<in> set (filter is_json_file files)" by simp
  then have "f \<in> set files" "is_json_file f" by auto
  with assms(2) obtain obj where "json_parse env (file_text f) = Inr obj" by blast
  with Cons show ?thesis
    by (auto simp: handleDrop_def attach_images_def attach_json_def Let_def)
qed

lemma sample_json_is_broken: "json_parse sample_env (file_text broken_json) = Inl (js ''Unexpected end of JSON input'')"
  by code_simp

text \<open>
  C2 at its failing input. A drop of the CSV file \<^verbatim>\<open>a.csv\<close> together with the file
  \<^verbatim>\<open>bad.json\<close>, whose text \<^verbatim>\<open>{\<close> does not parse, leaves both contexts set; so does the
  drop (or the selection) of \<^verbatim>\<open>bad.json\<close> after \<^verbatim>\<open>a.csv\<close> was attached. The
  \<^verbatim>\<open>catch\<close> branch sets the JSON context and does not clear the CSV context, which the
  \<^verbatim>\<open>try\<close> branch does.
\<close>

theorem invalid_json_keeps_csv_context:
  "map_option csv_name (csvContext (handleDrop sample_env [sample_csv, broken_json] idle_state))
     = Some (js ''a.csv'') \<and>
   map_option json_name (jsonContext (handleDrop sample_env [sample_csv, broken_json] idle_state))
     = Some (js ''bad.json'') \<and>
   map_option csv_name (csvContext (handleFileSelect sample_env [broken_json]
       (handleFileSelect sample_env [sample_csv] idle_state))) = Some (js ''a.csv'') \<and>
   map_option json_name (jsonContext (handleFileSelect sample_env [broken_json]
       (handleFileSelect sample_env [sample_csv] idle_state))) = Some (js ''bad.json'')"
  by code_simp

section \<open>The base64 of the CSV: where it is built, where it goes\<close>

lemma model_is_not_user [simp]: "js ''model'' \<noteq> js ''user''"
  by (simp add: js_def)



lemma with_base64_fields [simp]:
  "sessions (with_base64 b st) = sessions st"
  "activeSessionId (with_base64 b st) = activeSessionId st"
  "messages (with_base64 b st) = messages st"
  "input (with_base64 b st) = input st"
  "images (with_base64 b st) = images st"
  "jsonContext (with_base64 b st) = jsonContext st"
  "channelJson (with_base64 b st) = channelJson st"
  "channelJsonSummary (with_base64 b st) = channelJsonSummary st"
  "jsonError (with_base64 b st) = jsonError st"
  "sessionCsvRows (with_base64 b st) = sessionCsvRows st"
  "sessionCsvHeaders (with_base64 b st) = sessionCsvHeaders st"
  "csvDataSummary (with_base64 b st) = csvDataSummary st"
  "sessionSlimCsv (with_base64 b st) = sessionSlimCsv st"
  "streaming (with_base64 b st) = streaming st"
  "(csvContext (with_base64 b st) = None) = (csvContext st = None)"
  by (simp_all add: with_base64_def)

lemma with_base64_csv_case:
  "(case csvContext (with_base64 b st) of None \<Rightarrow> x | Some c \<Rightarrow> f c) =
   (case csvContext st of None \<Rightarrow> x | Some c \<Rightarrow> f (c\<lparr> base64 := b \<rparr>))"
  by (cases "csvContext st") (simp_all add: with_base64_def)

lemma with_base64_flags [simp]:
  "send_blocked (with_base64 b st) = send_blocked st"
  "wantCode (with_base64 b st) t = wantCode st t"
  "needsBase64 (with_base64 b st) t = needsBase64 st t"
  "useTools (with_base64 b st) t = useTools st t"
  "useCodeExecution (with_base64 b st) t = useCodeExecution st t"
  "userContent (with_base64 b st) t = userContent st t"
  "sessionSummary (with_base64 b st) = sessionSummary st"
  "slimCsvBlock (with_base64 b st) = slimCsvBlock st"
  "send_session env (with_base64 b st) = send_session env st"
  by (simp_all add: send_blocked_def wantCode_def needsBase64_def useTools_def
        useCodeExecution_def userContent_def sessionSummary_def slimCsvBlock_def
        send_session_def)

lemma with_base64_json_prefix [simp]: "jsonPrefix (with_base64 b st) = jsonPrefix st"
  by (simp add: jsonPrefix_def split: option.splits)

lemma with_base64_opening [simp]: "opening_calls env (with_base64 b st) = opening_calls env st"
  by (simp add: opening_calls_def)

lemma with_base64_user_message [simp]:
  "with_user_message env (with_base64 b st) = with_user_message env st"
proof -
  have name: "(case csvContext (with_base64 b st) of None \<Rightarrow> None
               | Some c \<Rightarrow> if csv_name c = [] then None else Some (csv_name c)) =
              (case csvContext st of None \<Rightarrow> None
               | Some c \<Rightarrow> if csv_name c = [] then None else Some (csv_name c))"
    by (simp add: with_base64_csv_case split: option.splits)
  show ?thesis
    unfolding with_user_message_def name Let_def
    by (simp, simp add: with_base64_def)
qed









section \<open>Cancelling a stream\<close>


lemma process_chunk_flags [simp]:
  "aborted (process_chunk aid c s) = aborted s"
  "thrown (process_chunk aid c s) = thrown s"
  by (cases c; simp)+





lemma stream_env_parts [simp]:
  "send_session (env\<lparr> streamChat := f \<rparr>) st = send_session env st"
  "assistantId_of (env\<lparr> streamChat := f \<rparr>) = assistantId_of env"
  "with_user_message (env\<lparr> streamChat := f \<rparr>) st = with_user_message env st"
  "stream_request (env\<lparr> streamChat := f \<rparr>) st = stream_request env st"
  "stream_start (env\<lparr> streamChat := f \<rparr>) st = stream_start env st"
  "opening_calls (env\<lparr> streamChat := f \<rparr>) st = opening_calls env st"
  "stream_events (env\<lparr> streamChat := (\<lambda>h p i c. es) \<rparr>) st = es"
  by (simp_all add: send_session_def assistantId_of_def with_user_message_def stream_request_def
        stream_start_def opening_calls_def stream_events_def userHeader_def Let_def
        cong: if_cong)







section \<open>Rounding to a double\<close>

lemma powi_nat: "0 \<le> k \<Longrightarrow> (2::rat) powi k = of_int (2 ^ nat k)"
  by (simp add: power_int_def)

lemma powi_pos [simp]: "0 < (2::rat) powi k"
  by simp

lemma ilog2_window:
  assumes "0 < x"
  shows "2 powi (bitlen (fst (quotient_of x)) - bitlen (snd (quotient_of x)) - 1) < x
       \<and> x < 2 powi (bitlen (fst (quotient_of x)) - bitlen (snd (quotient_of x)) + 1)"
proof -
  obtain p q where pq: "quotient_of x = (p, q)" by (cases "quotient_of x")
  then have x: "x = of_int p / of_int q" and q: "0 < q"
    by (simp_all add: quotient_of_div quotient_of_denom_pos)
  with assms have p: "0 < p"
    by (simp add: zero_less_divide_iff)
  let ?bp = "bitlen p" and ?bq = "bitlen q"
  from bitlen_bounds [OF p] have p1: "(2::int) ^ nat (?bp - 1) \<le> p" and p2: "p < 2 ^ nat ?bp" by simp_all
  from bitlen_bounds [OF q] have q1: "(2::int) ^ nat (?bq - 1) \<le> q" and q2: "q < 2 ^ nat ?bq" by simp_all
  have bp: "1 \<le> ?bp" using p by (simp add: bitlen_alt_def)
  have bq: "1 \<le> ?bq" using q by (simp add: bitlen_alt_def)
  have P1: "(2::rat) powi (?bp - 1) \<le> of_int p"
    using p1 bp by (simp add: powi_nat)
  have P2: "of_int p < (2::rat) powi ?bp"
    using p2 bp by (simp add: powi_nat)
  have Q1: "(2::rat) powi (?bq - 1) \<le> of_int q"
    using q1 bq by (simp add: powi_nat)
  have Q2: "of_int q < (2::rat) powi ?bq"
    using q2 bq by (simp add: powi_nat)
  have qpos: "0 < (of_int q :: rat)" using q by simp
  have lo: "2 powi (?bp - ?bq - 1) < x"
  proof -
    have "2 powi (?bp - ?bq - 1) * of_int q < (2::rat) powi (?bp - ?bq - 1) * 2 powi ?bq"
      using Q2 by simp
    also have "\<dots> = 2 powi (?bp - 1)"
      by (simp add: power_int_add [symmetric])
    also have "\<dots> \<le> of_int p" by (rule P1)
    finally show ?thesis
      using qpos by (simp add: x pos_less_divide_eq)
  qed
  have hi: "x < 2 powi (?bp - ?bq + 1)"
  proof -
    have "of_int p < (2::rat) powi ?bp" by (rule P2)
    also have "\<dots> = 2 powi (?bp - ?bq + 1) * 2 powi (?bq - 1)"
      by (simp add: power_int_add [symmetric])
    also have "\<dots> \<le> 2 powi (?bp - ?bq + 1) * of_int q"
      using Q1 by simp
    finally show ?thesis
      using qpos by (simp add: x pos_divide_less_eq)
  qed
  from lo hi show ?thesis by (simp add: pq)
qed

lemma ilog2_bounds:
  assumes "0 < x"
  shows "2 powi (ilog2 x) \<le> x" and "x < 2 powi (ilog2 x + 1)"
  using ilog2_window [OF assms]
  by (auto simp: ilog2_def Let_def not_le)

lemma ilog2_ge: "0 < x \<Longrightarrow> 2 powi k \<le> x \<Longrightarrow> k \<le> ilog2 x"
proof (rule ccontr)
  assume x: "0 < x" and k: "2 powi k \<le> x" and "\<not> k \<le> ilog2 x"
  then have "ilog2 x + 1 \<le> k" by simp
  then have "(2::rat) powi (ilog2 x + 1) \<le> 2 powi k"
    by (intro power_int_increasing) simp_all
  with ilog2_bounds(2) [OF x] k show False by simp
qed


lemma rhe_floor: "\<lfloor>q\<rfloor> \<le> round_half_even q"
  by (simp add: round_half_even_def Let_def)

lemma rhe_ge:
  assumes "of_int n \<le> q"
  shows "n \<le> round_half_even q"
proof -
  from assms have "n \<le> \<lfloor>q\<rfloor>" by (simp add: le_floor_iff)
  also have "\<dots> \<le> round_half_even q" by (rule rhe_floor)
  finally show ?thesis .
qed

lemma rhe_le:
  assumes "q \<le> of_int n"
  shows "round_half_even q \<le> n"
proof (cases "q = of_int \<lfloor>q\<rfloor>")
  case True
  then have "round_half_even q = \<lfloor>q\<rfloor>"
    by (simp add: round_half_even_def Let_def)
  with assms show ?thesis by (simp add: floor_le_iff)
next
  case False
  with of_int_floor_le [of q] have "of_int \<lfloor>q\<rfloor> < q"
    by linarith
  with assms have "of_int \<lfloor>q\<rfloor> < (of_int n :: rat)" by simp
  then have "\<lfloor>q\<rfloor> < n" by simp
  moreover have "round_half_even q \<le> \<lfloor>q\<rfloor> + 1"
    by (simp add: round_half_even_def Let_def)
  ultimately show ?thesis by simp
qed

lemma grid_multiple:
  assumes "e \<le> ed"
  shows "of_int m * (2::rat) powi ed = of_int (m * 2 ^ nat (ed - e)) * 2 powi e"
proof -
  have "(2::rat) powi ed = 2 powi (ed - e) * 2 powi e"
    by (simp add: power_int_add [symmetric])
  also have "(2::rat) powi (ed - e) = of_int (2 ^ nat (ed - e))"
    using assms by (simp add: powi_nat)
  finally show ?thesis by simp
qed

lemma small_double:
  assumes "\<bar>m\<bar> < 2 ^ 53" and "ed < e"
  shows "\<bar>of_int m * (2::rat) powi ed\<bar> < 2 powi (e + 52)"
proof -
  have "\<bar>of_int m * (2::rat) powi ed\<bar> = of_int \<bar>m\<bar> * 2 powi ed"
    by (simp add: abs_mult)
  also have "\<dots> < of_int (2 ^ 53) * 2 powi ed"
    using assms(1) by (intro mult_strict_right_mono) (simp_all del: of_int_power)
  also have "\<dots> = 2 powi (ed + 53)"
    by (simp add: power_int_add)
  also have "\<dots> \<le> 2 powi (e + 52)"
    using assms(2) by (intro power_int_increasing) simp_all
  finally show ?thesis .
qed

lemma grid_lower:
  assumes d: "d = of_int m * 2 powi ed" "\<bar>m\<bar> < 2 ^ 53" "- 1074 \<le> ed"
    and x: "x \<noteq> 0" "d \<le> x"
    and e: "e = max (ilog2 \<bar>x\<bar> - 52) (- 1074)"
  shows "d \<le> of_int (round_half_even (x / 2 powi e)) * 2 powi e"
proof (cases "e \<le> ed")
  case True
  let ?n = "m * 2 ^ nat (ed - e)"
  have dn: "d = of_int ?n * 2 powi e"
    unfolding d(1) using True by (rule grid_multiple)
  have "of_int ?n \<le> x / 2 powi e"
    using x(2) by (simp add: dn pos_le_divide_eq)
  then have "?n \<le> round_half_even (x / 2 powi e)" by (rule rhe_ge)
  then have "(of_int ?n :: rat) \<le> of_int (round_half_even (x / 2 powi e))"
    by (simp only: of_int_le_iff)
  then show ?thesis
    unfolding dn by (intro mult_right_mono) simp_all
next
  case False
  then have lt: "ed < e" by simp
  with d(3) e have e52: "e = ilog2 \<bar>x\<bar> - 52" by (simp add: max_def split: if_splits)
  from x(1) have "0 < \<bar>x\<bar>" by simp
  from ilog2_bounds(1) [OF this] have big: "2 powi (e + 52) \<le> \<bar>x\<bar>"
    by (simp add: e52)
  have small: "\<bar>d\<bar> < 2 powi (e + 52)"
    unfolding d(1) using d(2) lt by (rule small_double)
  show ?thesis
  proof (cases "0 < x")
    case True
    have pw: "(2::rat) powi (e + 52) = of_int (2 ^ 52) * 2 powi e"
      by (simp add: power_int_add)
    from big True have "(2::rat) powi (e + 52) \<le> x" by simp
    then have "of_int (2 ^ 52) * 2 powi e \<le> x"
      unfolding pw .
    then have "of_int (2 ^ 52) \<le> x / (2::rat) powi e"
      by (simp only: pos_le_divide_eq [OF powi_pos])
    then have "2 ^ 52 \<le> round_half_even (x / 2 powi e)" by (rule rhe_ge)
    then have "(of_int (2 ^ 52) :: rat) \<le> of_int (round_half_even (x / 2 powi e))"
      by (simp only: of_int_le_iff)
    then have "of_int (2 ^ 52) * (2::rat) powi e \<le> of_int (round_half_even (x / 2 powi e)) * 2 powi e"
      by (intro mult_right_mono) simp_all
    moreover have "of_int (2 ^ 52) * (2::rat) powi e = 2 powi (e + 52)"
      by (simp add: power_int_add)
    moreover have "d \<le> \<bar>d\<bar>" by simp
    ultimately show ?thesis using small by linarith
  next
    case False
    with x have "x < 0" "d < 0" by simp_all
    with x(2) have "\<bar>x\<bar> \<le> \<bar>d\<bar>" by simp
    with big small show ?thesis by simp
  qed
qed

lemma grid_upper:
  assumes d: "d = of_int m * 2 powi ed" "\<bar>m\<bar> < 2 ^ 53" "- 1074 \<le> ed"
    and x: "x \<noteq> 0" "x \<le> d"
    and e: "e = max (ilog2 \<bar>x\<bar> - 52) (- 1074)"
  shows "of_int (round_half_even (x / 2 powi e)) * 2 powi e \<le> d"
proof (cases "e \<le> ed")
  case True
  let ?n = "m * 2 ^ nat (ed - e)"
  have dn: "d = of_int ?n * 2 powi e"
    unfolding d(1) using True by (rule grid_multiple)
  have "x / 2 powi e \<le> of_int ?n"
    using x(2) by (simp add: dn pos_divide_le_eq)
  then have "round_half_even (x / 2 powi e) \<le> ?n" by (rule rhe_le)
  then have "(of_int (round_half_even (x / 2 powi e)) :: rat) \<le> of_int ?n"
    by (simp only: of_int_le_iff)
  then show ?thesis
    unfolding dn by (intro mult_right_mono) simp_all
next
  case False
  then have lt: "ed < e" by simp
  with d(3) e have e52: "e = ilog2 \<bar>x\<bar> - 52" by (simp add: max_def split: if_splits)
  from x(1) have "0 < \<bar>x\<bar>" by simp
  from ilog2_bounds(1) [OF this] have big: "2 powi (e + 52) \<le> \<bar>x\<bar>"
    by (simp add: e52)
  have small: "\<bar>d\<bar> < 2 powi (e + 52)"
    unfolding d(1) using d(2) lt by (rule small_double)
  show ?thesis
  proof (cases "x < 0")
    case True
    have pw: "- ((2::rat) powi (e + 52)) = of_int (- (2 ^ 52)) * 2 powi e"
      by (simp add: power_int_add)
    from big True have "x \<le> - ((2::rat) powi (e + 52))" by simp
    then have "x \<le> of_int (- (2 ^ 52)) * 2 powi e"
      unfolding pw .
    then have "x / (2::rat) powi e \<le> of_int (- (2 ^ 52))"
      by (simp only: pos_divide_le_eq [OF powi_pos])
    then have "round_half_even (x / 2 powi e) \<le> - (2 ^ 52)" by (rule rhe_le)
    then have "(of_int (round_half_even (x / 2 powi e)) :: rat) \<le> of_int (- (2 ^ 52))"
      by (simp only: of_int_le_iff)
    then have "of_int (round_half_even (x / 2 powi e)) * 2 powi e \<le> of_int (- (2 ^ 52)) * (2::rat) powi e"
      by (intro mult_right_mono) simp_all
    moreover have "of_int (- (2 ^ 52)) * (2::rat) powi e = - (2 powi (e + 52))"
      by (simp add: power_int_add)
    moreover have "- \<bar>d\<bar> \<le> d" by simp
    ultimately show ?thesis using small by linarith
  next
    case False
    with x have "0 < x" "0 < d" by simp_all
    with x(2) have "\<bar>x\<bar> \<le> \<bar>d\<bar>" by simp
    with big small show ?thesis by simp
  qed
qed


lemma double_bound:
  assumes "is_double d"
  shows "\<bar>d\<bar> < 2 ^ 1024"
proof -
  from assms obtain m e where d: "d = of_int m * 2 powi e" "\<bar>m\<bar> < 2 ^ 53" "e \<le> 971"
    by (auto simp: is_double_def)
  have "\<bar>d\<bar> < 2 powi (972 + 52)"
    unfolding d(1) using d(2) by (rule small_double) (use d(3) in simp)
  then show ?thesis by (simp add: powi_nat)
qed

lemma rnd_lower:
  assumes "is_double d" and "d \<le> x"
  shows "num_le (Fin d) (rnd x)"
proof (cases "x = 0")
  case True
  with assms(2) show ?thesis by (simp add: rnd_def)
next
  case False
  from assms(1) obtain m ed where d: "d = of_int m * 2 powi ed" "\<bar>m\<bar> < 2 ^ 53" "- 1074 \<le> ed"
    by (auto simp: is_double_def)
  define e where "e = max (ilog2 \<bar>x\<bar> - 52) (- 1074)"
  define y where "y = of_int (round_half_even (x / 2 powi e)) * (2::rat) powi e"
  have "d \<le> y"
    unfolding y_def using d False assms(2) e_def by (rule grid_lower)
  moreover have "- (2 ^ 1024) < d"
    using double_bound [OF assms(1)] by simp
  ultimately show ?thesis
    using False by (simp add: rnd_def Let_def e_def [symmetric] y_def [symmetric])
qed

lemma rnd_upper:
  assumes "is_double d" and "x \<le> d"
  shows "num_le (rnd x) (Fin d)"
proof (cases "x = 0")
  case True
  with assms(2) show ?thesis by (simp add: rnd_def)
next
  case False
  from assms(1) obtain m ed where d: "d = of_int m * 2 powi ed" "\<bar>m\<bar> < 2 ^ 53" "- 1074 \<le> ed"
    by (auto simp: is_double_def)
  define e where "e = max (ilog2 \<bar>x\<bar> - 52) (- 1074)"
  define y where "y = of_int (round_half_even (x / 2 powi e)) * (2::rat) powi e"
  have "y \<le> d"
    unfolding y_def using d False assms(2) e_def by (rule grid_upper)
  moreover have "d < 2 ^ 1024"
    using double_bound [OF assms(1)] by simp
  ultimately show ?thesis
    using False by (simp add: rnd_def Let_def e_def [symmetric] y_def [symmetric])
qed

lemma rnd_double [simp]:
  assumes "is_double d"
  shows "rnd d = Fin d"
proof -
  from rnd_lower [OF assms, of d] rnd_upper [OF assms, of d]
  show ?thesis by (cases "rnd d") simp_all
qed

lemma rnd_finite_bound:
  "rnd x = Fin y \<Longrightarrow> - (2 ^ 1024) < y \<and> y < 2 ^ 1024"
  by (auto simp: rnd_def Let_def split: if_splits)

lemma is_double_0 [simp]: "is_double 0"
  unfolding is_double_def by (rule exI [of _ 0], rule exI [of _ 0]) simp

lemma is_double_minus [simp]: "is_double (- d) = is_double d"
proof -
  have "is_double (- d)" if "is_double d" for d
  proof -
    from that obtain m e where "d = of_int m * 2 powi e" "\<bar>m\<bar> < 2 ^ 53" "- 1074 \<le> e" "e \<le> 971"
      by (auto simp: is_double_def)
    then have "- d = of_int (- m) * 2 powi e \<and> \<bar>- m\<bar> < 2 ^ 53 \<and> - 1074 \<le> e \<and> e \<le> 971"
      by simp
    then show ?thesis unfolding is_double_def by blast
  qed
  from this [of d] this [of "- d"] show ?thesis by auto
qed

lemma double_twice:
  assumes "is_double a" and "\<bar>2 * a\<bar> < 2 ^ 1024"
  shows "is_double (2 * a)"
proof -
  from assms(1) obtain m e where a: "a = of_int m * 2 powi e" "\<bar>m\<bar> < 2 ^ 53" "- 1074 \<le> e" "e \<le> 971"
    by (auto simp: is_double_def)
  show ?thesis
  proof (cases "e < 971")
    case True
    have "2 * a = of_int m * 2 powi (e + 1)"
      by (simp add: a(1) power_int_add)
    with a True show ?thesis
      unfolding is_double_def by (intro exI [of _ m] exI [of _ "e + 1"]) simp
  next
    case False
    with a(4) have e: "e = 971" by simp
    have "\<bar>m\<bar> < 2 ^ 52"
    proof (rule ccontr)
      assume "\<not> \<bar>m\<bar> < 2 ^ 52"
      then have "(2::int) ^ 52 \<le> \<bar>m\<bar>" by simp
      then have "(of_int (2 ^ 52) :: rat) \<le> of_int \<bar>m\<bar>" by (simp only: of_int_le_iff)
      then have "(of_int (2 ^ 52) :: rat) * 2 powi 972 \<le> of_int \<bar>m\<bar> * 2 powi 972"
        by (intro mult_right_mono) simp_all
      moreover have "\<bar>2 * a\<bar> = of_int \<bar>m\<bar> * 2 powi 972"
        by (simp add: a(1) e abs_mult power_int_add)
      moreover have "(of_int (2 ^ 52) :: rat) * 2 powi 972 = 2 ^ 1024"
        by (simp add: powi_nat)
      ultimately show False using assms(2) by simp
    qed
    then have "\<bar>2 * m\<bar> < 2 ^ 53" by simp
    moreover have "2 * a = of_int (2 * m) * 2 powi 971"
      by (simp add: a(1) e)
    ultimately show ?thesis
      unfolding is_double_def by (intro exI [of _ "2 * m"] exI [of _ 971]) simp
  qed
qed

lemma rnd_overflow:
  assumes "2 ^ 1024 \<le> x"
  shows "rnd x = PInf"
proof -
  have x: "0 < x" "x \<noteq> 0" "\<bar>x\<bar> = x"
    using assms by (simp_all add: less_le_trans [of 0 "2 ^ 1024"])
  define e where "e = max (ilog2 \<bar>x\<bar> - 52) (- 1074)"
  have "(2::rat) powi 1024 \<le> x" using assms by (simp add: powi_nat)
  from ilog2_ge [OF x(1) this] have e_big: "972 \<le> e"
    by (simp add: e_def x(3))
  then have e52: "e = ilog2 x - 52" by (simp add: e_def x(3) max_def split: if_splits)
  have pw: "(2::rat) powi (e + 52) = of_int (2 ^ 52) * 2 powi e"
    by (simp add: power_int_add)
  have "(2::rat) powi (e + 52) \<le> x"
    using ilog2_bounds(1) [OF x(1)] by (simp add: e52)
  then have "of_int (2 ^ 52) * 2 powi e \<le> x" unfolding pw .
  then have "of_int (2 ^ 52) \<le> x / (2::rat) powi e"
    by (simp only: pos_le_divide_eq [OF powi_pos])
  then have "2 ^ 52 \<le> round_half_even (x / 2 powi e)" by (rule rhe_ge)
  then have "(of_int (2 ^ 52) :: rat) \<le> of_int (round_half_even (x / 2 powi e))"
    by (simp only: of_int_le_iff)
  then have "of_int (2 ^ 52) * (2::rat) powi e \<le> of_int (round_half_even (x / 2 powi e)) * 2 powi e"
    by (intro mult_right_mono) simp_all
  moreover have "(2::rat) powi 1024 \<le> 2 powi (e + 52)"
    using e_big by (intro power_int_increasing) simp_all
  ultimately have "2 ^ 1024 \<le> of_int (round_half_even (x / 2 powi e)) * (2::rat) powi e"
    unfolding pw [symmetric] by (simp add: powi_nat)
  then show ?thesis
    using x(2) by (simp add: rnd_def Let_def e_def [symmetric])
qed


lemma rnd_overflow_neg:
  assumes "x \<le> - (2 ^ 1024)"
  shows "rnd x = NInf"
proof -
  have x: "x < 0" "x \<noteq> 0" "\<bar>x\<bar> = - x"
    using assms by (simp_all add: le_less_trans [of x "- (2 ^ 1024)" 0])
  define e where "e = max (ilog2 \<bar>x\<bar> - 52) (- 1074)"
  have ax: "0 < \<bar>x\<bar>" using x by simp
  have "(2::rat) powi 1024 \<le> \<bar>x\<bar>" using assms x by (simp add: powi_nat)
  from ilog2_ge [OF ax this] have e_big: "972 \<le> e"
    by (simp add: e_def)
  then have e52: "e = ilog2 \<bar>x\<bar> - 52" by (simp add: e_def max_def split: if_splits)
  have pw: "- ((2::rat) powi (e + 52)) = of_int (- (2 ^ 52)) * 2 powi e"
    by (simp add: power_int_add)
  have "(2::rat) powi (e + 52) \<le> \<bar>x\<bar>"
    using ilog2_bounds(1) [OF ax] by (simp add: e52)
  then have "x \<le> - ((2::rat) powi (e + 52))" using x by simp
  then have "x \<le> of_int (- (2 ^ 52)) * 2 powi e" unfolding pw .
  then have "x / (2::rat) powi e \<le> of_int (- (2 ^ 52))"
    by (simp only: pos_divide_le_eq [OF powi_pos])
  then have "round_half_even (x / 2 powi e) \<le> - (2 ^ 52)" by (rule rhe_le)
  then have "(of_int (round_half_even (x / 2 powi e)) :: rat) \<le> of_int (- (2 ^ 52))"
    by (simp only: of_int_le_iff)
  then have "of_int (round_half_even (x / 2 powi e)) * 2 powi e \<le> of_int (- (2 ^ 52)) * (2::rat) powi e"
    by (intro mult_right_mono) simp_all
  moreover have "(2::rat) powi 1024 \<le> 2 powi (e + 52)"
    using e_big by (intro power_int_increasing) simp_all
  ultimately have le: "of_int (round_half_even (x / 2 powi e)) * (2::rat) powi e \<le> - (2 ^ 1024)"
    unfolding pw [symmetric] by (simp add: powi_nat)
  then have "\<not> 2 ^ 1024 \<le> of_int (round_half_even (x / 2 powi e)) * (2::rat) powi e"
    by simp
  with le show ?thesis
    using x(2) by (simp add: rnd_def Let_def e_def [symmetric])
qed

lemma half_sum_between:
  assumes a: "is_double a" and b: "is_double b" and ab: "a \<le> b" and s: "rnd (a + b) = Fin s"
  shows "num_le (Fin a) (rnd (s / 2)) \<and> num_le (rnd (s / 2)) (Fin b)"
proof
  from rnd_finite_bound [OF s] have sb: "- (2 ^ 1024) < s" "s < 2 ^ 1024" by simp_all
  have "2 * a \<le> s"
  proof (cases "\<bar>2 * a\<bar> < 2 ^ 1024")
    case True
    from double_twice [OF a True] have "is_double (2 * a)" .
    moreover have "2 * a \<le> a + b" using ab by simp
    ultimately have "num_le (Fin (2 * a)) (rnd (a + b))" by (rule rnd_lower)
    then show ?thesis by (simp add: s)
  next
    case False
    then consider "2 ^ 1024 \<le> 2 * a" | "2 * a \<le> - (2 ^ 1024)" by fastforce
    then show ?thesis
    proof cases
      case 1
      with ab have "2 ^ 1024 \<le> a + b" by simp
      from rnd_overflow [OF this] s show ?thesis by simp
    next
      case 2
      with sb show ?thesis by simp
    qed
  qed
  then have "a \<le> s / 2" by simp
  with a show "num_le (Fin a) (rnd (s / 2))" by (rule rnd_lower)
  have "s \<le> 2 * b"
  proof (cases "\<bar>2 * b\<bar> < 2 ^ 1024")
    case True
    from double_twice [OF b True] have "is_double (2 * b)" .
    moreover have "a + b \<le> 2 * b" using ab by simp
    ultimately have "num_le (rnd (a + b)) (Fin (2 * b))" by (rule rnd_upper)
    then show ?thesis by (simp add: s)
  next
    case False
    then consider "2 ^ 1024 \<le> 2 * b" | "2 * b \<le> - (2 ^ 1024)" by fastforce
    then show ?thesis
    proof cases
      case 1
      with sb show ?thesis by simp
    next
      case 2
      with ab have "a + b \<le> - (2 ^ 1024)" by simp
      from rnd_overflow_neg [OF this] s show ?thesis by simp
    qed
  qed
  then have "s / 2 \<le> b" by simp
  with b show "num_le (rnd (s / 2)) (Fin b)" by (rule rnd_upper)
qed

lemma double_grid:
  assumes "is_double x"
  shows "\<exists>k. x = of_int k * 2 powi (- 1074)"
proof -
  from assms obtain m e where x: "x = of_int m * 2 powi e" "- 1074 \<le> e"
    by (auto simp: is_double_def)
  from grid_multiple [OF x(2), of m] x(1) show ?thesis by blast
qed

lemma double_gap:
  assumes "is_double x" and "is_double y" and "y < x"
  shows "2 powi (- 1074) \<le> x - y"
proof -
  from double_grid [OF assms(1)] obtain kx where kx: "x = of_int kx * 2 powi (- 1074)" ..
  from double_grid [OF assms(2)] obtain ky where ky: "y = of_int ky * 2 powi (- 1074)" ..
  from assms(3) have "(of_int ky :: rat) < of_int kx"
    unfolding kx ky by (simp add: mult_less_cancel_right)
  then have "ky < kx" by (simp only: of_int_less_iff)
  then have "1 \<le> kx - ky" by simp
  then have "(of_int 1 :: rat) \<le> of_int (kx - ky)" by (simp only: of_int_le_iff)
  then have "(of_int 1 :: rat) * 2 powi (- 1074) \<le> of_int (kx - ky) * 2 powi (- 1074)"
    by (intro mult_right_mono) simp_all
  then show ?thesis
    unfolding kx ky by (simp add: algebra_simps)
qed

lemma is_double_tiny: "is_double (2 powi (- 1074))"
  unfolding is_double_def by (rule exI [of _ 1], rule exI [of _ "- 1074"]) simp

lemma num_cmp_le:
  assumes "num_ok a" and "num_ok b" and "a \<noteq> NaN" and "b \<noteq> NaN"
  shows "(num_cmp a b \<le> 0) = num_le a b"
proof (cases a)
  case NaN
  with assms show ?thesis by simp
next
  case NInf
  with assms show ?thesis by (cases b) (simp_all add: num_cmp_def fsub_def)
next
  case PInf
  with assms show ?thesis by (cases b) (simp_all add: num_cmp_def fsub_def)
next
  case (Fin x)
  note a = this
  show ?thesis
  proof (cases b)
    case (Fin y)
    with a assms have dx: "is_double x" and dy: "is_double y" by simp_all
    show ?thesis
    proof (cases "x \<le> y")
      case True
      then have "x - y \<le> 0" by simp
      with is_double_0 have "num_le (rnd (x - y)) (Fin 0)" by (rule rnd_upper)
      then have "num_cmp a b \<le> 0"
        by (cases "rnd (x - y)") (simp_all add: num_cmp_def fsub_def a Fin)
      with True show ?thesis by (simp add: a Fin)
    next
      case False
      then have "y < x" by simp
      from double_gap [OF dx dy this] have "2 powi (- 1074) \<le> x - y" .
      with is_double_tiny have "num_le (Fin (2 powi (- 1074))) (rnd (x - y))" by (rule rnd_lower)
      moreover have "0 < (2::rat) powi (- 1074)" by simp
      ultimately have "\<not> num_cmp a b \<le> 0"
        by (cases "rnd (x - y)") (auto simp: num_cmp_def fsub_def a Fin)
      with False show ?thesis by (simp add: a Fin)
    qed
  qed (use a assms in \<open>simp_all add: num_cmp_def fsub_def\<close>)
qed


section \<open>Sorting with a comparator\<close>

lemma set_insert_by [simp]: "set (insert_by cmp x xs) = insert x (set xs)"
  by (induction xs) auto

lemma length_insert_by [simp]: "length (insert_by cmp x xs) = Suc (length xs)"
  by (induction xs) auto

lemma set_sort_by [simp]: "set (sort_by cmp xs) = set xs"
  by (induction xs) (simp_all add: sort_by_def)

lemma length_sort_by [simp]: "length (sort_by cmp xs) = length xs"
  by (induction xs) (simp_all add: sort_by_def)

lemma sorted_insert_by:
  assumes cmp: "\<And>a b. a \<in> S \<Longrightarrow> b \<in> S \<Longrightarrow> (cmp a b \<le> 0) = le a b"
    and total: "\<And>a b. a \<in> S \<Longrightarrow> b \<in> S \<Longrightarrow> le a b \<or> le b a"
    and trans: "\<And>a b c. le a b \<Longrightarrow> le b c \<Longrightarrow> le a c"
    and "x \<in> S" and "set xs \<subseteq> S" and "sorted_wrt le xs"
  shows "sorted_wrt le (insert_by cmp x xs)"
  using assms(4-)
proof (induction xs)
  case Nil
  then show ?case by simp
next
  case (Cons y ys)
  then have y: "y \<in> S" and ys: "set ys \<subseteq> S" and sorted_ys: "sorted_wrt le ys"
    and above: "\<forall>z \<in> set ys. le y z"
    by simp_all
  show ?case
  proof (cases "cmp x y \<le> 0")
    case True
    with cmp [OF Cons.prems(1) y] have xy: "le x y" by simp
    with above trans have "\<forall>z \<in> set ys. le x z" by blast
    with xy True Cons.prems(3) show ?thesis by simp
  next
    case False
    with cmp [OF Cons.prems(1) y] have "\<not> le x y" by simp
    with total [OF Cons.prems(1) y] have "le y x" by blast
    with above False Cons.IH [OF Cons.prems(1) ys sorted_ys] show ?thesis by simp
  qed
qed

lemma sorted_sort_by:
  assumes cmp: "\<And>a b. a \<in> S \<Longrightarrow> b \<in> S \<Longrightarrow> (cmp a b \<le> 0) = le a b"
    and total: "\<And>a b. a \<in> S \<Longrightarrow> b \<in> S \<Longrightarrow> le a b \<or> le b a"
    and trans: "\<And>a b c. le a b \<Longrightarrow> le b c \<Longrightarrow> le a c"
    and "set xs \<subseteq> S"
  shows "sorted_wrt le (sort_by cmp xs)"
  using assms(4)
proof (induction xs)
  case Nil
  then show ?case by (simp add: sort_by_def)
next
  case (Cons x xs)
  then have x: "x \<in> S" and xs: "set xs \<subseteq> S" by simp_all
  have "sorted_wrt le (insert_by cmp x (sort_by cmp xs))"
    using cmp total trans x
  proof (rule sorted_insert_by)
    show "set (sort_by cmp xs) \<subseteq> S" using xs by simp
    show "sorted_wrt le (sort_by cmp xs)" using xs by (rule Cons.IH)
  qed
  then show ?case by (simp add: sort_by_def)
qed

lemma num_le_refl: "a \<noteq> NaN \<Longrightarrow> num_le a a"
  by (cases a) simp_all

lemma num_le_total: "a \<noteq> NaN \<Longrightarrow> b \<noteq> NaN \<Longrightarrow> num_le a b \<or> num_le b a"
  by (cases a; cases b) auto

lemma num_le_trans: "num_le a b \<Longrightarrow> num_le b c \<Longrightarrow> num_le a c"
  by (cases a; cases b; cases c) auto

lemma sorted_numbers:
  assumes "\<forall>a \<in> set vals. num_ok a \<and> a \<noteq> NaN"
  shows "sorted_wrt num_le (sort_by num_cmp vals)"
proof (rule sorted_sort_by [where S = "{a. num_ok a \<and> a \<noteq> NaN}"])
  show "(num_cmp a b \<le> 0) = num_le a b"
    if "a \<in> {a. num_ok a \<and> a \<noteq> NaN}" "b \<in> {a. num_ok a \<and> a \<noteq> NaN}" for a b
    using that by (simp add: num_cmp_le)
  show "num_le a b \<or> num_le b a"
    if "a \<in> {a. num_ok a \<and> a \<noteq> NaN}" "b \<in> {a. num_ok a \<and> a \<noteq> NaN}" for a b
    using that by (simp add: num_le_total)
  show "num_le a c" if "num_le a b" "num_le b c" for a b c
    using that by (rule num_le_trans)
  show "set vals \<subseteq> {a. num_ok a \<and> a \<noteq> NaN}"
    using assms by auto
qed

lemma sorted_dates: "sorted (map date (sort_by date_cmp ps))"
proof -
  have "sorted_wrt (\<lambda>a b. date a \<le> date b) (sort_by date_cmp ps)"
  proof (rule sorted_sort_by [where S = UNIV])
    show "(date_cmp a b \<le> 0) = (date a \<le> date b)" for a b
      by (auto simp: date_cmp_def)
    show "date a \<le> date b \<or> date b \<le> date a" for a b
      by auto
    show "date a \<le> date c" if "date a \<le> date b" "date b \<le> date c" for a b c
      using that by simp
  qed simp
  then show ?thesis by (simp add: sorted_map)
qed

section \<open>The statistics of a field\<close>

lemma is_double_int: "\<bar>k\<bar> < 2 ^ 53 \<Longrightarrow> is_double (of_int k)"
  unfolding is_double_def by (rule exI [of _ k], rule exI [of _ 0]) simp

lemma map_throwing_total:
  assumes "\<And>x. x \<in> set xs \<Longrightarrow> \<exists>y. f x = Inr y"
  shows "\<exists>ys. map_throwing f xs = Inr ys"
  using assms
proof (induction xs)
  case Nil
  then show ?case by simp
next
  case (Cons x xs)
  from Cons.prems [of x] obtain y where "f x = Inr y" by auto
  moreover from Cons.IH Cons.prems obtain ys where "map_throwing f xs = Inr ys" by auto
  ultimately show ?case by simp
qed

lemma map_throwing_Inl:
  "map_throwing f xs = Inl e \<Longrightarrow> \<exists>x \<in> set xs. f x = Inl e"
  by (induction xs) (auto split: sum.splits)

lemma map_throwing_throws:
  "(\<exists>e. map_throwing f xs = Inl e) = (\<exists>x \<in> set xs. \<exists>e. f x = Inl e)"
  by (induction xs) (auto split: sum.splits)

lemma Number_throws:
  "(\<exists>e. Number env raw = Inl e) = (case raw of Some (Value j) \<Rightarrow> unprintable j | _ \<Rightarrow> False)"
  by (simp add: Number_def to_number_def split: option.splits jsval.splits)

lemma raw_value_cases:
  obtains "v = JNull" and "raw_value env v key = Inl TypeError"
  | raw where "v \<noteq> JNull" and "raw_value env v key = Inr raw"
  by (cases "v = JNull") (simp_all add: raw_value_def)

lemma numeric_value_throws:
  "(\<exists>e. numeric_value env key v = Inl e) = (v = JNull \<or> unconvertible env key v)"
proof (cases rule: raw_value_cases [of v env key])
  case 1
  then show ?thesis by (simp add: numeric_value_def)
next
  case (2 raw)
  have "(\<exists>e. numeric_value env key v = Inl e) = (\<exists>e. Number env raw = Inl e)"
    by (auto simp: numeric_value_def 2 split: sum.splits)
  also have "\<dots> = unconvertible env key v"
    by (simp add: Number_throws unconvertible_def 2 split: option.splits jsval.splits)
  finally show ?thesis using 2 by simp
qed

lemma numeric_value_Some:
  "numeric_value env key v = Inr y \<Longrightarrow> has_metric env key v = (y \<noteq> None)"
  by (auto simp: numeric_value_def has_metric_def split: sum.splits if_splits)

lemma holds_number_metric:
  assumes "holds_number key v"
  shows "has_metric env key v"
proof -
  from assms obtain n where n: "jprop v key = Some (JNum n)" "n \<noteq> NaN"
    by (auto simp: holds_number_def split: option.splits json.splits)
  then have "v \<noteq> JNull" by auto
  then have "raw_value env v key = Inr (Some (Value (JNum n)))"
    by (simp add: raw_value_def member_def coalesce_val_def n)
  then show ?thesis by (simp add: has_metric_def Number_def to_number_def n)
qed

lemma filter_length_mono:
  "(\<And>x. x \<in> set xs \<Longrightarrow> P x \<Longrightarrow> Q x) \<Longrightarrow> length (filter P xs) \<le> length (filter Q xs)"
  by (induction xs) auto

lemma numeric_count:
  "map_throwing (numeric_value env key) vids = Inr ns \<Longrightarrow>
     length (somes ns) = length (filter (has_metric env key) vids)"
proof (induction vids arbitrary: ns)
  case Nil
  then show ?case by simp
next
  case (Cons v vids)
  then obtain y ys where y: "numeric_value env key v = Inr y"
    and ys: "map_throwing (numeric_value env key) vids = Inr ys" and ns: "ns = y # ys"
    by (auto split: sum.splits)
  from Cons.IH [OF ys] numeric_value_Some [OF y] show ?case
    by (cases y) (simp_all add: ns)
qed

lemma numeric_not_NaN:
  "map_throwing (numeric_value env key) vids = Inr ns \<Longrightarrow> NaN \<notin> set (somes ns)"
proof (induction vids arbitrary: ns)
  case Nil
  then show ?case by simp
next
  case (Cons v vids)
  then obtain y ys where y: "numeric_value env key v = Inr y"
    and ys: "map_throwing (numeric_value env key) vids = Inr ys" and ns: "ns = y # ys"
    by (auto split: sum.splits)
  from y have "y \<noteq> Some NaN"
    by (auto simp: numeric_value_def split: sum.splits if_splits)
  with Cons.IH [OF ys] show ?case
    by (cases y) (simp_all add: ns)
qed

lemma stats_ok_cases:
  assumes "computeStatsJsonTool env cj field = Inr (ToolOk r)"
  obtains ns where "getVideos cj \<noteq> []"
    and "map_throwing (numeric_value env (key_of field)) (getVideos cj) = Inr ns"
    and "somes ns \<noteq> []" and "numeric_values env cj field = somes ns"
    and "r = stats_of env field (somes ns)"
  using assms
  by (auto simp: computeStatsJsonTool_def numeric_values_def Let_def split: if_splits sum.splits)

lemma sorted_ends:
  assumes good: "\<forall>a \<in> set vals. num_ok a \<and> a \<noteq> NaN" and i: "i < length vals"
  shows "num_le (sort_by num_cmp vals ! 0) (sort_by num_cmp vals ! i)"
    and "num_le (sort_by num_cmp vals ! i) (sort_by num_cmp vals ! (length vals - 1))"
proof -
  let ?sv = "sort_by num_cmp vals"
  have sorted_sv: "sorted_wrt num_le ?sv" using good by (rule sorted_numbers)
  have len: "length ?sv = length vals" by simp
  have "?sv ! i \<in> set ?sv" using i by (simp del: set_sort_by)
  then have ok: "?sv ! i \<noteq> NaN" using good by auto
  show "num_le (?sv ! 0) (?sv ! i)"
  proof (cases "i = 0")
    case True
    with ok show ?thesis by (simp add: num_le_refl)
  next
    case False
    then have "0 < i" by simp
    with sorted_sv i show ?thesis by (simp add: sorted_wrt_nth_less)
  qed
  show "num_le (?sv ! i) (?sv ! (length vals - 1))"
  proof (cases "i = length vals - 1")
    case True
    with ok show ?thesis by (simp add: num_le_refl)
  next
    case False
    with i have "i < length vals - 1" by simp
    with sorted_sv i show ?thesis by (simp add: sorted_wrt_nth_less)
  qed
qed

lemma fadd_finite:
  assumes "fadd a b = Fin s"
  obtains x y where "a = Fin x" and "b = Fin y" and "rnd (x + y) = Fin s"
  using assms by (cases a; cases b) simp_all

lemma median_between:
  assumes good: "\<forall>a \<in> set vals. num_ok a \<and> a \<noteq> NaN" and "vals \<noteq> []"
    and mid: "odd (length vals) \<or> is_fin (middle_sum vals)"
  shows "num_le (minimum (stats_of env field vals)) (median (stats_of env field vals))
       \<and> num_le (median (stats_of env field vals)) (maximum (stats_of env field vals))"
proof (cases "odd (length vals)")
  case True
  then have "(length vals - 1) div 2 < length vals" by (cases "length vals") simp_all
  from sorted_ends [OF good this] True show ?thesis
    by (simp add: stats_of_def Let_def odd_iff_mod_2_eq_one)
next
  case False
  let ?sv = "sort_by num_cmp vals" and ?n = "length vals"
  have "?n \<noteq> 0" using assms(2) by simp
  moreover have "?n \<noteq> 1" using False by auto
  ultimately have n2: "2 \<le> ?n" by arith
  from False have even: "?n mod 2 = 0" by presburger
  have i: "?n div 2 - 1 < ?n" and j: "?n div 2 < ?n" and ij: "?n div 2 - 1 < ?n div 2"
    using n2 by simp_all
  from False mid obtain s where s: "middle_sum vals = Fin s"
    by (cases "middle_sum vals") simp_all
  then have "fadd (?sv ! (?n div 2 - 1)) (?sv ! (?n div 2)) = Fin s"
    by (simp add: middle_sum_def)
  then obtain x y where x: "?sv ! (?n div 2 - 1) = Fin x" and y: "?sv ! (?n div 2) = Fin y"
    and r: "rnd (x + y) = Fin s"
    by (rule fadd_finite)
  have "?sv ! (?n div 2 - 1) \<in> set ?sv" "?sv ! (?n div 2) \<in> set ?sv"
    using i j by (simp_all del: set_sort_by)
  with good x y have dx: "is_double x" and dy: "is_double y" by auto
  have "sorted_wrt num_le ?sv" using good by (rule sorted_numbers)
  with ij j have "num_le (?sv ! (?n div 2 - 1)) (?sv ! (?n div 2))"
    by (simp add: sorted_wrt_nth_less)
  then have xy: "x \<le> y" unfolding x y by simp
  from half_sum_between [OF dx dy xy r]
  have m: "num_le (Fin x) (rnd (s / 2))" "num_le (rnd (s / 2)) (Fin y)" by simp_all
  have med: "median (stats_of env field vals) = rnd (s / 2)"
    by (simp add: stats_of_def Let_def even s)
  have lo: "num_le (?sv ! 0) (Fin x)" using sorted_ends(1) [OF good i] unfolding x .
  have hi: "num_le (Fin y) (?sv ! (?n - 1))" using sorted_ends(2) [OF good j] unfolding y .
  have mn: "minimum (stats_of env field vals) = ?sv ! 0"
    by (simp add: stats_of_def Let_def)
  have mx: "maximum (stats_of env field vals) = ?sv ! (?n - 1)"
    by (simp add: stats_of_def Let_def)
  from num_le_trans [OF lo m(1)] num_le_trans [OF m(2) hi] show ?thesis
    unfolding med mn mx by (rule conjI)
qed

lemma sum_ints_exact:
  "\<bar>a\<bar> + sum_list (map abs ks) < 2 ^ 53 \<Longrightarrow>
     foldl fadd (Fin (of_int a)) (map (\<lambda>k. Fin (of_int k)) ks) = Fin (of_int (a + sum_list ks))"
proof (induction ks arbitrary: a)
  case Nil
  then show ?case by simp
next
  case (Cons k ks)
  have "\<bar>a + k\<bar> < 2 ^ 53" using Cons.prems sum_list_abs [of ks] by simp
  then have "is_double (of_int (a + k))" by (rule is_double_int)
  then have d: "is_double (of_int a + of_int k)" by simp
  have "\<bar>a + k\<bar> + sum_list (map abs ks) < 2 ^ 53" using Cons.prems by simp
  from Cons.IH [OF this] show ?case by (simp add: d add.assoc)
qed

lemma fin_val_ints:
  "sum_list (map (fin_val \<circ> (\<lambda>k. Fin (of_int k))) ks) = of_int (sum_list ks)"
  by (induction ks) simp_all

lemma ints_exact:
  assumes "sum_list (map abs ks) < 2 ^ 53"
  shows "exact_sum (map (\<lambda>k. Fin (of_int k)) ks)"
proof -
  have "foldl fadd (Fin (of_int 0)) (map (\<lambda>k. Fin (of_int k)) ks) = Fin (of_int (0 + sum_list ks))"
    using assms by (intro sum_ints_exact) simp
  then show ?thesis by (simp add: exact_sum_def fin_val_ints list_all_iff)
qed

lemma sum_list_bounds:
  fixes f :: "'a \<Rightarrow> rat"
  assumes "\<And>x. x \<in> set xs \<Longrightarrow> a \<le> f x \<and> f x \<le> b"
  shows "of_nat (length xs) * a \<le> sum_list (map f xs)"
    and "sum_list (map f xs) \<le> of_nat (length xs) * b"
  using assms by (induction xs) (auto simp: algebra_simps add_mono)

lemma mean_between:
  assumes good: "\<forall>a \<in> set vals. num_ok a \<and> a \<noteq> NaN" and ne: "vals \<noteq> []"
    and exact: "exact_sum vals"
  shows "num_le (minimum (stats_of env field vals)) (mean (stats_of env field vals))
       \<and> num_le (mean (stats_of env field vals)) (maximum (stats_of env field vals))"
proof -
  let ?sv = "sort_by num_cmp vals" and ?n = "length vals"
  let ?S = "sum_list (map fin_val vals)"
  have pos: "0 < ?n" using ne by simp
  have fin: "\<forall>v \<in> set vals. is_fin v" and total: "foldl fadd (Fin 0) vals = Fin ?S"
    using exact by (simp_all add: exact_sum_def list_all_iff)
  have "?sv ! 0 \<in> set ?sv" "?sv ! (?n - 1) \<in> set ?sv" using pos by (simp_all del: set_sort_by)
  then have ends: "?sv ! 0 \<in> set vals" "?sv ! (?n - 1) \<in> set vals" by simp_all
  with fin obtain a b where a: "?sv ! 0 = Fin a" and b: "?sv ! (?n - 1) = Fin b"
    by (metis is_fin.elims(2))
  from ends good a b have da: "is_double a" and db: "is_double b" by auto
  have each: "a \<le> fin_val v \<and> fin_val v \<le> b" if "v \<in> set vals" for v
  proof -
    from that have "v \<in> set ?sv" by simp
    then have "\<exists>i < length ?sv. ?sv ! i = v" by (simp only: in_set_conv_nth)
    then obtain i where i: "i < ?n" and v: "v = ?sv ! i" by auto
    from that fin obtain x where x: "v = Fin x" by (metis is_fin.elims(2))
    from sorted_ends [OF good i]
    have "num_le (?sv ! 0) v" and "num_le v (?sv ! (?n - 1))" unfolding v by blast+
    then show ?thesis unfolding a b x by simp
  qed
  have n: "(0::rat) < of_nat ?n" using pos by simp
  from sum_list_bounds [of vals a fin_val b] each
  have "of_nat ?n * a \<le> ?S" and "?S \<le> of_nat ?n * b" by simp_all
  then have lo: "a \<le> ?S / of_nat ?n" and hi: "?S / of_nat ?n \<le> b"
    using n by (simp_all add: pos_le_divide_eq pos_divide_le_eq mult.commute)
  have avg: "mean (stats_of env field vals) = rnd (?S / of_nat ?n)"
    using pos by (simp add: stats_of_def Let_def total)
  have mn: "minimum (stats_of env field vals) = Fin a"
    by (simp add: stats_of_def Let_def a)
  have mx: "maximum (stats_of env field vals) = Fin b"
    using b by (simp add: stats_of_def Let_def)
  from rnd_lower [OF da lo] rnd_upper [OF db hi] show ?thesis
    unfolding avg mn mx by (rule conjI)
qed

section \<open>Evaluating on doubles\<close>

lemma is_double_numeral [simp]: "numeral n < (2::int) ^ 53 \<Longrightarrow> is_double (numeral n)"
  using is_double_int [of "numeral n"] by simp

lemma is_double_1 [simp]: "is_double 1"
  using is_double_int [of 1] by simp

lemma is_double_dyadic:
  "\<bar>m\<bar> < 2 ^ 53 \<Longrightarrow> - 1074 \<le> e \<Longrightarrow> e \<le> 971 \<Longrightarrow> x = of_int m * 2 powi e \<Longrightarrow> is_double x"
  unfolding is_double_def by blast

lemma ilog2_eq:
  assumes "0 < x" and lo: "2 powi k \<le> x" and hi: "x < 2 powi (k + 1)"
  shows "ilog2 x = k"
proof -
  have "k \<le> ilog2 x" using assms(1) lo by (rule ilog2_ge)
  moreover have "ilog2 x < k + 1"
  proof (rule ccontr)
    assume "\<not> ilog2 x < k + 1"
    then have "(2::rat) powi (k + 1) \<le> 2 powi (ilog2 x)"
      by (simp add: power_int_increasing)
    with ilog2_bounds(1) [OF assms(1)] hi show False by simp
  qed
  ultimately show ?thesis by simp
qed

lemma rhe_nearest:
  assumes "of_int n - 1 / 2 < q" and "q < of_int n + 1 / 2"
  shows "round_half_even q = n"
proof (cases "of_int n \<le> q")
  case True
  then have "\<lfloor>q\<rfloor> = n" using assms(2) by (intro floor_unique) simp_all
  then show ?thesis using assms(2) by (simp add: round_half_even_def Let_def)
next
  case False
  then have "\<lfloor>q\<rfloor> = n - 1" using assms(1) by (intro floor_unique) simp_all
  then show ?thesis using assms(1) by (simp add: round_half_even_def Let_def)
qed

lemma rhe_tie:
  assumes "q = of_int n + 1 / 2"
  shows "round_half_even q = (if even n then n else n + 1)"
proof -
  have "\<lfloor>q\<rfloor> = n" using assms by (intro floor_unique) simp_all
  then show ?thesis using assms by (simp add: round_half_even_def Let_def)
qed

text \<open>Rounding a positive rational whose exponent is known.\<close>

lemma rnd_eval:
  assumes "0 < x" and "2 powi k \<le> x" and "x < 2 powi (k + 1)" and "- 1022 \<le> k"
    and m: "round_half_even (x / 2 powi (k - 52)) = m"
    and y: "y = of_int m * 2 powi (k - 52)" and "\<bar>y\<bar> < 2 ^ 1024"
  shows "rnd x = Fin y"
proof -
  have "ilog2 \<bar>x\<bar> = k" using assms(1-3) by (simp add: ilog2_eq)
  moreover have "max (k - 52) (- 1074) = k - 52" using assms(4) by simp
  ultimately show ?thesis
    using assms(1,7) by (simp add: rnd_def Let_def m y [symmetric] abs_less_iff not_le)
qed

lemma num_ok_tenth: "num_ok tenth"
  unfolding tenth_def num_ok.simps
  by (rule is_double_dyadic [of 3602879701896397 "- 55"]) (simp_all add: power_int_minus)

lemma sum_of_tenths:
  "foldl fadd (Fin 0) [tenth, tenth, tenth] = Fin (1351079888211149 / 4503599627370496)"
proof -
  have t: "is_double (3602879701896397 / 36028797018963968)"
    using num_ok_tenth by (simp add: tenth_def)
  have t2: "is_double (3602879701896397 / 18014398509481984)"
    by (rule is_double_dyadic [of 3602879701896397 "- 54"]) (simp_all add: power_int_minus)
  have t3: "rnd (10808639105689191 / 36028797018963968)
              = Fin (1351079888211149 / 4503599627370496)"
    by (rule rnd_eval [of _ "- 2" 5404319552844596])
       (simp_all add: power_int_minus rhe_tie [of _ 5404319552844595])
  show ?thesis by (simp add: tenth_def t t2 t3)
qed

lemma mean_of_tenths:
  "fdiv (Fin (1351079888211149 / 4503599627370496)) (Fin 3)
     = Fin (7205759403792795 / 72057594037927936)"
proof -
  have "rnd (1351079888211149 / 4503599627370496 / 3)
          = Fin (7205759403792795 / 72057594037927936)"
    by (rule rnd_eval [of _ "- 4" 7205759403792795])
       (simp_all add: power_int_minus rhe_nearest)
  then show ?thesis by simp
qed

lemma sort_sample_views:
  "sort_by num_cmp [Fin 3, Fin 10, Fin 4, Fin 7] = [Fin 3, Fin 4, Fin 7, Fin 10]"
  by (simp add: sort_by_def num_cmp_def fsub_def)

lemma sort_tenths: "sort_by num_cmp [tenth, tenth, tenth] = [tenth, tenth, tenth]"
  by (simp add: sort_by_def num_cmp_def fsub_def tenth_def)

lemma stats_of_numeric:
  assumes "map_throwing (numeric_value env (key_of field)) (getVideos cj) = Inr ns"
    and "getVideos cj \<noteq> []" and "somes ns \<noteq> []"
  shows "computeStatsJsonTool env cj field = Inr (ToolOk (stats_of env field (somes ns)))"
    and "numeric_values env cj field = somes ns"
  using assms by (simp_all add: computeStatsJsonTool_def numeric_values_def Let_def)

lemma sample_channel_videos:
  "map_throwing (numeric_value sample_builtins (key_of (Some (js ''view_count''))))
     (getVideos sample_channel)
     = Inr [Some (Fin 3), Some (Fin 10), Some (Fin 4), None, Some (Fin 7)]"
  "getVideos sample_channel \<noteq> []"
  by code_simp+

lemma tenth_channel_videos:
  "map_throwing (numeric_value sample_builtins (key_of (Some (js ''view_count''))))
     (getVideos tenth_channel)
     = Inr [Some tenth, Some tenth, Some tenth]"
  "getVideos tenth_channel \<noteq> []"
  by code_simp+

lemma true_channel_videos:
  "map_throwing (numeric_value sample_builtins (key_of (Some (js ''view_count''))))
     (getVideos true_channel)
     = Inr [Some (Fin 1)]"
  "getVideos true_channel \<noteq> []"
  "filter (holds_number (js ''view_count'')) (getVideos true_channel) = []"
  by code_simp+

lemma sample_views_double: "list_all num_ok [Fin 3, Fin 10, Fin 4, Fin 7]"
  by simp

text \<open>
  C4, as the code has it. Let the column-stats computation succeed, on numbers that are
  doubles. Then \<open>count\<close> is the number of videos for which the value the tool reads
  converts to a number that is not NaN, and is at least the number of videos that hold a
  number under the key; \<open>min\<close> and \<open>max\<close> bound every value (so min is at most max); the
  median lies between them whenever the count is odd or the sum of the two middle values
  is finite; and the mean lies between them whenever the sum of the values is exact, as
  it is for integers whose magnitudes add up to less than \<open>2 ^ 53\<close>.
\<close>

theorem stats_within_bounds:
  assumes ok: "computeStatsJsonTool env cj field = Inr (ToolOk r)"
    and doubles: "list_all num_ok (numeric_values env cj field)"
  shows "count r = length (filter (has_metric env (key_of field)) (getVideos cj))
       \<and> length (filter (holds_number (key_of field)) (getVideos cj)) \<le> count r
       \<and> num_le (minimum r) (maximum r)
       \<and> (\<forall>v \<in> set (numeric_values env cj field). num_le (minimum r) v \<and> num_le v (maximum r))
       \<and> (odd (count r) \<or> is_fin (middle_sum (numeric_values env cj field)) \<longrightarrow>
            num_le (minimum r) (median r) \<and> num_le (median r) (maximum r))
       \<and> (exact_sum (numeric_values env cj field) \<longrightarrow>
            num_le (minimum r) (mean r) \<and> num_le (mean r) (maximum r))
       \<and> (\<forall>ks. numeric_values env cj field = map (\<lambda>k. Fin (of_int k)) ks
                 \<and> sum_list (map abs ks) < 2 ^ 53 \<longrightarrow>
               num_le (minimum r) (mean r) \<and> num_le (mean r) (maximum r))"
proof -
  from ok obtain ns where vids: "getVideos cj \<noteq> []"
    and ns: "map_throwing (numeric_value env (key_of field)) (getVideos cj) = Inr ns"
    and some: "somes ns \<noteq> []" and vals: "numeric_values env cj field = somes ns"
    and r: "r = stats_of env field (somes ns)"
    by (rule stats_ok_cases)
  let ?vals = "somes ns" and ?sv = "sort_by num_cmp (somes ns)"
  have good: "\<forall>a \<in> set ?vals. num_ok a \<and> a \<noteq> NaN"
    using doubles numeric_not_NaN [OF ns] by (auto simp: vals list_all_iff)
  have cnt: "count r = length ?vals" by (simp add: r stats_of_def Let_def)
  have mn: "minimum r = ?sv ! 0" by (simp add: r stats_of_def Let_def)
  have mx: "maximum r = ?sv ! (length ?vals - 1)" by (simp add: r stats_of_def Let_def)
  have pos: "0 < length ?vals" using some by simp
  have c1: "count r = length (filter (has_metric env (key_of field)) (getVideos cj))"
    unfolding cnt using ns by (rule numeric_count)
  have c2: "length (filter (holds_number (key_of field)) (getVideos cj)) \<le> count r"
    unfolding c1 by (rule filter_length_mono) (rule holds_number_metric)
  have c3: "num_le (minimum r) (maximum r)"
  proof -
    have "length ?vals - 1 < length ?vals" using pos by simp
    from sorted_ends(1) [OF good this] show ?thesis by (simp add: mn mx)
  qed
  have c4: "num_le (minimum r) v \<and> num_le v (maximum r)" if "v \<in> set ?vals" for v
  proof -
    from that have "v \<in> set ?sv" by simp
    then have "\<exists>i < length ?sv. ?sv ! i = v" by (simp only: in_set_conv_nth)
    then obtain i where i: "i < length ?vals" and v: "v = ?sv ! i" by auto
    from sorted_ends [OF good i] show ?thesis by (simp add: mn mx v)
  qed
  have c5: "num_le (minimum r) (median r) \<and> num_le (median r) (maximum r)"
    if "odd (count r) \<or> is_fin (middle_sum ?vals)"
    unfolding r using good some that [unfolded cnt] by (rule median_between)
  have c6: "num_le (minimum r) (mean r) \<and> num_le (mean r) (maximum r)" if "exact_sum ?vals"
    unfolding r using good some that by (rule mean_between)
  have c7: "num_le (minimum r) (mean r) \<and> num_le (mean r) (maximum r)"
    if "?vals = map (\<lambda>k. Fin (of_int k)) ks" "sum_list (map abs ks) < 2 ^ 53" for ks
  proof -
    from ints_exact [OF that(2)] have "exact_sum ?vals" by (simp only: that(1))
    then show ?thesis by (rule c6)
  qed
  from c1 c2 c3 c4 c5 c6 c7 show ?thesis unfolding vals by blast
qed

text \<open>The theorem at the sample channel, whose view counts are 3, 10, 4 and 7 (the fourth
  video has text for a view count).\<close>

theorem stats_within_bounds_witness:
  "count (stats_of sample_builtins (Some (js ''view_count'')) [Fin 3, Fin 10, Fin 4, Fin 7]) = 4
   \<and> minimum (stats_of sample_builtins (Some (js ''view_count'')) [Fin 3, Fin 10, Fin 4, Fin 7])
       = Fin 3
   \<and> maximum (stats_of sample_builtins (Some (js ''view_count'')) [Fin 3, Fin 10, Fin 4, Fin 7])
       = Fin 10
   \<and> num_le (Fin 3)
        (median (stats_of sample_builtins (Some (js ''view_count'')) [Fin 3, Fin 10, Fin 4, Fin 7]))
   \<and> num_le
        (median (stats_of sample_builtins (Some (js ''view_count'')) [Fin 3, Fin 10, Fin 4, Fin 7]))
        (Fin 10)
   \<and> num_le (Fin 3)
        (mean (stats_of sample_builtins (Some (js ''view_count'')) [Fin 3, Fin 10, Fin 4, Fin 7]))
   \<and> num_le
        (mean (stats_of sample_builtins (Some (js ''view_count'')) [Fin 3, Fin 10, Fin 4, Fin 7]))
        (Fin 10)"
proof -
  let ?r = "stats_of sample_builtins (Some (js ''view_count'')) [Fin 3, Fin 10, Fin 4, Fin 7]"
  have ok: "computeStatsJsonTool sample_builtins sample_channel (Some (js ''view_count''))
              = Inr (ToolOk ?r)"
    and vals: "numeric_values sample_builtins sample_channel (Some (js ''view_count''))
              = [Fin 3, Fin 10, Fin 4, Fin 7]"
    using stats_of_numeric [OF sample_channel_videos] by simp_all
  have fin: "is_fin (middle_sum [Fin 3, Fin 10, Fin 4, Fin 7])"
    by (simp add: middle_sum_def sort_sample_views)
  have cnt: "count ?r = 4" by (simp add: stats_of_def Let_def)
  have mn: "minimum ?r = Fin 3" by (simp add: stats_of_def Let_def sort_sample_views)
  have mx: "maximum ?r = Fin 10" by (simp add: stats_of_def Let_def sort_sample_views)
  note all = stats_within_bounds [OF ok, unfolded vals, OF sample_views_double]
  from all fin
  have med: "num_le (minimum ?r) (median ?r) \<and> num_le (median ?r) (maximum ?r)" by blast
  have avg: "num_le (minimum ?r) (mean ?r) \<and> num_le (mean ?r) (maximum ?r)"
    by (rule all [THEN conjunct2, THEN conjunct2, THEN conjunct2, THEN conjunct2, THEN conjunct2,
                  THEN conjunct2, rule_format, of "[3, 10, 4, 7]"])
       simp
  from med avg show ?thesis unfolding mn mx using cnt by simp
qed

text \<open>
  C4 as stated fails, twice. For three videos with one tenth of a view each, every value
  is a double, the sum of the three rounds up, and the mean the tool returns is above the
  maximum. For one video whose view count is \<^verbatim>\<open>true\<close>, no video holds a number, and the
  count is one.
\<close>

theorem mean_above_max_true_counted:
  "list_all num_ok (numeric_values sample_builtins tenth_channel (Some (js ''view_count'')))
   \<and> (\<exists>r. computeStatsJsonTool sample_builtins tenth_channel (Some (js ''view_count''))
              = Inr (ToolOk r)
          \<and> count r = 3 \<and> minimum r = tenth \<and> maximum r = tenth
          \<and> mean r = Fin (7205759403792795 / 72057594037927936)
          \<and> \<not> num_le (mean r) (maximum r))
   \<and> filter (holds_number (js ''view_count'')) (getVideos true_channel) = []
   \<and> (\<exists>r. computeStatsJsonTool sample_builtins true_channel (Some (js ''view_count''))
              = Inr (ToolOk r)
          \<and> count r = 1 \<and> minimum r = Fin 1)"
proof -
  let ?r = "stats_of sample_builtins (Some (js ''view_count'')) [tenth, tenth, tenth]"
  have ok: "computeStatsJsonTool sample_builtins tenth_channel (Some (js ''view_count''))
              = Inr (ToolOk ?r)"
    and vals: "numeric_values sample_builtins tenth_channel (Some (js ''view_count''))
              = [tenth, tenth, tenth]"
    using stats_of_numeric [OF tenth_channel_videos] by simp_all
  have cnt: "count ?r = 3" by (simp add: stats_of_def Let_def)
  have mn: "minimum ?r = tenth" by (simp add: stats_of_def Let_def sort_tenths)
  have mx: "maximum ?r = tenth" by (simp add: stats_of_def Let_def sort_tenths)
  have avg: "mean ?r = Fin (7205759403792795 / 72057594037927936)"
    by (simp add: stats_of_def Let_def sum_of_tenths [simplified] mean_of_tenths [simplified])
  have above: "\<not> num_le (Fin (7205759403792795 / 72057594037927936)) tenth"
    by (simp add: tenth_def)
  have first: "list_all num_ok (numeric_values sample_builtins tenth_channel (Some (js ''view_count'')))
   \<and> (\<exists>r. computeStatsJsonTool sample_builtins tenth_channel (Some (js ''view_count''))
              = Inr (ToolOk r)
          \<and> count r = 3 \<and> minimum r = tenth \<and> maximum r = tenth
          \<and> mean r = Fin (7205759403792795 / 72057594037927936)
          \<and> \<not> num_le (mean r) (maximum r))"
    unfolding vals ok using num_ok_tenth cnt mn mx avg above by simp
  let ?t = "stats_of sample_builtins (Some (js ''view_count'')) [Fin 1]"
  have "computeStatsJsonTool sample_builtins true_channel (Some (js ''view_count''))
          = Inr (ToolOk ?t)"
    using stats_of_numeric(1) [OF true_channel_videos(1,2)] by simp
  moreover have "count ?t = 1" "minimum ?t = Fin 1"
    by (simp_all add: stats_of_def Let_def sort_by_def)
  ultimately have second: "\<exists>r. computeStatsJsonTool sample_builtins true_channel (Some (js ''view_count''))
              = Inr (ToolOk r)
          \<and> count r = 1 \<and> minimum r = Fin 1"
    by simp
  from first true_channel_videos(3) second show ?thesis by blast
qed

text \<open>
  C5, as the code has it. The column-stats computation throws exactly when an entry of
  the video list is \<^verbatim>\<open>null\<close> or the value the tool reads from an entry does not convert
  to a primitive (an object with a member \<^verbatim>\<open>toString\<close> of its own, or an array that holds
  one). When it does not throw, it returns the error marker, with a message that says
  which, exactly when there is no video or no video has a numeric value for the field,
  and the statistics of the numeric values otherwise.
\<close>

theorem stats_error_marker:
  "((\<exists>e. computeStatsJsonTool env cj field = Inl e)
      = (\<exists>v \<in> set (getVideos cj). v = JNull \<or> unconvertible env (key_of field) v))
   \<and> (\<not> (\<exists>v \<in> set (getVideos cj). v = JNull \<or> unconvertible env (key_of field) v) \<longrightarrow>
        ((\<exists>msg. computeStatsJsonTool env cj field = Inr (ToolError msg))
           = (getVideos cj = [] \<or> numeric_values env cj field = []))
        \<and> (getVideos cj = [] \<longrightarrow>
             computeStatsJsonTool env cj field
               = Inr (ToolError (js ''No videos loaded. Please attach a YouTube channel JSON file first.'')))
        \<and> (getVideos cj \<noteq> [] \<and> numeric_values env cj field = [] \<longrightarrow>
             computeStatsJsonTool env cj field
               = Inr (ToolError (js ''No numeric values found for field '' @ [34] @ shown_arg field
                                   @ [34] @ js ''.'')))
        \<and> (getVideos cj \<noteq> [] \<and> numeric_values env cj field \<noteq> [] \<longrightarrow>
             computeStatsJsonTool env cj field
               = Inr (ToolOk (stats_of env field (numeric_values env cj field)))))"
proof -
  let ?f = "numeric_value env (key_of field)"
  have throws: "(\<exists>e. map_throwing ?f (getVideos cj) = Inl e)
                  = (\<exists>v \<in> set (getVideos cj). v = JNull \<or> unconvertible env (key_of field) v)"
    by (simp only: map_throwing_throws numeric_value_throws)
  show ?thesis
  proof (cases "map_throwing ?f (getVideos cj)")
    case (Inl e)
    then have "getVideos cj \<noteq> []" by auto
    with Inl have "computeStatsJsonTool env cj field = Inl e"
      by (simp add: computeStatsJsonTool_def Let_def)
    moreover from Inl throws
    have "\<exists>v \<in> set (getVideos cj). v = JNull \<or> unconvertible env (key_of field) v" by auto
    ultimately show ?thesis by auto
  next
    case (Inr ns)
    with throws
    have none: "\<not> (\<exists>v \<in> set (getVideos cj). v = JNull \<or> unconvertible env (key_of field) v)"
      by auto
    have "\<not> (\<exists>e. computeStatsJsonTool env cj field = Inl e)"
      by (simp add: computeStatsJsonTool_def Let_def Inr)
    with none show ?thesis
      by (simp add: computeStatsJsonTool_def numeric_values_def Inr Let_def)
  qed
qed

text \<open>The theorem at the sample channel, where no entry throws: for the field
  \<^verbatim>\<open>likes\<close>, which no video has, the error marker comes back.\<close>

theorem stats_error_marker_witness:
  "computeStatsJsonTool sample_builtins sample_channel (Some (js ''likes''))
     = Inr (ToolError (js ''No numeric values found for field '' @ [34] @ js ''likes''
                         @ [34] @ js ''.''))"
proof -
  have a: "\<not> (\<exists>v \<in> set (getVideos sample_channel).
                v = JNull \<or> unconvertible sample_builtins (key_of (Some (js ''likes''))) v)"
    by code_simp
  have b: "getVideos sample_channel \<noteq> []" by code_simp
  have c: "numeric_values sample_builtins sample_channel (Some (js ''likes'')) = []"
    by code_simp
  from stats_error_marker [of sample_builtins sample_channel "Some (js ''likes'')"] a b c
  show ?thesis by (simp add: shown_arg_def)
qed

text \<open>
  C5 as stated fails: for a channel whose list of videos holds \<^verbatim>\<open>null\<close>, the read of the
  field throws, and for a channel with a video whose view count is the object
  \<^verbatim>\<open>{"toString": 1, "valueOf": 1}\<close>, \<^verbatim>\<open>Number\<close> throws; neither the error marker nor the
  record comes back.
\<close>

theorem stats_throws_on_video:
  "getVideos (channel [JNull]) \<noteq> []
   \<and> computeStatsJsonTool sample_builtins (channel [JNull]) (Some (js ''view_count''))
       = Inl TypeError
   \<and> JNull \<notin> set (getVideos opaque_channel)
   \<and> computeStatsJsonTool sample_builtins opaque_channel (Some (js ''view_count''))
       = Inl TypeError"
  by code_simp

section \<open>The points of the plot\<close>

lemma map_throwing_all2:
  "map_throwing f xs = Inr ys \<Longrightarrow> list_all2 (\<lambda>x y. f x = Inr y) xs ys"
  by (induction xs arbitrary: ys) (auto split: sum.splits)

lemma all2_source:
  "list_all2 P xs ys \<Longrightarrow> y \<in> set ys \<Longrightarrow> \<exists>x \<in> set xs. P x y"
  by (induction rule: list_all2_induct) auto

lemma all2_image:
  "list_all2 P xs ys \<Longrightarrow> x \<in> set xs \<Longrightarrow> \<exists>y \<in> set ys. P x y"
  by (induction rule: list_all2_induct) auto

lemma set_somes: "set (somes xs) = {x. Some x \<in> set xs}"
  by (induction xs rule: somes.induct) auto

lemma date_value_cases:
  "date_value env v =
     (if date_unconvertible v then Inl TypeError
      else if has_date env v then Inr (date_of env (the (raw_date v)))
      else Inr None)"
  by (auto simp: date_value_def date_unconvertible_def has_date_def new_Date_def
           split: option.splits)

lemma point_of_Some:
  assumes "point_of env key v = Inr (Some p)"
  shows "has_date env v" and "has_metric env key v" and "metric_value p \<noteq> NaN"
proof -
  from assms have v: "v \<noteq> JNull" by (auto simp: point_of_def)
  then obtain raw where raw: "raw_value env v key = Inr raw" by (simp add: raw_value_def)
  from assms v raw obtain n where n: "Number env raw = Inr n"
    by (cases "Number env raw") (simp_all add: point_of_def)
  from assms v raw n obtain d where d: "date_value env v = Inr d"
    by (cases "date_value env v") (simp_all add: point_of_def)
  from assms v raw n d obtain ms where ms: "d = Some ms"
    by (cases d) (simp_all add: point_of_def)
  from assms v raw n d ms have nan: "n \<noteq> NaN"
    by (auto simp: point_of_def split: if_splits)
  from d ms show "has_date env v"
    by (auto simp: date_value_cases split: if_splits)
  from raw n nan show "has_metric env key v" by (simp add: has_metric_def)
  from assms v raw n d ms nan show "metric_value p \<noteq> NaN"
    by (auto simp: point_of_def split: sum.splits)
qed

lemma point_of_excluded:
  assumes "\<not> (has_date env v \<and> has_metric env key v)"
  shows "point_of env key v
           = (if v = JNull \<or> unconvertible env key v \<or> date_unconvertible v then Inl TypeError
              else Inr None)"
proof (cases "v = JNull")
  case True
  then show ?thesis by (simp add: point_of_def)
next
  case False
  then obtain raw where raw: "raw_value env v key = Inr raw" by (simp add: raw_value_def)
  show ?thesis
  proof (cases "Number env raw")
    case (Inl e)
    then have "unconvertible env key v"
      using Number_throws [of env raw]
      by (auto simp: unconvertible_def raw split: option.splits jsval.splits)
    moreover have "e = TypeError" by (cases e) simp
    ultimately show ?thesis using False raw Inl by (simp add: point_of_def)
  next
    case (Inr n)
    then have conv: "\<not> unconvertible env key v"
      using Number_throws [of env raw]
      by (auto simp: unconvertible_def raw split: option.splits jsval.splits)
    have metric: "has_metric env key v = (n \<noteq> NaN)" by (simp add: has_metric_def raw Inr)
    show ?thesis
      using False raw Inr conv assms metric
      by (auto simp: point_of_def date_value_cases split: option.splits)
  qed
qed

lemma plot_ok_cases:
  assumes "plotMetricVsTimeTool env cj metric = Inr (ToolOk c)"
  obtains ps where "map_throwing (point_of env (key_of metric)) (getVideos cj) = Inr ps"
    and "chart_data c = sort_by date_cmp (somes ps)"
proof (cases "map_throwing (point_of env (key_of metric)) (getVideos cj)")
  case (Inl e)
  with assms show ?thesis
    by (simp add: plotMetricVsTimeTool_def Let_def split: if_splits)
next
  case (Inr ps)
  with assms have "chart_data c = sort_by date_cmp (somes ps)"
    by (simp add: plotMetricVsTimeTool_def Let_def split: if_splits) (cases c, simp)
  with Inr that show ?thesis by blast
qed

lemma plot_throws:
  "(\<exists>e. plotMetricVsTimeTool env cj metric = Inl e)
     = (\<exists>v \<in> set (getVideos cj). \<exists>e. point_of env (key_of metric) v = Inl e)"
proof (cases "map_throwing (point_of env (key_of metric)) (getVideos cj)")
  case (Inl e)
  then have "getVideos cj \<noteq> []" by auto
  with Inl have "plotMetricVsTimeTool env cj metric = Inl e"
    by (simp add: plotMetricVsTimeTool_def Let_def)
  moreover from Inl have "\<exists>v \<in> set (getVideos cj). \<exists>e. point_of env (key_of metric) v = Inl e"
    using map_throwing_throws [of "point_of env (key_of metric)" "getVideos cj"] by auto
  ultimately show ?thesis by auto
next
  case (Inr ps)
  then have "\<not> (\<exists>v \<in> set (getVideos cj). \<exists>e. point_of env (key_of metric) v = Inl e)"
    using map_throwing_throws [of "point_of env (key_of metric)" "getVideos cj"] by auto
  moreover have "\<not> (\<exists>e. plotMetricVsTimeTool env cj metric = Inl e)"
    by (simp add: plotMetricVsTimeTool_def Let_def Inr)
  ultimately show ?thesis by simp
qed

text \<open>
  C9, as the code has it. When the plot of a metric against time succeeds, every point of
  the data comes from a video with a date that parses and a numeric value for the metric,
  and its value is a number; every video without such a date or value gave no point;
  every point a video gave is in the data; and the data is in non-decreasing order of the
  date strings. A video without such a date or value gives no point and no failure unless
  it is \<^verbatim>\<open>null\<close>, or the value the tool reads or the value of its date does not convert
  to a primitive: then the callback throws. The tool throws exactly when the callback
  throws for a video.
\<close>

theorem plot_points_dated_sorted:
  "(plotMetricVsTimeTool env cj metric = Inr (ToolOk c) \<longrightarrow>
      (\<forall>p \<in> set (chart_data c).
          metric_value p \<noteq> NaN
          \<and> (\<exists>v \<in> set (getVideos cj).
                has_date env v \<and> has_metric env (key_of metric) v
                \<and> point_of env (key_of metric) v = Inr (Some p)))
      \<and> (\<forall>v \<in> set (getVideos cj).
            \<not> (has_date env v \<and> has_metric env (key_of metric) v) \<longrightarrow>
              point_of env (key_of metric) v = Inr None)
      \<and> (\<forall>v \<in> set (getVideos cj). \<forall>p.
            point_of env (key_of metric) v = Inr (Some p) \<longrightarrow> p \<in> set (chart_data c))
      \<and> sorted (map date (chart_data c)))
   \<and> (\<forall>v. \<not> (has_date env v \<and> has_metric env (key_of metric) v) \<longrightarrow>
          point_of env (key_of metric) v
            = (if v = JNull \<or> unconvertible env (key_of metric) v \<or> date_unconvertible v
               then Inl TypeError else Inr None))
   \<and> ((\<exists>e. plotMetricVsTimeTool env cj metric = Inl e)
        = (\<exists>v \<in> set (getVideos cj). \<exists>e. point_of env (key_of metric) v = Inl e))"
proof -
  let ?f = "point_of env (key_of metric)"
  have first:
    "(\<forall>p \<in> set (chart_data c).
          metric_value p \<noteq> NaN
          \<and> (\<exists>v \<in> set (getVideos cj).
                has_date env v \<and> has_metric env (key_of metric) v \<and> ?f v = Inr (Some p)))
      \<and> (\<forall>v \<in> set (getVideos cj).
            \<not> (has_date env v \<and> has_metric env (key_of metric) v) \<longrightarrow> ?f v = Inr None)
      \<and> (\<forall>v \<in> set (getVideos cj). \<forall>p. ?f v = Inr (Some p) \<longrightarrow> p \<in> set (chart_data c))
      \<and> sorted (map date (chart_data c))"
    if ok: "plotMetricVsTimeTool env cj metric = Inr (ToolOk c)"
  proof -
    from ok obtain ps where ps: "map_throwing ?f (getVideos cj) = Inr ps"
      and data: "chart_data c = sort_by date_cmp (somes ps)"
      by (rule plot_ok_cases)
    have all2: "list_all2 (\<lambda>v y. ?f v = Inr y) (getVideos cj) ps"
      using ps by (rule map_throwing_all2)
    have points: "set (chart_data c) = {p. Some p \<in> set ps}"
      by (simp add: data set_somes)
    have a: "metric_value p \<noteq> NaN
             \<and> (\<exists>v \<in> set (getVideos cj).
                   has_date env v \<and> has_metric env (key_of metric) v \<and> ?f v = Inr (Some p))"
      if "p \<in> set (chart_data c)" for p
    proof -
      from that have "Some p \<in> set ps" by (simp add: points)
      from all2_source [OF all2 this]
      obtain v where v: "v \<in> set (getVideos cj)" "?f v = Inr (Some p)" by blast
      from point_of_Some [OF v(2)] v show ?thesis by blast
    qed
    have b: "?f v = Inr None"
      if "v \<in> set (getVideos cj)" "\<not> (has_date env v \<and> has_metric env (key_of metric) v)" for v
    proof -
      from all2_image [OF all2 that(1)] obtain y where y: "?f v = Inr y" by blast
      show ?thesis
      proof (cases y)
        case None
        with y show ?thesis by simp
      next
        case (Some p)
        with y point_of_Some [of env "key_of metric" v p] that(2) show ?thesis by simp
      qed
    qed
    have c: "p \<in> set (chart_data c)" if "v \<in> set (getVideos cj)" "?f v = Inr (Some p)" for v p
    proof -
      from all2_image [OF all2 that(1)] obtain y where "y \<in> set ps" "?f v = Inr y" by blast
      with that(2) show ?thesis by (simp add: points)
    qed
    have d: "sorted (map date (chart_data c))" unfolding data by (rule sorted_dates)
    from a b c d show ?thesis by blast
  qed
  have second: "?f v = (if v = JNull \<or> unconvertible env (key_of metric) v \<or> date_unconvertible v
                        then Inl TypeError else Inr None)"
    if "\<not> (has_date env v \<and> has_metric env (key_of metric) v)" for v
    using that by (rule point_of_excluded)
  note third = plot_throws [of env cj metric]
  show ?thesis
  proof (intro conjI impI allI)
    show "(\<exists>e. plotMetricVsTimeTool env cj metric = Inl e)
            = (\<exists>v \<in> set (getVideos cj). \<exists>e. ?f v = Inl e)"
      by (rule third)
  qed (use first second in blast)+
qed

text \<open>The theorem at the sample channel: the plot of the view counts succeeds with two
  points, in the order of their dates, and the video without a date gives no point.\<close>

theorem plot_points_dated_sorted_witness:
  "(case plotMetricVsTimeTool sample_builtins sample_channel (Some (js ''view_count'')) of
      Inr (ToolOk c) \<Rightarrow>
        map date (chart_data c) = [js ''2020-05-01'', js ''2021-05-01'']
        \<and> sorted (map date (chart_data c))
    | _ \<Rightarrow> False)
   \<and> point_of sample_builtins (js ''view_count'')
        (video [(''title'', JStr (js ''c'')), (''view_count'', JNum (Fin 4))]) = Inr None"
proof -
  let ?c = "\<lparr> chartType = js ''metric_vs_time'', chart_metric = Some (js ''view_count''),
              chart_data =
                [\<lparr> date = js ''2020-05-01'', label = JStr (js ''a''), metric_value = Fin 10 \<rparr>,
                 \<lparr> date = js ''2021-05-01'', label = JStr (js ''b''), metric_value = Fin 3 \<rparr>] \<rparr>"
  let ?v = "video [(''title'', JStr (js ''c'')), (''view_count'', JNum (Fin 4))]"
  have ok: "plotMetricVsTimeTool sample_builtins sample_channel (Some (js ''view_count''))
              = Inr (ToolOk ?c)"
    by code_simp
  have key: "key_of (Some (js ''view_count'')) = js ''view_count''" by code_simp
  have v: "?v \<in> set (getVideos sample_channel)" by code_simp
  have undated: "\<not> has_date sample_builtins ?v" by code_simp
  note all = plot_points_dated_sorted
               [of sample_builtins sample_channel "Some (js ''view_count'')" ?c, unfolded key]
  from all [THEN conjunct1, rule_format, OF ok]
  have "sorted (map date (chart_data ?c))"
    and "\<forall>v \<in> set (getVideos sample_channel).
           \<not> (has_date sample_builtins v \<and> has_metric sample_builtins (js ''view_count'') v) \<longrightarrow>
             point_of sample_builtins (js ''view_count'') v = Inr None"
    by blast+
  with v undated show ?thesis unfolding ok by simp
qed

text \<open>
  C9 as stated fails: the second video of this channel has no date, and its view count,
  the object \<^verbatim>\<open>{"toString": 1, "valueOf": 1}\<close>, is not numeric; the video is not left
  out, \<^verbatim>\<open>Number\<close> throws on its view count and the tool fails.
\<close>

theorem plot_throws_on_undated_video:
  "getVideos opaque_channel
     = [video [(''title'', JStr (js ''a'')), (''published_at'', JStr (js ''2020-05-01'')),
               (''view_count'', JNum (Fin 10))],
        video [(''title'', JStr (js ''b'')), (''view_count'', opaque)]]
   \<and> \<not> has_date sample_builtins (video [(''title'', JStr (js ''b'')), (''view_count'', opaque)])
   \<and> \<not> has_metric sample_builtins (js ''view_count'')
         (video [(''title'', JStr (js ''b'')), (''view_count'', opaque)])
   \<and> plotMetricVsTimeTool sample_builtins opaque_channel (Some (js ''view_count''))
       = Inl TypeError"
  by code_simp

section \<open>The engagement column, as the spec has it\<close>

lemma rnd_tenth: "rnd (1 / 10) = tenth"
  unfolding tenth_def
  by (rule rnd_eval [of _ "- 4" 7205759403792794])
     (simp_all add: power_int_minus rhe_nearest)

lemma sample_rows:
  "column_number (row_of [(''favorite'', JNum (Fin 10)), (''view'', JNum (Fin 100))]) (js ''favorite'')
     = Some (Fin 10)"
  "column_number (row_of [(''favorite'', JNum (Fin 10)), (''view'', JNum (Fin 100))]) (js ''view'')
     = Some (Fin 100)"
  "column_number (row_of [(''view'', JNum (Fin 0))]) (js ''favorite'') = None"
  "column_number (row_of [(''view'', JNum (Fin 0))]) (js ''view'') = Some (Fin 0)"
  by (simp_all add: column_number_def row_of_def js_def)

text \<open>
  C8, for the engagement column modelled from the spec. The ratio of a row is defined
  exactly when the row holds a number in both columns and the view count is above zero,
  and is then the favorite count divided by the view count; adding the column keeps every
  row, in its place, and leaves a row without a ratio as it was.
\<close>

theorem engagement_ratio_defined:
  "(engagementRatio fav views r \<noteq> None)
     = (\<exists>f v. column_number r fav = Some f \<and> column_number r views = Some v
              \<and> num_less (Fin 0) v)
   \<and> (\<forall>f v. column_number r fav = Some f \<and> column_number r views = Some v
              \<and> num_less (Fin 0) v \<longrightarrow>
            engagementRatio fav views r = Some (fdiv f v))
   \<and> length (enrich_rows fav views rows) = length rows
   \<and> (\<forall>i < length rows.
         enrich_rows fav views rows ! i
           = (case engagementRatio fav views (rows ! i) of
                None \<Rightarrow> rows ! i
              | Some e \<Rightarrow> (rows ! i)(js ''engagement'' \<mapsto> JNum e)))"
  by (auto simp: engagementRatio_def enrich_rows_def split: option.splits)

theorem engagement_ratio_defined_witness:
  "engagementRatio (js ''favorite'') (js ''view'')
     (row_of [(''favorite'', JNum (Fin 10)), (''view'', JNum (Fin 100))]) = Some tenth
   \<and> engagementRatio (js ''favorite'') (js ''view'') (row_of [(''view'', JNum (Fin 0))]) = None
   \<and> enrich_rows (js ''favorite'') (js ''view'')
       [row_of [(''view'', JNum (Fin 0))],
        row_of [(''favorite'', JNum (Fin 10)), (''view'', JNum (Fin 100))]] ! 0
       = row_of [(''view'', JNum (Fin 0))]"
proof -
  let ?r = "row_of [(''favorite'', JNum (Fin 10)), (''view'', JNum (Fin 100))]"
  let ?z = "row_of [(''view'', JNum (Fin 0))]"
  have a: "engagementRatio (js ''favorite'') (js ''view'') ?r = Some tenth"
    using engagement_ratio_defined [of "js ''favorite''" "js ''view''" ?r "[]"]
    by (simp add: sample_rows rnd_tenth [simplified])
  have b: "engagementRatio (js ''favorite'') (js ''view'') ?z = None"
    using engagement_ratio_defined [of "js ''favorite''" "js ''view''" ?z "[]"]
    by (simp add: sample_rows)
  have c: "enrich_rows (js ''favorite'') (js ''view'') [?z, ?r] ! 0 = ?z"
    using engagement_ratio_defined [of "js ''favorite''" "js ''view''" ?z "[?z, ?r]"] b
    by simp
  from a b c show ?thesis by simp
qed

end
